(* ===== verification/RateLimit.thy ===== *)
theory RateLimit
  imports Prelude "HOL-Library.AList"
begin

text \<open>
  \<^verbatim>\<open>internal/web/ratelimit.go\<close>: the fixed-window limiter. The map of windows is an association list with
  distinct keys (\<open>rl_ok\<close>), so that its size is a number; \<^verbatim>\<open>allow\<close> and one tick of \<^verbatim>\<open>prune\<close> take the time of
  the call. \<open>run\<close> is any interleaving of both.
\<close>

definition maxRateKeys :: nat where "maxRateKeys = 50000"

record window =
  w_count :: int
  w_reset :: int

record rate_limiter =
  rl_hits :: "(string \<times> window) list"
  rl_max :: int
  rl_period :: int

definition newRateLimiter :: "int \<Rightarrow> int \<Rightarrow> rate_limiter" where
  "newRateLimiter mx period = \<lparr>rl_hits = [], rl_max = mx, rl_period = period\<rparr>"

definition sweep :: "int \<Rightarrow> (string \<times> window) list \<Rightarrow> (string \<times> window) list" where
  "sweep now hits = filter (\<lambda>(k, w). \<not> now > w_reset w) hits"

definition prune_tick :: "int \<Rightarrow> rate_limiter \<Rightarrow> rate_limiter" where
  "prune_tick now rl = rl\<lparr>rl_hits := sweep now (rl_hits rl)\<rparr>"

definition allow :: "int \<Rightarrow> string \<Rightarrow> rate_limiter \<Rightarrow> bool \<times> rate_limiter" where
  "allow now key rl =
     (let fresh = (\<lambda>hits. (True, rl\<lparr>rl_hits := AList.update key \<lparr>w_count = 1, w_reset = now + rl_period rl\<rparr> hits\<rparr>))
      in case map_of (rl_hits rl) key of
           Some w \<Rightarrow>
             (if \<not> now > w_reset w then
                (if w_count w \<ge> rl_max rl then (False, rl)
                 else (True, rl\<lparr>rl_hits := AList.update key (w\<lparr>w_count := w_count w + 1\<rparr>) (rl_hits rl)\<rparr>))
              else fresh (rl_hits rl))
         | None \<Rightarrow>
             (if length (rl_hits rl) \<ge> maxRateKeys then
                (let hits = sweep now (rl_hits rl)
                 in if length hits \<ge> maxRateKeys then (False, rl\<lparr>rl_hits := hits\<rparr>) else fresh hits)
              else fresh (rl_hits rl)))"

text \<open>\<^verbatim>\<open>net.SplitHostPort\<close> and \<^verbatim>\<open>clientIP\<close>.\<close>

definition SplitHost :: "string \<Rightarrow> string option" where
  "SplitHost s =
     (let before = rev (drop 1 (dropWhile (\<lambda>c. c \<noteq> CHR '':'') (rev s))) in
      if CHR '':'' \<notin> set s then None
      else if s \<noteq> [] \<and> hd s = CHR ''['' then
        (let host = takeWhile (\<lambda>c. c \<noteq> CHR '']'') (tl s)
         in if CHR '']'' \<notin> set s then None
            else if before = [CHR ''[''] @ host @ [CHR '']''] \<and> CHR ''['' \<notin> set host
                 \<and> CHR ''['' \<notin> set (drop (length before) s) \<and> CHR '']'' \<notin> set (drop (length before) s)
            then Some host else None)
      else if CHR '':'' \<in> set before \<or> CHR ''['' \<in> set s \<or> CHR '']'' \<in> set s then None
      else Some before)"

definition clientIP :: "string \<Rightarrow> string" where
  "clientIP remoteAddr = (case SplitHost remoteAddr of Some host \<Rightarrow> host | None \<Rightarrow> remoteAddr)"

datatype limited = Next_handler | Too_many_requests

definition middlewareBy :: "int \<Rightarrow> string \<Rightarrow> rate_limiter \<Rightarrow> limited \<times> rate_limiter" where
  "middlewareBy now key rl =
     (case allow now key rl of (ok, rl') \<Rightarrow> (if \<not> ok then Too_many_requests else Next_handler, rl'))"

section \<open>Runs\<close>

datatype rl_event = Attempt int string | Tick int

fun event_time :: "rl_event \<Rightarrow> int" where
  "event_time (Attempt now _) = now"
| "event_time (Tick now) = now"

fun rl_step :: "rl_event \<Rightarrow> rate_limiter \<Rightarrow> rate_limiter" where
  "rl_step (Attempt now key) rl = snd (allow now key rl)"
| "rl_step (Tick now) rl = prune_tick now rl"

fun run :: "rl_event list \<Rightarrow> rate_limiter \<Rightarrow> rate_limiter" where
  "run [] rl = rl"
| "run (ev # evs) rl = run evs (rl_step ev rl)"

text \<open>The number of attempts of \<open>key\<close> that a run lets through.\<close>

fun passed :: "string \<Rightarrow> rl_event list \<Rightarrow> rate_limiter \<Rightarrow> nat" where
  "passed key [] rl = 0"
| "passed key (ev # evs) rl =
     (case ev of
        Attempt now k \<Rightarrow> (if k = key \<and> fst (allow now k rl) then 1 else 0)
      | Tick now \<Rightarrow> 0) + passed key evs (rl_step ev rl)"

text \<open>The number of attempts of \<open>key\<close>, let through or not.\<close>

fun attempts :: "string \<Rightarrow> rl_event list \<Rightarrow> nat" where
  "attempts key [] = 0"
| "attempts key (Attempt now k # evs) = (if k = key then 1 else 0) + attempts key evs"
| "attempts key (Tick now # evs) = attempts key evs"

section \<open>Lemmas\<close>

definition rl_ok :: "rate_limiter \<Rightarrow> bool" where
  "rl_ok rl \<longleftrightarrow> distinct (map fst (rl_hits rl)) \<and> length (rl_hits rl) \<le> maxRateKeys"

lemma length_update: "length (AList.update k v xs) = (if k \<in> fst ` set xs then length xs else Suc (length xs))"
  by (induction xs) (auto split: if_splits)

lemma sweep_distinct: "distinct (map fst hits) \<Longrightarrow> distinct (map fst (sweep now hits))"
  by (simp add: sweep_def distinct_map_filter)

lemma length_sweep: "length (sweep now hits) \<le> length hits"
  by (simp add: sweep_def)

lemma sweep_lookup:
  "distinct (map fst hits) \<Longrightarrow> map_of (sweep now hits) k =
     (case map_of hits k of Some w \<Rightarrow> (if now > w_reset w then None else Some w) | None \<Rightarrow> None)"
  by (induction hits) (auto simp: sweep_def map_of_eq_None_iff image_iff split: option.splits)

lemma allow_ok:
  assumes "rl_ok rl"
  shows "rl_ok (snd (allow now key rl))"
proof -
  have d: "distinct (map fst (rl_hits rl))" and n: "length (rl_hits rl) \<le> maxRateKeys"
    using assms by (simp_all add: rl_ok_def)
  note upd = distinct_update length_update sweep_distinct [OF d]
  show ?thesis
  proof (cases "map_of (rl_hits rl) key")
    case None
    then have "key \<notin> fst ` set (rl_hits rl)" by (simp add: map_of_eq_None_iff)
    with None d n length_sweep [of now "rl_hits rl"] show ?thesis
      by (auto simp: allow_def Let_def rl_ok_def upd)
  next
    case (Some w)
    then have "key \<in> fst ` set (rl_hits rl)" by (metis map_of_eq_None_iff option.distinct(1))
    with Some d n show ?thesis by (auto simp: allow_def Let_def rl_ok_def upd)
  qed
qed

lemma step_ok: "rl_ok rl \<Longrightarrow> rl_ok (rl_step ev rl)"
proof (cases ev)
  case (Tick now)
  assume "rl_ok rl"
  then show ?thesis using length_sweep [of now "rl_hits rl"]
    by (auto simp: Tick prune_tick_def rl_ok_def sweep_distinct)
qed (simp add: allow_ok)

lemma run_ok: "rl_ok rl \<Longrightarrow> rl_ok (run evs rl)"
  by (induction evs arbitrary: rl) (simp_all add: step_ok)

lemma allow_limits [simp]:
  "rl_max (snd (allow now key rl)) = rl_max rl" "rl_period (snd (allow now key rl)) = rl_period rl"
  by (auto simp: allow_def Let_def split: option.splits)

lemma step_limits [simp]: "rl_max (rl_step ev rl) = rl_max rl" "rl_period (rl_step ev rl) = rl_period rl"
  by (cases ev; simp add: prune_tick_def)+

text \<open>While a window is open, its key keeps it; only the attempts of the key itself count.\<close>

lemma step_window:
  assumes "rl_ok rl" and "map_of (rl_hits rl) key = Some w" and "event_time ev \<le> w_reset w"
  shows "map_of (rl_hits (rl_step ev rl)) key =
    Some (case ev of
       Attempt now k \<Rightarrow> (if k = key \<and> fst (allow now k rl) then w\<lparr>w_count := w_count w + 1\<rparr> else w)
     | Tick _ \<Rightarrow> w)"
proof -
  have d: "distinct (map fst (rl_hits rl))" using assms(1) by (simp add: rl_ok_def)
  show ?thesis
  proof (cases ev)
    case (Tick now)
    with assms d show ?thesis by (simp add: prune_tick_def sweep_lookup)
  next
    case (Attempt now k)
    show ?thesis
    proof (cases "k = key")
      case True
      with Attempt assms show ?thesis by (auto simp: allow_def Let_def update_conv)
    next
      case False
      with Attempt assms d show ?thesis
        by (auto simp: allow_def Let_def update_conv sweep_lookup split: option.splits)
    qed
  qed
qed

lemma passed_window:
  assumes "rl_ok rl" and "map_of (rl_hits rl) key = Some w" and "\<forall>ev\<in>set evs. event_time ev \<le> w_reset w"
  shows "passed key evs rl = min (nat (rl_max rl - w_count w)) (attempts key evs)"
  using assms
proof (induction evs arbitrary: rl w)
  case Nil
  then show ?case by simp
next
  case (Cons ev evs)
  have t: "event_time ev \<le> w_reset w" and ts: "\<forall>ev\<in>set evs. event_time ev \<le> w_reset w"
    using Cons.prems by simp_all
  note w' = step_window [OF Cons.prems(1,2) t]
  show ?case
  proof (cases "\<exists>now. ev = Attempt now key \<and> fst (allow now key rl)")
    case True
    then obtain now where ev: "ev = Attempt now key" "fst (allow now key rl)" by blast
    then have "w_count w < rl_max rl"
      using Cons.prems(2) t by (auto simp: allow_def Let_def split: if_splits)
    moreover have "passed key evs (rl_step ev rl) = min (nat (rl_max rl - (w_count w + 1))) (attempts key evs)"
      using Cons.IH [OF step_ok [OF Cons.prems(1)] w'] ts ev by simp
    ultimately show ?thesis using ev by auto
  next
    case False
    then have "map_of (rl_hits (rl_step ev rl)) key = Some w" using w' by (cases ev) auto
    from Cons.IH [OF step_ok [OF Cons.prems(1)] this ts]
    have "passed key evs (rl_step ev rl) = min (nat (rl_max rl - w_count w)) (attempts key evs)" by simp
    moreover have "passed key (ev # evs) rl = passed key evs (rl_step ev rl)"
      using False by (cases ev) auto
    moreover have "rl_max rl \<le> w_count w" if "ev = Attempt now key" for now
      using that False Cons.prems(2) t by (auto simp: allow_def Let_def split: if_splits)
    ultimately show ?thesis by (cases ev) auto
  qed
qed

text \<open>A window of the key that has not run out at \<open>now\<close>. Without one, an attempt opens a window of its
  own unless the key is new and the table is full of open windows.\<close>

definition window_open :: "int \<Rightarrow> string \<Rightarrow> rate_limiter \<Rightarrow> bool" where
  "window_open now key rl \<longleftrightarrow> (case map_of (rl_hits rl) key of None \<Rightarrow> False | Some w \<Rightarrow> now \<le> w_reset w)"

lemma allow_fresh:
  assumes "\<not> window_open now key rl"
  shows "fst (allow now key rl) \<longleftrightarrow>
      map_of (rl_hits rl) key \<noteq> None \<or> length (sweep now (rl_hits rl)) < maxRateKeys"
    and "fst (allow now key rl) \<Longrightarrow>
      map_of (rl_hits (snd (allow now key rl))) key = Some \<lparr>w_count = 1, w_reset = now + rl_period rl\<rparr>"
  using assms length_sweep [of now "rl_hits rl"]
  by (auto simp: allow_def window_open_def Let_def update_conv split: option.splits if_splits)

lemma run_limits [simp]: "rl_max (run evs rl) = rl_max rl" "rl_period (run evs rl) = rl_period rl"
  by (induction evs arbitrary: rl) simp_all

lemma newRateLimiter_ok: "rl_ok (newRateLimiter mx period)"
  by (simp add: newRateLimiter_def rl_ok_def)

section \<open>Properties\<close>

text \<open>The table of windows never holds more than 50000 keys, whatever clients send and however the
  sweeps interleave.\<close>

theorem rate_table_bounded:
  "length (rl_hits (run evs (newRateLimiter mx period))) \<le> 50000"
  using run_ok [OF newRateLimiter_ok, of evs mx period] by (simp add: rl_ok_def maxRateKeys_def)

text \<open>C20: the limiter lets exactly the first \<^verbatim>\<open>max\<close> attempts of a window through. After any history,
  an attempt of a key that has no open window (it never had one, or the last one has run out, swept or
  not) opens a new one, unless the key is new and the table still holds 50000 open windows after the
  sweep; and of the attempts of that key from then until the new window resets, in any interleaving
  with other keys and sweeps, exactly as many pass as there are, up to the limit.\<close>

theorem rate_limit_per_window:
  assumes "rl = run history (newRateLimiter mx period)" and "0 < mx"
    and "\<not> window_open now key rl"
    and "\<forall>ev\<in>set evs. event_time ev \<le> now + period"
  shows "(fst (allow now key rl) \<longleftrightarrow>
       map_of (rl_hits rl) key \<noteq> None \<or> length (sweep now (rl_hits rl)) < 50000) \<and>
    (fst (allow now key rl) \<longrightarrow>
       passed key (Attempt now key # evs) rl = min (nat mx) (attempts key (Attempt now key # evs)))"
proof (intro conjI impI)
  show "fst (allow now key rl) \<longleftrightarrow>
      map_of (rl_hits rl) key \<noteq> None \<or> length (sweep now (rl_hits rl)) < 50000"
    using allow_fresh(1) [OF assms(3)] by (simp add: maxRateKeys_def)
  assume ok: "fst (allow now key rl)"
  have rl: "rl_ok rl" "rl_max rl = mx" "rl_period rl = period"
    using run_ok [OF newRateLimiter_ok] by (simp_all add: assms(1)) (simp_all add: newRateLimiter_def)
  have "passed key evs (rl_step (Attempt now key) rl) = min (nat (mx - 1)) (attempts key evs)"
    using passed_window [OF step_ok [OF rl(1), of "Attempt now key"], of key "\<lparr>w_count = 1, w_reset = now + period\<rparr>" evs]
      allow_fresh(2) [OF assms(3) ok] assms(4) by (simp add: rl)
  then show "passed key (Attempt now key # evs) rl = min (nat mx) (attempts key (Attempt now key # evs))"
    using ok assms(2) by auto
qed

definition demo_burst :: "rl_event list" where
  "demo_burst = [Attempt 101 ''ip'', Attempt 102 ''other'', Attempt 103 ''ip'', Tick 104, Attempt 105 ''ip'', Attempt 106 ''ip'']"

text \<open>The window opened at 0 ran out at 60 and no sweep has removed it; the attempt at 100 renews it.\<close>

theorem rate_limit_per_window_witness:
  "fst (allow 100 ''ip'' (run [Attempt 0 ''ip''] (newRateLimiter 3 60))) \<and>
   passed ''ip'' (Attempt 100 ''ip'' # demo_burst) (run [Attempt 0 ''ip''] (newRateLimiter 3 60)) = 3"
proof -
  let ?rl = "run [Attempt 0 ''ip''] (newRateLimiter 3 60)"
  have hits: "rl_hits ?rl = [(''ip'', \<lparr>w_count = 1, w_reset = 60\<rparr>)]"
    by (simp add: allow_def newRateLimiter_def maxRateKeys_def)
  have "\<not> window_open 100 ''ip'' ?rl" unfolding window_open_def hits by simp
  from rate_limit_per_window [OF refl _ this, of demo_burst] show ?thesis
    unfolding hits by (simp add: demo_burst_def)
qed

end
