(* ===== verification/Crypto.thy ===== *)
theory Crypto
  imports Prelude
begin

unbundle bit_operations_syntax

text \<open>
  Package \<^verbatim>\<open>internal/crypto\<close>: the versioned keyring. From the standard library the model has base64,
  hex and the GCM mode (counter mode and GHASH over any block cipher); the AES block cipher is the
  parameter \<open>E\<close>, a function from key and block to block, and what \<^verbatim>\<open>rand.Reader\<close> delivers is an
  argument. The round trip of GCM is a lemma, so the theorems on the keyring assume nothing of the
  cipher. A key id maps to its 32-byte material, which determines its \<^verbatim>\<open>cipher.AEAD\<close>.
\<close>

section \<open>Encodings\<close>

definition b64_alphabet :: string where
  "b64_alphabet = ''ABCDEFGHIJKLMNOPQRSTUVWXYZabcdefghijklmnopqrstuvwxyz0123456789+/''"

definition b64_char :: "nat \<Rightarrow> char" where
  "b64_char n = b64_alphabet ! n"

definition b64_val :: "char \<Rightarrow> nat option" where
  "b64_val c =
     (let k = code c in
      if 65 \<le> k \<and> k \<le> 90 then Some (k - 65)
      else if 97 \<le> k \<and> k \<le> 122 then Some (k - 71)
      else if 48 \<le> k \<and> k \<le> 57 then Some (k + 4)
      else if k = 43 then Some 62
      else if k = 47 then Some 63
      else None)"

fun b64_encode :: "string \<Rightarrow> string" where
  "b64_encode [] = []"
| "b64_encode [x] =
     (let a = code x in [b64_char (a div 4), b64_char (a mod 4 * 16), CHR ''='', CHR ''=''])"
| "b64_encode [x, y] =
     (let a = code x; b = code y
      in [b64_char (a div 4), b64_char (a mod 4 * 16 + b div 16), b64_char (b mod 16 * 4), CHR ''=''])"
| "b64_encode (x # y # z # rest) =
     (let a = code x; b = code y; c = code z
      in b64_char (a div 4) # b64_char (a mod 4 * 16 + b div 16)
         # b64_char (b mod 16 * 4 + c div 64) # b64_char (c mod 64) # b64_encode rest)"

fun b64_quads :: "string \<Rightarrow> string option" where
  "b64_quads [] = Some []"
| "b64_quads (p # q # r # s # rest) =
     (case (b64_val p, b64_val q) of
        (Some c1, Some c2) \<Rightarrow>
          (if s = CHR ''='' then
             (if rest \<noteq> [] then None
              else if r = CHR ''='' then Some [char_of (c1 * 4 + c2 div 16)]
              else case b64_val r of
                     None \<Rightarrow> None
                   | Some c3 \<Rightarrow> Some [char_of (c1 * 4 + c2 div 16), char_of (c2 mod 16 * 16 + c3 div 4)])
           else case (b64_val r, b64_val s) of
                  (Some c3, Some c4) \<Rightarrow>
                    map_option (\<lambda>t. char_of (c1 * 4 + c2 div 16) # char_of (c2 mod 16 * 16 + c3 div 4)
                                    # char_of (c3 mod 4 * 64 + c4) # t) (b64_quads rest)
                | _ \<Rightarrow> None)
      | _ \<Rightarrow> None)"
| "b64_quads _ = None"

text \<open>The decoder skips line breaks.\<close>

definition b64_decode :: "string \<Rightarrow> string option" where
  "b64_decode s = b64_quads (filter (\<lambda>c. c \<noteq> NL \<and> c \<noteq> CR) s)"

definition hex_val :: "char \<Rightarrow> nat option" where
  "hex_val c =
     (let k = code c in
      if 48 \<le> k \<and> k \<le> 57 then Some (k - 48)
      else if 97 \<le> k \<and> k \<le> 102 then Some (k - 87)
      else if 65 \<le> k \<and> k \<le> 70 then Some (k - 55)
      else None)"

fun hex_decode :: "string \<Rightarrow> string option" where
  "hex_decode [] = Some []"
| "hex_decode [_] = None"
| "hex_decode (a # b # rest) =
     (case (hex_val a, hex_val b) of
        (Some x, Some y) \<Rightarrow> map_option (\<lambda>t. char_of (16 * x + y) # t) (hex_decode rest)
      | _ \<Rightarrow> None)"

section \<open>Galois counter mode\<close>

type_synonym block_cipher = "string \<Rightarrow> string \<Rightarrow> string"

definition block_word :: "string \<Rightarrow> 128 word" where
  "block_word s = foldl (\<lambda>w c. push_bit 8 w OR of_nat (code c)) 0 (take 16 (s @ replicate 16 (CHR 0x00)))"

definition word_block :: "128 word \<Rightarrow> string" where
  "word_block w = map (\<lambda>i. char_of (unat (drop_bit (8 * (15 - i)) w AND 255))) [0..<16]"

text \<open>Multiplication in GF(2^128), most significant bit first.\<close>

fun gf_mult_loop :: "nat \<Rightarrow> 128 word \<Rightarrow> 128 word \<Rightarrow> 128 word \<Rightarrow> 128 word" where
  "gf_mult_loop 0 x z v = z"
| "gf_mult_loop (Suc i) x z v =
     gf_mult_loop i x (if bit x i then z XOR v else z)
       (if bit v 0 then drop_bit 1 v XOR push_bit 120 0xE1 else drop_bit 1 v)"

definition gf_mult :: "128 word \<Rightarrow> 128 word \<Rightarrow> 128 word" where
  "gf_mult x y = gf_mult_loop 128 x 0 y"

function blocks :: "string \<Rightarrow> string list" where
  "blocks s = (if s = [] then [] else take 16 s # blocks (drop 16 s))"
  by pat_completeness auto
termination by (relation "measure length") auto

declare blocks.simps [simp del]

definition ghash :: "128 word \<Rightarrow> string \<Rightarrow> 128 word" where
  "ghash h ct =
     (let y = foldl (\<lambda>y b. gf_mult (y XOR block_word b) h) 0 (blocks ct)
      in gf_mult (y XOR of_nat (8 * length ct)) h)"

definition ctr_block :: "string \<Rightarrow> nat \<Rightarrow> string" where
  "ctr_block nonce i =
     nonce @ map (\<lambda>j. char_of ((i mod 2 ^ 32) div 2 ^ (8 * (3 - j)) mod 256)) [0..<4]"

definition xor_byte :: "char \<Rightarrow> char \<Rightarrow> char" where
  "xor_byte a b = char_of (code a XOR code b)"

definition key_byte :: "block_cipher \<Rightarrow> string \<Rightarrow> string \<Rightarrow> nat \<Rightarrow> char" where
  "key_byte E k nonce j = (E k (ctr_block nonce (2 + j div 16)) @ replicate 16 (CHR 0x00)) ! (j mod 16)"

definition gcm_crypt :: "block_cipher \<Rightarrow> string \<Rightarrow> string \<Rightarrow> string \<Rightarrow> string" where
  "gcm_crypt E k nonce text = map (\<lambda>j. xor_byte (text ! j) (key_byte E k nonce j)) [0..<length text]"

definition gcm_tag :: "block_cipher \<Rightarrow> string \<Rightarrow> string \<Rightarrow> string \<Rightarrow> string" where
  "gcm_tag E k nonce ct =
     word_block (ghash (block_word (E k (replicate 16 (CHR 0x00)))) ct
                 XOR block_word (E k (ctr_block nonce 1)))"

definition gcm_seal :: "block_cipher \<Rightarrow> string \<Rightarrow> string \<Rightarrow> string \<Rightarrow> string" where
  "gcm_seal E k nonce pt = (let ct = gcm_crypt E k nonce pt in ct @ gcm_tag E k nonce ct)"

definition gcm_open :: "block_cipher \<Rightarrow> string \<Rightarrow> string \<Rightarrow> string \<Rightarrow> string option" where
  "gcm_open E k nonce data =
     (if length data < 16 then None
      else let ct = take (length data - 16) data; tag = drop (length data - 16) data
           in if tag = gcm_tag E k nonce ct then Some (gcm_crypt E k nonce ct) else None)"

section \<open>The keyring\<close>

record key_spec =
  ks_ID :: string
  ks_Material :: string

record box =
  b_primaryID :: string
  b_keys :: "string \<Rightarrow> string option"
  b_order :: "string list"

definition nonce_size :: nat where "nonce_size = 12"

text \<open>\<^verbatim>\<open>nonce\<close> is what \<^verbatim>\<open>io.ReadFull(rand.Reader, nonce)\<close> delivers: an error or the bytes.\<close>

definition seal :: "block_cipher \<Rightarrow> string \<Rightarrow> string result \<Rightarrow> string \<Rightarrow> string result" where
  "seal E k nonce plaintext =
     (case nonce of
        Inl e \<Rightarrow> Inl e
      | Inr n \<Rightarrow> Inr (b64_encode (n @ gcm_seal E k n plaintext)))"

definition open_payload :: "block_cipher \<Rightarrow> string \<Rightarrow> string \<Rightarrow> string result" where
  "open_payload E k payload =
     (case b64_decode payload of
        None \<Rightarrow> Inl ''illegal base64 data''
      | Some data \<Rightarrow>
          (if length data < nonce_size then Inl ''ciphertext too short''
           else case gcm_open E k (take nonce_size data) (drop nonce_size data) of
                  None \<Rightarrow> Inl ''cipher: message authentication failed''
                | Some pt \<Rightarrow> Inr pt))"

fun add_keys :: "(string \<Rightarrow> string option) \<Rightarrow> key_spec list \<Rightarrow> (string \<Rightarrow> string option) result" where
  "add_keys keys [] = Inr keys"
| "add_keys keys (s # specs) =
     (if ks_ID s = [] \<or> CHR ''$'' \<in> set (ks_ID s) then Inl (''crypto: invalid key id '' @ quoted_go (ks_ID s) @ '' (must be non-empty and contain no '' @ [SQ] @ ''$'' @ [SQ] @ '')'')
      else if length (ks_Material s) \<noteq> 32 then Inl (''crypto: key '' @ quoted_go (ks_ID s) @ '' must be 32 bytes, got '' @ Itoa (int (length (ks_Material s))))
      else if keys (ks_ID s) \<noteq> None then Inl (''crypto: duplicate key id '' @ quoted_go (ks_ID s))
      else add_keys (keys(ks_ID s := Some (ks_Material s))) specs)"

definition NewFromProvider :: "(string \<times> key_spec list) result \<Rightarrow> box result" where
  "NewFromProvider p =
     (case p of
        Inl e \<Rightarrow> Inl e
      | Inr (primaryID, specs) \<Rightarrow>
          (if specs = [] then Inl ''crypto: no keys provided''
           else case add_keys (\<lambda>_. None) specs of
                  Inl e \<Rightarrow> Inl e
                | Inr keys \<Rightarrow>
                    (if keys primaryID = None then Inl (''crypto: primary key id '' @ quoted_go primaryID @ '' not among provided keys'')
                     else Inr \<lparr>b_primaryID = primaryID, b_keys = keys,
                               b_order = primaryID # filter (\<lambda>i. i \<noteq> primaryID) (map ks_ID specs)\<rparr>)))"

definition key_32 :: "string option \<Rightarrow> string option" where
  "key_32 b = (case b of Some raw \<Rightarrow> if length raw = 32 then Some raw else None | None \<Rightarrow> None)"

definition decodeKey :: "string \<Rightarrow> string result" where
  "decodeKey key =
     (case key_32 (hex_decode key) of
        Some b \<Rightarrow> Inr b
      | None \<Rightarrow>
          (case key_32 (b64_decode key) of
             Some b \<Rightarrow> Inr b
           | None \<Rightarrow> Inl ''encryption key must be 64-char hex or base64 of exactly 32 bytes''))"

fun parse_entries :: "string set \<Rightarrow> string list \<Rightarrow> key_spec list result" where
  "parse_entries seen [] = Inr []"
| "parse_entries seen (entry # entries) =
     (let entry = TrimSpace entry in
      if entry = [] then parse_entries seen entries
      else
        (case Cut entry CHR '':'' of
           (i, key, ok) \<Rightarrow>
             (let i = TrimSpace i in
              if \<not> ok \<or> i = [] then Inl (''DBM_ENC_KEYS: entry '' @ quoted_go entry @ '' must be id:key'')
              else if i \<in> seen then Inl (''DBM_ENC_KEYS: duplicate key id '' @ quoted_go i)
              else case decodeKey (TrimSpace key) of
                     Inl e \<Rightarrow> Inl (''DBM_ENC_KEYS key '' @ quoted_go i @ '': '' @ e)
                   | Inr raw \<Rightarrow>
                       map_sum (\<lambda>e. e) (\<lambda>specs. \<lparr>ks_ID = i, ks_Material = raw\<rparr> # specs)
                         (parse_entries (insert i seen) entries))))"

definition parseMultiKeys :: "string \<Rightarrow> (string \<times> key_spec list) result" where
  "parseMultiKeys multi =
     (case parse_entries {} (Split multi CHR '','') of
        Inl e \<Rightarrow> Inl e
      | Inr specs \<Rightarrow>
          (if specs = [] then Inl ''DBM_ENC_KEYS: no valid entries'' else Inr (ks_ID (hd specs), specs)))"

text \<open>\<open>ephemeral\<close> is what \<^verbatim>\<open>rand.Read\<close> delivers for the key of an unconfigured single-key ring.\<close>

definition New_box :: "string result \<Rightarrow> string \<Rightarrow> box result" where
  "New_box ephemeral key =
     (case (if key = [] then ephemeral
            else map_sum (\<lambda>e. ''DBM_ENC_KEY: '' @ e) (\<lambda>b. b) (decodeKey key)) of
        Inl e \<Rightarrow> Inl e
      | Inr raw \<Rightarrow> NewFromProvider (Inr (''1'', [\<lparr>ks_ID = ''1'', ks_Material = raw\<rparr>])))"

definition ParseKeyring :: "string result \<Rightarrow> string \<Rightarrow> string \<Rightarrow> box result" where
  "ParseKeyring ephemeral single multi =
     (if TrimSpace multi = [] then New_box ephemeral single
      else case parseMultiKeys multi of
             Inl e \<Rightarrow> Inl e
           | Inr (primary, specs) \<Rightarrow> NewFromProvider (Inr (primary, specs)))"

definition Encrypt :: "block_cipher \<Rightarrow> string result \<Rightarrow> box \<Rightarrow> string \<Rightarrow> string result" where
  "Encrypt E nonce b plaintext =
     (case seal E (the (b_keys b (b_primaryID b))) nonce plaintext of
        Inl e \<Rightarrow> Inl e
      | Inr payload \<Rightarrow> Inr (b_primaryID b @ ''$'' @ payload))"

fun try_keys :: "block_cipher \<Rightarrow> box \<Rightarrow> string list \<Rightarrow> string \<Rightarrow> string result" where
  "try_keys E b [] enc = Inl ''crypto: no key could decrypt legacy ciphertext''"
| "try_keys E b (i # ids) enc =
     (case open_payload E (the (b_keys b i)) enc of Inr pt \<Rightarrow> Inr pt | Inl _ \<Rightarrow> try_keys E b ids enc)"

definition Decrypt :: "block_cipher \<Rightarrow> box \<Rightarrow> string \<Rightarrow> string result" where
  "Decrypt E b enc =
     (case Cut enc CHR ''$'' of
        (i, payload, found) \<Rightarrow>
          (if found then
             (case b_keys b i of
                None \<Rightarrow> Inl (''crypto: no key '' @ quoted_go i @ '' for ciphertext (rotated out?)'')
              | Some k \<Rightarrow> open_payload E k payload)
           else try_keys E b (b_order b) enc))"

definition Reencrypt :: "block_cipher \<Rightarrow> string result \<Rightarrow> box \<Rightarrow> string \<Rightarrow> (string \<times> bool) result" where
  "Reencrypt E nonce b enc =
     (case Cut enc CHR ''$'' of
        (i, _, found) \<Rightarrow>
          (if found \<and> i = b_primaryID b then Inr (enc, False)
           else case Decrypt E b enc of
                  Inl e \<Rightarrow> Inl e
                | Inr pt \<Rightarrow>
                    (case Encrypt E nonce b pt of Inl e \<Rightarrow> Inl e | Inr n \<Rightarrow> Inr (n, True))))"

section \<open>Encoding lemmas\<close>

lemma b64_char_code:
  "n < 64 \<Longrightarrow> code (b64_char n) = (if n < 26 then n + 65 else if n < 52 then n + 71
     else if n < 62 then n - 4 else if n = 62 then 43 else 47)"
proof -
  have "\<forall>n\<in>set [0..<64]. code (b64_char n) = (if n < 26 then n + 65 else if n < 52 then n + 71
     else if n < 62 then n - 4 else if n = 62 then 43 else 47)"
    by code_simp
  then show "n < 64 \<Longrightarrow> ?thesis" by simp
qed

lemma b64_val_char [simp]: "n < 64 \<Longrightarrow> b64_val (b64_char n) = Some n"
  by (auto simp: b64_val_def b64_char_code Let_def)

lemma b64_char_plain:
  assumes "n < 64"
  shows "b64_char n \<notin> {CHR ''='', CHR ''$'', NL, CR}"
proof -
  have "code (CHR ''='') = 61" "code (CHR ''$'') = 36" "code NL = 10" "code CR = 13"
    by (simp_all add: code_def)
  then show ?thesis using b64_char_code [OF assms] assms by (auto split: if_splits)
qed

lemma byte_bounds: "code c div 4 < 64" "code c div 16 < 16" "code c div 64 < 4"
  using code_less_256 [of c] by auto

lemma byte_parts: "code c mod 4 * 16 + code d div 16 < 64" "code c mod 16 * 4 + code d div 64 < 64"
  "code c mod 4 * 16 < 64" "code c mod 16 * 4 < 64"
  using byte_bounds [of d] mod_less_divisor [of 4 "code c"] mod_less_divisor [of 16 "code c"]
  by linarith+

lemma byte_joined:
  "code c div 16 div 16 = 0" "code c div 64 div 4 = 0"
  "code c div 16 mod 16 = code c div 16" "code c div 64 mod 4 = code c div 64"
  using byte_bounds [of c] by auto

lemmas b64_arith = byte_bounds byte_parts byte_joined

lemma b64_quads_encode: "b64_quads (b64_encode s) = Some s"
proof (induction s rule: b64_encode.induct)
  case (4 x y z rest)
  have "b64_char (code z mod 64) \<noteq> CHR ''=''" using b64_char_plain [of "code z mod 64"] by simp
  with 4 show ?case by (simp add: Let_def b64_arith)
next
  case (3 x y)
  have "b64_char (code y mod 16 * 4) \<noteq> CHR ''=''"
    using b64_char_plain [of "code y mod 16 * 4"] by (simp add: b64_arith)
  then show ?case by (simp add: Let_def b64_arith)
qed (simp_all add: Let_def b64_arith)

lemma b64_encode_plain: "c \<in> set (b64_encode s) \<Longrightarrow> c \<notin> {CHR ''$'', NL, CR}"
proof (induction s rule: b64_encode.induct)
  case (4 x y z rest)
  have "code z mod 64 < 64" by simp
  with 4 show ?case using b64_char_plain b64_arith by (auto simp: Let_def)
qed (use b64_char_plain b64_arith in \<open>auto simp: Let_def\<close>)

lemma b64_round_trip: "b64_decode (b64_encode s) = Some s"
proof -
  have "filter (\<lambda>c. c \<noteq> NL \<and> c \<noteq> CR) (b64_encode s) = b64_encode s"
    using b64_encode_plain [of _ s] by (auto intro!: filter_True)
  then show ?thesis by (simp add: b64_decode_def b64_quads_encode)
qed

section \<open>The round trip of GCM\<close>

lemma xor_byte_cancel [simp]: "xor_byte (xor_byte a b) b = a"
proof -
  have "take_bit 8 (code a XOR code b) = code a XOR code b"
    using code_less_256 [of a] code_less_256 [of b]
    by (simp only: take_bit_xor) (simp add: take_bit_nat_eq_self_iff [THEN iffD2])
  then have "code a XOR code b < 2 ^ 8" by (simp only: take_bit_nat_eq_self_iff)
  then have "code (char_of (code a XOR code b)) = code a XOR code b"
    by (intro code_char_of) simp
  then show ?thesis by (simp add: xor_byte_def xor.assoc)
qed

lemma length_gcm_crypt [simp]: "length (gcm_crypt E k n t) = length t"
  by (simp add: gcm_crypt_def)

lemma gcm_crypt_crypt [simp]: "gcm_crypt E k n (gcm_crypt E k n t) = t"
  by (rule nth_equalityI) (simp_all add: gcm_crypt_def)

lemma length_gcm_tag [simp]: "length (gcm_tag E k n ct) = 16"
  by (simp add: gcm_tag_def word_block_def)

lemma gcm_open_seal: "gcm_open E k n (gcm_seal E k n pt) = Some pt"
  by (simp add: gcm_open_def gcm_seal_def Let_def)

lemma open_seal:
  "length n = nonce_size \<Longrightarrow> open_payload E k (b64_encode (n @ gcm_seal E k n pt)) = Inr pt"
  by (simp add: open_payload_def b64_round_trip gcm_open_seal)

section \<open>The keyring invariant\<close>

text \<open>
  A well-formed ring: the primary is a key and heads the try order, the order lists every key once,
  and every key has a non-empty id without \<^verbatim>\<open>$\<close> and 32 bytes of material.
\<close>

definition box_ok :: "box \<Rightarrow> bool" where
  "box_ok b \<longleftrightarrow>
     b_order b \<noteq> [] \<and> hd (b_order b) = b_primaryID b \<and> distinct (b_order b) \<and>
     set (b_order b) = dom (b_keys b) \<and>
     (\<forall>i k. b_keys b i = Some k \<longrightarrow> i \<noteq> [] \<and> CHR ''$'' \<notin> set i \<and> length k = 32)"

lemma add_keys_ok:
  assumes "add_keys keys specs = Inr keys'"
  shows "keys' = keys ++ map_of (map (\<lambda>s. (ks_ID s, ks_Material s)) specs) \<and>
     distinct (map ks_ID specs) \<and> ks_ID ` set specs \<inter> dom keys = {} \<and>
     (\<forall>s\<in>set specs. ks_ID s \<noteq> [] \<and> CHR ''$'' \<notin> set (ks_ID s) \<and> length (ks_Material s) = 32)"
  using assms
proof (induction specs arbitrary: keys)
  case Nil
  then show ?case by simp
next
  case (Cons s specs)
  from Cons.prems have s: "ks_ID s \<noteq> []" "CHR ''$'' \<notin> set (ks_ID s)" "length (ks_Material s) = 32"
    "keys (ks_ID s) = None" and rest: "add_keys (keys(ks_ID s := Some (ks_Material s))) specs = Inr keys'"
    by (auto split: if_splits)
  note ih = Cons.IH [OF rest]
  have fresh: "ks_ID s \<notin> ks_ID ` set specs" using ih by auto
  then have none: "map_of (map (\<lambda>s. (ks_ID s, ks_Material s)) specs) (ks_ID s) = None"
    by (auto simp: map_of_eq_None_iff)
  have keys': "keys' = keys ++ map_of (map (\<lambda>s. (ks_ID s, ks_Material s)) (s # specs))"
  proof
    fix i
    from ih have "keys' i = (keys(ks_ID s := Some (ks_Material s)) ++ map_of (map (\<lambda>s. (ks_ID s, ks_Material s)) specs)) i"
      by (simp only:)
    with none show "keys' i = (keys ++ map_of (map (\<lambda>s. (ks_ID s, ks_Material s)) (s # specs))) i"
      by (simp add: map_add_def split: option.split)
  qed
  from ih have "ks_ID ` set specs \<inter> dom keys = {}" by (auto simp: domIff)
  with s have "ks_ID ` set (s # specs) \<inter> dom keys = {}" by (auto simp: domIff)
  moreover from ih fresh have "distinct (map ks_ID (s # specs))" by simp
  moreover from ih s have "\<forall>s\<in>set (s # specs). ks_ID s \<noteq> [] \<and> CHR ''$'' \<notin> set (ks_ID s)
    \<and> length (ks_Material s) = 32" by simp
  ultimately show ?case using keys' by blast
qed

lemma NewFromProvider_Inr:
  assumes "NewFromProvider (Inr (p, specs)) = Inr b"
  shows "b_keys b = map_of (map (\<lambda>s. (ks_ID s, ks_Material s)) specs)" and "b_primaryID b = p"
    and "b_order b = p # filter (\<lambda>i. i \<noteq> p) (map ks_ID specs)" and "p \<in> ks_ID ` set specs"
    and "distinct (map ks_ID specs)"
    and "\<forall>s\<in>set specs. ks_ID s \<noteq> [] \<and> CHR ''$'' \<notin> set (ks_ID s) \<and> length (ks_Material s) = 32"
proof -
  from assms obtain keys where k: "add_keys (\<lambda>_. None) specs = Inr keys" "keys p \<noteq> None"
    and b: "b = \<lparr>b_primaryID = p, b_keys = keys, b_order = p # filter (\<lambda>i. i \<noteq> p) (map ks_ID specs)\<rparr>"
    by (auto simp: NewFromProvider_def split: if_splits sum.splits)
  note add = add_keys_ok [OF k(1)]
  from add have keys: "keys = map_of (map (\<lambda>s. (ks_ID s, ks_Material s)) specs)" by (simp add: map_add_def)
  then have "p \<in> fst ` set (map (\<lambda>s. (ks_ID s, ks_Material s)) specs)"
    using k(2) by (metis map_of_eq_None_iff)
  then show "p \<in> ks_ID ` set specs" by auto
  show "b_keys b = map_of (map (\<lambda>s. (ks_ID s, ks_Material s)) specs)" "b_primaryID b = p"
    "b_order b = p # filter (\<lambda>i. i \<noteq> p) (map ks_ID specs)" using keys by (simp_all add: b)
  show "distinct (map ks_ID specs)"
    "\<forall>s\<in>set specs. ks_ID s \<noteq> [] \<and> CHR ''$'' \<notin> set (ks_ID s) \<and> length (ks_Material s) = 32"
    using add by simp_all
qed

lemma NewFromProvider_key:
  assumes "NewFromProvider (Inr (p, specs)) = Inr b" and "s \<in> set specs"
  shows "b_keys b (ks_ID s) = Some (ks_Material s)"
  using assms(2) NewFromProvider_Inr(1,5) [OF assms(1)]
  by (auto intro!: map_of_is_SomeI simp: comp_def)

lemma NewFromProvider_box_ok:
  assumes "NewFromProvider p = Inr b"
  shows "box_ok b"
proof -
  obtain prim specs where "p = Inr (prim, specs)" using assms
    by (auto simp: NewFromProvider_def split: sum.splits)
  note new = NewFromProvider_Inr [OF assms [unfolded this]]
  have "dom (b_keys b) = ks_ID ` set specs" by (auto simp: new(1) dom_map_of_conv_image_fst image_image)
  moreover have "i \<noteq> [] \<and> CHR ''$'' \<notin> set i \<and> length k = 32" if "b_keys b i = Some k" for i k
  proof -
    from that obtain s where "s \<in> set specs" "i = ks_ID s" "k = ks_Material s"
      by (auto simp: new(1) dest!: map_of_SomeD)
    with new(6) show ?thesis by simp
  qed
  ultimately show ?thesis using new(4,5) unfolding box_ok_def new(2,3) by auto
qed

lemma Encrypt_shape:
  assumes "box_ok b"
  obtains k where "b_keys b (b_primaryID b) = Some k" and "CHR ''$'' \<notin> set (b_primaryID b)"
    and "\<And>E n pt. Encrypt E (Inr n) b pt
           = Inr (b_primaryID b @ CHR ''$'' # b64_encode (n @ gcm_seal E k n pt))"
proof -
  from assms have "b_primaryID b \<in> set (b_order b)" unfolding box_ok_def by (metis list.set_sel(1))
  with assms obtain k where k: "b_keys b (b_primaryID b) = Some k" by (auto simp: box_ok_def)
  moreover from assms k have "CHR ''$'' \<notin> set (b_primaryID b)" by (auto simp: box_ok_def)
  ultimately show thesis using that by (simp add: Encrypt_def seal_def)
qed

lemma Decrypt_prefixed:
  "CHR ''$'' \<notin> set i \<Longrightarrow> b_keys b i = Some k \<Longrightarrow> length n = nonce_size \<Longrightarrow>
     Decrypt E b (i @ CHR ''$'' # b64_encode (n @ gcm_seal E k n pt)) = Inr pt"
  by (simp add: Decrypt_def Cut_found open_seal)

section \<open>Properties\<close>

text \<open>C25: every keyring that the parser accepts is well formed: its primary key exists and is tried
  first, the try order lists each key once, and each key has a usable id and 32 bytes.\<close>

theorem ParseKeyring_box_ok:
  assumes "ParseKeyring ephemeral single multi = Inr b"
  shows "box_ok b"
  using assms NewFromProvider_box_ok
  by (auto simp: ParseKeyring_def New_box_def split: if_splits sum.splits)

theorem ParseKeyring_box_ok_witness:
  "\<exists>b. ParseKeyring (Inr (replicate 32 CHR ''k'')) [] [] = Inr b \<and> box_ok b"
proof -
  have "\<exists>b. ParseKeyring (Inr (replicate 32 CHR ''k'')) [] [] = Inr b"
    by (simp add: ParseKeyring_def New_box_def NewFromProvider_def TrimSpace_def)
  then show ?thesis using ParseKeyring_box_ok by blast
qed

text \<open>C13: what \<^verbatim>\<open>Encrypt\<close> seals under a well-formed ring, \<^verbatim>\<open>Decrypt\<close> opens again, for every block cipher,
  every nonce of the right size and every text (also the empty one).\<close>

theorem Decrypt_Encrypt:
  assumes "NewFromProvider p = Inr b" and "length nonce = nonce_size"
  shows "\<exists>enc. Encrypt E (Inr nonce) b plaintext = Inr enc \<and> Decrypt E b enc = Inr plaintext"
proof -
  from NewFromProvider_box_ok [OF assms(1)] obtain k where "b_keys b (b_primaryID b) = Some k"
    "CHR ''$'' \<notin> set (b_primaryID b)"
    "Encrypt E (Inr nonce) b plaintext
       = Inr (b_primaryID b @ CHR ''$'' # b64_encode (nonce @ gcm_seal E k nonce plaintext))"
    by (rule Encrypt_shape) blast
  then show ?thesis using Decrypt_prefixed assms(2) by auto
qed

definition demo_specs :: "key_spec list" where
  "demo_specs = [\<lparr>ks_ID = ''v1'', ks_Material = replicate 32 CHR ''a''\<rparr>]"

definition demo_specs2 :: "key_spec list" where
  "demo_specs2 = \<lparr>ks_ID = ''v2'', ks_Material = replicate 32 CHR ''b''\<rparr> # demo_specs"

theorem Decrypt_Encrypt_witness:
  "\<exists>b enc. NewFromProvider (Inr (''v1'', demo_specs)) = Inr b \<and>
     Encrypt (\<lambda>k x. x) (Inr (replicate 12 CHR ''n'')) b ''secret'' = Inr enc \<and>
     Decrypt (\<lambda>k x. x) b enc = Inr ''secret''"
proof -
  have "\<exists>b. NewFromProvider (Inr (''v1'', demo_specs)) = Inr b"
    by (simp add: NewFromProvider_def demo_specs_def)
  moreover have "length (replicate 12 CHR ''n'') = nonce_size" by (simp add: nonce_size_def)
  ultimately show ?thesis using Decrypt_Encrypt by blast
qed

text \<open>Key rotation loses nothing. If the new ring keeps every key of the old one, a text sealed
  under the old ring still opens; \<^verbatim>\<open>Reencrypt\<close> keeps the plaintext, reports a change exactly when the
  primary key differs, and a second run rewrites nothing.\<close>

theorem key_rotation:
  assumes "NewFromProvider (Inr (p1, specs1)) = Inr old" and "NewFromProvider (Inr (p2, specs2)) = Inr new"
    and "set specs1 \<subseteq> set specs2" and "length nonce = nonce_size" and "length nonce' = nonce_size"
    and "Encrypt E (Inr nonce) old plaintext = Inr enc"
  shows "Decrypt E new enc = Inr plaintext \<and>
    (\<exists>enc'. Reencrypt E (Inr nonce') new enc = Inr (enc', p1 \<noteq> p2) \<and>
       Decrypt E new enc' = Inr plaintext \<and> Reencrypt E r new enc' = Inr (enc', False))"
proof -
  from NewFromProvider_box_ok [OF assms(1)] obtain k where k: "b_keys old p1 = Some k" "CHR ''$'' \<notin> set p1"
    "enc = p1 @ CHR ''$'' # b64_encode (nonce @ gcm_seal E k nonce plaintext)"
    by (rule Encrypt_shape) (use assms(6) in \<open>simp add: NewFromProvider_Inr(2) [OF assms(1)]\<close>)
  from NewFromProvider_box_ok [OF assms(2)] obtain k2 where k2: "b_keys new p2 = Some k2" "CHR ''$'' \<notin> set p2"
    "Encrypt E (Inr nonce') new plaintext
       = Inr (p2 @ CHR ''$'' # b64_encode (nonce' @ gcm_seal E k2 nonce' plaintext))"
    by (rule Encrypt_shape) (simp add: NewFromProvider_Inr(2) [OF assms(2)])
  obtain s where s: "s \<in> set specs1" "p1 = ks_ID s" using NewFromProvider_Inr(4) [OF assms(1)] by blast
  have "b_keys new p1 = Some k"
    using NewFromProvider_key [OF assms(1) s(1)] NewFromProvider_key [OF assms(2), of s] s assms(3) k(1) by auto
  with k have dec: "Decrypt E new enc = Inr plaintext" by (simp add: Decrypt_prefixed assms(4))
  have prim: "b_primaryID new = p2" by (rule NewFromProvider_Inr(2) [OF assms(2)])
  show ?thesis
  proof (cases "p1 = p2")
    case True
    then show ?thesis using dec k(2) by (simp add: Reencrypt_def k(3) Cut_found prim)
  next
    case False
    let ?enc' = "p2 @ CHR ''$'' # b64_encode (nonce' @ gcm_seal E k2 nonce' plaintext)"
    have "Reencrypt E (Inr nonce') new enc = Inr (?enc', True)"
      using False dec k(2) k2(3) by (simp add: Reencrypt_def k(3) Cut_found prim)
    moreover have "Decrypt E new ?enc' = Inr plaintext" using k2 assms(5) by (simp add: Decrypt_prefixed)
    moreover have "Reencrypt E r new ?enc' = Inr (?enc', False)"
      using k2(2) by (simp add: Reencrypt_def Cut_found prim)
    ultimately show ?thesis using dec False by auto
  qed
qed

theorem key_rotation_witness:
  "\<exists>old new enc. NewFromProvider (Inr (''v1'', demo_specs)) = Inr old \<and>
     NewFromProvider (Inr (''v2'', demo_specs2)) = Inr new \<and>
     Encrypt (\<lambda>k x. x) (Inr (replicate 12 CHR ''n'')) old ''secret'' = Inr enc \<and>
     Decrypt (\<lambda>k x. x) new enc = Inr ''secret''"
proof -
  obtain old where old: "NewFromProvider (Inr (''v1'', demo_specs)) = Inr old"
    by (simp add: NewFromProvider_def demo_specs_def)
  obtain new where new: "NewFromProvider (Inr (''v2'', demo_specs2)) = Inr new"
    by (simp add: NewFromProvider_def demo_specs_def demo_specs2_def)
  have n: "length (replicate 12 CHR ''n'') = nonce_size" by (simp add: nonce_size_def)
  obtain enc where enc: "Encrypt (\<lambda>k x. x) (Inr (replicate 12 CHR ''n'')) old ''secret'' = Inr enc"
    by (simp add: Encrypt_def seal_def)
  have "set demo_specs \<subseteq> set demo_specs2" by (auto simp: demo_specs2_def)
  from key_rotation [OF old new this n n enc] old new enc show ?thesis by blast
qed

end
