(* ===== verification/Config.thy ===== *)
theory Config
  imports Crypto
begin

text \<open>
  Package \<^verbatim>\<open>internal/config\<close>: \<^verbatim>\<open>Load\<close> as a function of the environment (\<^verbatim>\<open>os.Getenv\<close>, the empty string
  for an unset variable). The log lines it prints are not modelled.
\<close>

record config =
  cfg_Addr :: string
  cfg_SQLitePath :: string
  cfg_SQLiteDir :: string
  cfg_EncKey :: string
  cfg_EncKeys :: string
  cfg_BaseURL :: string
  cfg_OIDCIssuer :: string
  cfg_OIDCClientID :: string
  cfg_OIDCClientSecret :: string
  cfg_OIDCRedirectURL :: string
  cfg_OIDCAdminRole :: string
  cfg_OIDCWriteRole :: string
  cfg_OIDCReadRole :: string
  cfg_OpenRead :: bool
  cfg_ScopedAccess :: bool
  cfg_TrustProxy :: bool
  cfg_AllowLocalTargets :: bool
  cfg_SessionBackend :: string
  cfg_SessionRedisURL :: string
  cfg_StoreDriver :: string
  cfg_StoreDSN :: string
  cfg_PGPoolMaxConns :: int
  cfg_LogLevel :: string
  cfg_LogFormat :: string
  cfg_MetricsToken :: string
  cfg_AuditRetentionDays :: int
  cfg_DevMode :: bool

type_synonym environment = "string \<Rightarrow> string"

definition env :: "environment \<Rightarrow> string \<Rightarrow> string \<Rightarrow> string" where
  "env e key def = (if e key \<noteq> [] then e key else def)"

definition intEnv :: "environment \<Rightarrow> string \<Rightarrow> int \<Rightarrow> int" where
  "intEnv e key def =
     (if e key = [] then def
      else case Atoi (e key) of
             None \<Rightarrow> def
           | Some n \<Rightarrow> (if n < 0 then def else n))"

definition read_config :: "environment \<Rightarrow> config" where
  "read_config e =
     (let c = \<lparr>cfg_Addr = env e ''DBM_ADDR'' '':8080'',
               cfg_SQLitePath = env e ''DBM_SQLITE_PATH'' ''./data/verix-dbm.db'',
               cfg_SQLiteDir = e ''DBM_SQLITE_DIR'',
               cfg_EncKey = e ''DBM_ENC_KEY'',
               cfg_EncKeys = e ''DBM_ENC_KEYS'',
               cfg_BaseURL = env e ''DBM_BASE_URL'' ''http://localhost:8080'',
               cfg_OIDCIssuer = e ''OIDC_ISSUER'',
               cfg_OIDCClientID = e ''OIDC_CLIENT_ID'',
               cfg_OIDCClientSecret = e ''OIDC_CLIENT_SECRET'',
               cfg_OIDCRedirectURL = e ''OIDC_REDIRECT_URL'',
               cfg_OIDCAdminRole = env e ''OIDC_ADMIN_ROLE'' ''dbm-admin'',
               cfg_OIDCWriteRole = env e ''OIDC_WRITE_ROLE'' ''dbm-write'',
               cfg_OIDCReadRole = env e ''OIDC_READ_ROLE'' ''dbm-read'',
               cfg_OpenRead = (e ''DBM_OPEN_READ'' = ''true''),
               cfg_ScopedAccess = (e ''DBM_SCOPED_ACCESS'' = ''true''),
               cfg_TrustProxy = (e ''DBM_TRUST_PROXY'' = ''true''),
               cfg_AllowLocalTargets = (e ''DBM_ALLOW_LOCAL_TARGETS'' = ''true''),
               cfg_SessionBackend = env e ''DBM_SESSION_BACKEND'' ''memory'',
               cfg_SessionRedisURL = e ''DBM_SESSION_REDIS_URL'',
               cfg_StoreDriver = env e ''DBM_STORE_DRIVER'' ''sqlite'',
               cfg_StoreDSN = e ''DBM_STORE_DSN'',
               cfg_PGPoolMaxConns = intEnv e ''DBM_PG_POOL_MAX_CONNS'' 4,
               cfg_LogLevel = env e ''DBM_LOG_LEVEL'' ''info'',
               cfg_LogFormat = env e ''DBM_LOG_FORMAT'' ''json'',
               cfg_MetricsToken = e ''DBM_METRICS_TOKEN'',
               cfg_AuditRetentionDays = intEnv e ''DBM_AUDIT_RETENTION_DAYS'' 0,
               cfg_DevMode = (e ''DBM_DEV_MODE'' = ''true'')\<rparr>
      in if cfg_OIDCRedirectURL c = []
         then c\<lparr>cfg_OIDCRedirectURL := cfg_BaseURL c @ ''/auth/callback''\<rparr> else c)"

definition Load :: "environment \<Rightarrow> config result" where
  "Load e =
     (let c = read_config e in
      if cfg_DevMode c then Inr c
      else if cfg_OIDCIssuer c = [] \<or> cfg_OIDCClientID c = [] then
        Inl (''authentication is not configured: set OIDC_ISSUER and OIDC_CLIENT_ID, '' @
             ''or set DBM_DEV_MODE=true for local development. Refusing to start with auth disabled'')
      else if cfg_EncKey c = [] \<and> cfg_EncKeys c = [] then
        Inl (''encryption key is not configured: set DBM_ENC_KEY (64 hex chars) or DBM_ENC_KEYS, '' @
             ''or set DBM_DEV_MODE=true for local development. Refusing to start without a persistent credential key'')
      else Inr c)"

lemma intEnv_nonneg: "0 \<le> def \<Longrightarrow> 0 \<le> intEnv e key def"
  by (simp add: intEnv_def split: option.split)

lemma read_config_simps:
  "cfg_DevMode (read_config e) = (e ''DBM_DEV_MODE'' = ''true'')"
  "cfg_OIDCIssuer (read_config e) = e ''OIDC_ISSUER''"
  "cfg_OIDCClientID (read_config e) = e ''OIDC_CLIENT_ID''"
  "cfg_EncKey (read_config e) = e ''DBM_ENC_KEY''"
  "cfg_EncKeys (read_config e) = e ''DBM_ENC_KEYS''"
  "cfg_AuditRetentionDays (read_config e) = intEnv e ''DBM_AUDIT_RETENTION_DAYS'' 0"
  "cfg_PGPoolMaxConns (read_config e) = intEnv e ''DBM_PG_POOL_MAX_CONNS'' 4"
  "cfg_OIDCRedirectURL (read_config e) = (if e ''OIDC_REDIRECT_URL'' = []
     then env e ''DBM_BASE_URL'' ''http://localhost:8080'' @ ''/auth/callback'' else e ''OIDC_REDIRECT_URL'')"
  by (simp_all add: read_config_def Let_def)

text \<open>The process fails closed. Outside dev mode, which only the exact value \<^verbatim>\<open>true\<close> requests, a
  configuration loads exactly when the issuer, the client id and one of the encryption key variables
  are set; a loaded configuration has a redirect URL and no negative limit.\<close>

theorem Load_fail_closed:
  "case Load e of
     Inl _ \<Rightarrow> e ''DBM_DEV_MODE'' \<noteq> ''true'' \<and>
       (e ''OIDC_ISSUER'' = [] \<or> e ''OIDC_CLIENT_ID'' = [] \<or> e ''DBM_ENC_KEY'' = [] \<and> e ''DBM_ENC_KEYS'' = [])
   | Inr c \<Rightarrow> cfg_DevMode c = (e ''DBM_DEV_MODE'' = ''true'') \<and>
       (if cfg_DevMode c then True
        else cfg_OIDCIssuer c \<noteq> [] \<and> cfg_OIDCClientID c \<noteq> [] \<and> cfg_EncKey c @ cfg_EncKeys c \<noteq> []) \<and>
       cfg_OIDCRedirectURL c \<noteq> [] \<and> 0 \<le> cfg_AuditRetentionDays c \<and> 0 \<le> cfg_PGPoolMaxConns c"
proof -
  have "cfg_OIDCRedirectURL (read_config e) \<noteq> []" "0 \<le> cfg_AuditRetentionDays (read_config e)"
    "0 \<le> cfg_PGPoolMaxConns (read_config e)"
    by (simp_all add: read_config_simps intEnv_nonneg)
  then show ?thesis
    by (auto simp: Load_def Let_def read_config_simps)
qed

text \<open>A gap in the same guard. A \<^verbatim>\<open>DBM_ENC_KEYS\<close> of one blank passes \<^verbatim>\<open>Load\<close> outside dev mode, and
  the keyring built from that configuration is the single ephemeral key that \<^verbatim>\<open>Load\<close> means to refuse.\<close>

theorem blank_key_list_gives_ephemeral_key:
  "\<exists>e c. Load e = Inr c \<and> cfg_DevMode c = False \<and>
     (\<forall>raw. ParseKeyring (Inr raw) (cfg_EncKey c) (cfg_EncKeys c)
        = NewFromProvider (Inr (''1'', [\<lparr>ks_ID = ''1'', ks_Material = raw\<rparr>])))"
proof -
  let ?e = "\<lambda>k. if k = ''DBM_ENC_KEYS'' then '' ''
                 else if k = ''OIDC_ISSUER'' \<or> k = ''OIDC_CLIENT_ID'' then ''x'' else []"
  have "Load ?e = Inr (read_config ?e)"
    by (simp add: Load_def Let_def read_config_simps)
  moreover have "cfg_DevMode (read_config ?e) = False" by (simp add: read_config_simps)
  moreover have "ParseKeyring (Inr raw) (cfg_EncKey (read_config ?e)) (cfg_EncKeys (read_config ?e))
      = NewFromProvider (Inr (''1'', [\<lparr>ks_ID = ''1'', ks_Material = raw\<rparr>]))" for raw
    by (simp add: read_config_simps ParseKeyring_def New_box_def TrimSpace_def is_space_def)
  ultimately show ?thesis by blast
qed

end
