(* ===== verification/Sessions.thy ===== *)
theory Sessions
  imports Config
begin

text \<open>
  \<^verbatim>\<open>internal/auth/sessions.go\<close>: the interface \<^verbatim>\<open>sessionStore\<close> and its two implementations. The interface
  is a record of functions, its contract the locales \<open>session_store\<close> (what the safety of the callers rests
  on) and \<open>live_session_store\<close> (what keeps a session alive); the in-memory store and the Redis store
  interpret both. Time is an integer number of seconds, and every operation takes the time of its
  call. The Redis store keeps the wire form of a session under a prefixed key with an expiry of its
  own; three flags of its state say whether a \<^verbatim>\<open>Get\<close>, a \<^verbatim>\<open>Set\<close> and a \<^verbatim>\<open>Del\<close> reach the server, and the
  environment changes them between requests. A failing \<^verbatim>\<open>Get\<close> finds nothing, a failing \<^verbatim>\<open>Set\<close> or \<^verbatim>\<open>Del\<close> is
  ignored. The JSON text is not modelled.
\<close>

record user =
  u_Subject :: string
  u_Name :: string
  u_Email :: string
  u_Roles :: "string list"
  u_Groups :: "string list"
  u_Admin :: bool
  u_Write :: bool
  u_Read :: bool
  u_CSRF :: string

definition no_user :: user where
  "no_user = \<lparr>u_Subject = [], u_Name = [], u_Email = [], u_Roles = [], u_Groups = [],
     u_Admin = False, u_Write = False, u_Read = False, u_CSRF = []\<rparr>"

record session =
  ses_user :: user
  ses_expires :: int
  ses_csrf :: string
  ses_idToken :: string
  ses_oauthState :: string
  ses_nonce :: string
  ses_pkceVerifier :: string

record 'st sstore =
  ss_Get :: "int \<Rightarrow> 'st \<Rightarrow> string \<Rightarrow> session option"
  ss_Put :: "int \<Rightarrow> string \<Rightarrow> session \<Rightarrow> int \<Rightarrow> 'st \<Rightarrow> 'st"
  ss_Delete :: "string \<Rightarrow> 'st \<Rightarrow> 'st"

section \<open>The contract\<close>

text \<open>
  \<open>tick\<close> is a step of the store's surroundings (the reaper, the network). \<open>holds st k s\<close> says that the store
  has \<open>s\<close> under \<open>k\<close>, whether or not a read finds it now. Nothing but a put brings a session into the store.
  \<open>can_put\<close>, \<open>can_get\<close> and \<open>can_del\<close> say that a call takes effect.
\<close>

locale session_store =
  fixes S :: "'st sstore"
    and tick :: "'e \<Rightarrow> 'st \<Rightarrow> 'st"
    and holds :: "'st \<Rightarrow> string \<Rightarrow> session \<Rightarrow> bool"
    and can_del :: "'st \<Rightarrow> bool"
  assumes get_holds: "ss_Get S now st k = Some s \<Longrightarrow> holds st k s \<and> now \<le> ses_expires s"
    and holds_put: "holds (ss_Put S t k s ttl st) k' s' \<Longrightarrow> k' = k \<and> s' = s \<or> holds st k' s'"
    and holds_delete: "holds (ss_Delete S k st) k' s' \<Longrightarrow> holds st k' s'"
    and delete_holds: "can_del st \<Longrightarrow> \<not> holds (ss_Delete S k st) k s"
    and holds_env: "holds (tick e st) k s \<Longrightarrow> holds st k s"
begin

text \<open>An invariant of single entries survives every operation.\<close>

definition entries :: "(string \<Rightarrow> session \<Rightarrow> bool) \<Rightarrow> 'st \<Rightarrow> bool" where
  "entries P st \<longleftrightarrow> (\<forall>k s. holds st k s \<longrightarrow> P k s)"

lemma entries_put: "entries P st \<Longrightarrow> P k s \<Longrightarrow> entries P (ss_Put S t k s ttl st)"
  unfolding entries_def using holds_put by blast

lemma entries_delete: "entries P st \<Longrightarrow> entries P (ss_Delete S k st)"
  unfolding entries_def using holds_delete by blast

lemma entries_env: "entries P st \<Longrightarrow> entries P (tick e st)"
  unfolding entries_def using holds_env by blast

lemma entries_get: "entries P st \<Longrightarrow> ss_Get S now st k = Some s \<Longrightarrow> P k s"
  unfolding entries_def using get_holds by blast

text \<open>A key without a session answers nothing, and gets one only by a put of its own.\<close>

definition vacant :: "'st \<Rightarrow> string \<Rightarrow> bool" where
  "vacant st k \<longleftrightarrow> (\<forall>s. \<not> holds st k s)"

lemma vacant_get: "vacant st k \<Longrightarrow> ss_Get S now st k = None"
  unfolding vacant_def using get_holds by (metis option.exhaust)

lemma vacant_put: "vacant st k \<Longrightarrow> k' \<noteq> k \<Longrightarrow> vacant (ss_Put S t k' s ttl st) k"
  unfolding vacant_def using holds_put by blast

lemma vacant_delete: "vacant st k \<Longrightarrow> vacant (ss_Delete S k' st) k"
  unfolding vacant_def using holds_delete by blast

lemma vacant_env: "vacant st k \<Longrightarrow> vacant (tick e st) k"
  unfolding vacant_def using holds_env by blast

lemma deleted_vacant: "can_del st \<Longrightarrow> vacant (ss_Delete S k st) k"
  unfolding vacant_def using delete_holds by blast

end

text \<open>\<open>live st k s\<close>: a session put in time stays readable until it expires, unless its own key is written or
  deleted. \<open>early e u\<close> says of a step of the surroundings that it removes nothing that expires at \<open>u\<close>.\<close>

locale live_session_store = session_store S tick holds can_del
  for S :: "'st sstore" and tick :: "'e \<Rightarrow> 'st \<Rightarrow> 'st" and holds and can_del +
  fixes live :: "'st \<Rightarrow> string \<Rightarrow> session \<Rightarrow> bool"
    and can_put :: "'st \<Rightarrow> bool"
    and can_get :: "'st \<Rightarrow> bool"
    and early :: "'e \<Rightarrow> int \<Rightarrow> bool"
  assumes put_live: "can_put st \<Longrightarrow> ses_expires s = t + ttl \<Longrightarrow> live (ss_Put S t k s ttl st) k s"
    and live_get: "live st k s \<Longrightarrow> can_get st \<Longrightarrow> now < ses_expires s \<Longrightarrow> ss_Get S now st k = Some s"
    and live_put: "live st k s \<Longrightarrow> k' \<noteq> k \<Longrightarrow> live (ss_Put S t k' s' ttl st) k s"
    and live_delete: "live st k s \<Longrightarrow> k' \<noteq> k \<Longrightarrow> live (ss_Delete S k' st) k s"
    and live_env: "live st k s \<Longrightarrow> early e (ses_expires s) \<Longrightarrow> live (tick e st) k s"
    and can_put_delete: "can_put (ss_Delete S k st) = can_put st"

section \<open>The in-memory store\<close>

type_synonym mem_store = "string \<Rightarrow> session option"

definition newMemSessionStore :: mem_store where
  "newMemSessionStore = (\<lambda>_. None)"

definition mem_Get :: "int \<Rightarrow> mem_store \<Rightarrow> string \<Rightarrow> session option" where
  "mem_Get now m key =
     (case m key of
        None \<Rightarrow> None
      | Some sess \<Rightarrow> (if now > ses_expires sess then None else Some sess))"

definition mem_Put :: "int \<Rightarrow> string \<Rightarrow> session \<Rightarrow> int \<Rightarrow> mem_store \<Rightarrow> mem_store" where
  "mem_Put now key sess ttl m = m(key := Some sess)"

definition mem_Delete :: "string \<Rightarrow> mem_store \<Rightarrow> mem_store" where
  "mem_Delete key m = m(key := None)"

text \<open>One tick of \<^verbatim>\<open>reap\<close>.\<close>

definition mem_reap :: "int \<Rightarrow> mem_store \<Rightarrow> mem_store" where
  "mem_reap now m =
     (\<lambda>k. case m k of None \<Rightarrow> None | Some sess \<Rightarrow> (if now > ses_expires sess then None else Some sess))"

definition mem_api :: "mem_store sstore" where
  "mem_api = \<lparr>ss_Get = mem_Get, ss_Put = mem_Put, ss_Delete = mem_Delete\<rparr>"

definition mem_holds :: "mem_store \<Rightarrow> string \<Rightarrow> session \<Rightarrow> bool" where
  "mem_holds m k s \<longleftrightarrow> m k = Some s"

lemmas mem_defs = mem_api_def mem_Get_def mem_Put_def mem_Delete_def mem_reap_def mem_holds_def

interpretation mem: live_session_store mem_api mem_reap mem_holds "\<lambda>_. True" mem_holds "\<lambda>_. True" "\<lambda>_. True" "(\<le>)"
  by unfold_locales (auto simp: mem_defs split: option.splits if_splits)

text \<open>Reaping is invisible: a later read finds the same sessions.\<close>

lemma mem_reap_get: "now \<le> now' \<Longrightarrow> mem_Get now' (mem_reap now m) k = mem_Get now' m k"
  by (auto simp: mem_Get_def mem_reap_def split: option.splits)

section \<open>The Redis store\<close>

record session_wire =
  w_User :: user
  w_Expires :: int
  w_CSRF :: string
  w_IDToken :: string
  w_OAuthState :: string
  w_Nonce :: string
  w_PKCEVerifier :: string

text \<open>The keyspace (a value and the time at which the server drops it) and the state of the network.\<close>

record redis_store =
  rs_kv :: "string \<Rightarrow> (session_wire \<times> int) option"
  rs_get :: bool
  rs_set :: bool
  rs_del :: bool

definition redis_start :: redis_store where
  "redis_start = \<lparr>rs_kv = (\<lambda>_. None), rs_get = True, rs_set = True, rs_del = True\<rparr>"

definition sess_prefix :: string where "sess_prefix = ''dbm:sess:''"

definition to_wire :: "session \<Rightarrow> session_wire" where
  "to_wire s = \<lparr>w_User = ses_user s, w_Expires = ses_expires s, w_CSRF = ses_csrf s,
     w_IDToken = ses_idToken s, w_OAuthState = ses_oauthState s, w_Nonce = ses_nonce s,
     w_PKCEVerifier = ses_pkceVerifier s\<rparr>"

definition from_wire :: "session_wire \<Rightarrow> session" where
  "from_wire w = \<lparr>ses_user = w_User w, ses_expires = w_Expires w, ses_csrf = w_CSRF w,
     ses_idToken = w_IDToken w, ses_oauthState = w_OAuthState w, ses_nonce = w_Nonce w,
     ses_pkceVerifier = w_PKCEVerifier w\<rparr>"

definition redis_Get :: "int \<Rightarrow> redis_store \<Rightarrow> string \<Rightarrow> session option" where
  "redis_Get now r key =
     (if \<not> rs_get r then None
      else case rs_kv r (sess_prefix @ key) of
             None \<Rightarrow> None
           | Some (w, drop_at) \<Rightarrow>
               (if now \<ge> drop_at then None
                else if now > w_Expires w then None
                else Some (from_wire w)))"

definition redis_Put :: "int \<Rightarrow> string \<Rightarrow> session \<Rightarrow> int \<Rightarrow> redis_store \<Rightarrow> redis_store" where
  "redis_Put now key s ttl r =
     (if rs_set r then r\<lparr>rs_kv := (rs_kv r)(sess_prefix @ key := Some (to_wire s, now + ttl))\<rparr> else r)"

definition redis_Delete :: "string \<Rightarrow> redis_store \<Rightarrow> redis_store" where
  "redis_Delete key r = (if rs_del r then r\<lparr>rs_kv := (rs_kv r)(sess_prefix @ key := None)\<rparr> else r)"

text \<open>The network: whether the next calls of \<^verbatim>\<open>Get\<close>, \<^verbatim>\<open>Set\<close> and \<^verbatim>\<open>Del\<close> reach the server.\<close>

definition redis_net :: "bool \<times> bool \<times> bool \<Rightarrow> redis_store \<Rightarrow> redis_store" where
  "redis_net n r = (case n of (g, st, d) \<Rightarrow> r\<lparr>rs_get := g, rs_set := st, rs_del := d\<rparr>)"

definition redis_api :: "redis_store sstore" where
  "redis_api = \<lparr>ss_Get = redis_Get, ss_Put = redis_Put, ss_Delete = redis_Delete\<rparr>"

lemma from_to_wire [simp]: "from_wire (to_wire s) = s"
  by (simp add: from_wire_def to_wire_def)

lemma wire_expires [simp]: "ses_expires (from_wire w) = w_Expires w" "w_Expires (to_wire s) = ses_expires s"
  by (simp_all add: from_wire_def to_wire_def)

definition redis_holds :: "redis_store \<Rightarrow> string \<Rightarrow> session \<Rightarrow> bool" where
  "redis_holds r k s \<longleftrightarrow> (\<exists>w d. rs_kv r (sess_prefix @ k) = Some (w, d) \<and> s = from_wire w)"

definition redis_live :: "redis_store \<Rightarrow> string \<Rightarrow> session \<Rightarrow> bool" where
  "redis_live r k s \<longleftrightarrow> rs_kv r (sess_prefix @ k) = Some (to_wire s, ses_expires s)"

lemmas redis_defs = redis_api_def redis_Get_def redis_Put_def redis_Delete_def redis_net_def redis_holds_def redis_live_def

interpretation redis: live_session_store redis_api redis_net redis_holds rs_del redis_live rs_set rs_get "\<lambda>_ _. True"
  by unfold_locales (auto simp: redis_defs split: option.splits if_splits prod.splits)

section \<open>Both stores implement one map with expiry\<close>

text \<open>
  The abstract store remembers the last session put under a key and what reaches it: a read, a put or
  a deletion that does not reach it has no effect. A history is a list of the operations of the
  interface, of ticks of the reaper, which only the in-memory store has, and of changes of the network,
  which only the Redis store sees; \<open>well_timed\<close> is what every caller in \<^verbatim>\<open>auth.go\<close> does: the expiry of the
  session is the time of the call plus the TTL.
\<close>

datatype store_op = OpPut int string session int | OpDelete string | OpReap int | OpNet "bool \<times> bool \<times> bool"

primrec well_timed :: "store_op \<Rightarrow> bool" where
  "well_timed (OpPut t k s ttl) = (ses_expires s = t + ttl)"
| "well_timed (OpDelete k) = True"
| "well_timed (OpReap t) = True"
| "well_timed (OpNet n) = True"

primrec reaped_by :: "int \<Rightarrow> store_op \<Rightarrow> bool" where
  "reaped_by now (OpPut t k s ttl) = True"
| "reaped_by now (OpDelete k) = True"
| "reaped_by now (OpReap t) = (t \<le> now)"
| "reaped_by now (OpNet n) = True"

record spec_store =
  sp_map :: "string \<Rightarrow> session option"
  sp_get :: bool
  sp_set :: bool
  sp_del :: bool

definition spec_start :: spec_store where
  "spec_start = \<lparr>sp_map = (\<lambda>_. None), sp_get = True, sp_set = True, sp_del = True\<rparr>"

primrec spec_op :: "spec_store \<Rightarrow> store_op \<Rightarrow> spec_store" where
  "spec_op m (OpPut t k s ttl) = (if sp_set m then m\<lparr>sp_map := (sp_map m)(k := Some s)\<rparr> else m)"
| "spec_op m (OpDelete k) = (if sp_del m then m\<lparr>sp_map := (sp_map m)(k := None)\<rparr> else m)"
| "spec_op m (OpReap t) = m"
| "spec_op m (OpNet n) = (case n of (g, st, d) \<Rightarrow> m\<lparr>sp_get := g, sp_set := st, sp_del := d\<rparr>)"

text \<open>What a read sees: the session, if the store is reached and the session has not run out.\<close>

definition spec_read :: "(int \<Rightarrow> bool) \<Rightarrow> spec_store \<Rightarrow> string \<Rightarrow> session option" where
  "spec_read alive m k =
     (if \<not> sp_get m then None
      else case sp_map m k of Some s \<Rightarrow> (if alive (ses_expires s) then Some s else None) | None \<Rightarrow> None)"

primrec local_op :: "store_op \<Rightarrow> bool" where
  "local_op (OpPut t k s ttl) = True"
| "local_op (OpDelete k) = True"
| "local_op (OpReap t) = True"
| "local_op (OpNet n) = False"

primrec mem_op :: "mem_store \<Rightarrow> store_op \<Rightarrow> mem_store" where
  "mem_op m (OpPut t k s ttl) = mem_Put t k s ttl m"
| "mem_op m (OpDelete k) = mem_Delete k m"
| "mem_op m (OpReap t) = mem_reap t m"
| "mem_op m (OpNet n) = m"

primrec redis_op :: "redis_store \<Rightarrow> store_op \<Rightarrow> redis_store" where
  "redis_op r (OpPut t k s ttl) = redis_Put t k s ttl r"
| "redis_op r (OpDelete k) = redis_Delete k r"
| "redis_op r (OpReap t) = r"
| "redis_op r (OpNet n) = redis_net n r"

text \<open>The two simulations: what each store holds for a key, given what the abstract store holds.\<close>

definition mem_sim :: "int \<Rightarrow> spec_store \<Rightarrow> mem_store \<Rightarrow> bool" where
  "mem_sim now a m \<longleftrightarrow>
     sp_get a \<and> sp_set a \<and> sp_del a \<and>
     (\<forall>k. m k = sp_map a k \<or> m k = None \<and> (\<exists>s. sp_map a k = Some s \<and> ses_expires s < now))"

definition redis_sim :: "spec_store \<Rightarrow> redis_store \<Rightarrow> bool" where
  "redis_sim a r \<longleftrightarrow>
     rs_get r = sp_get a \<and> rs_set r = sp_set a \<and> rs_del r = sp_del a \<and>
     (\<forall>k. rs_kv r (sess_prefix @ k) = map_option (\<lambda>s. (to_wire s, ses_expires s)) (sp_map a k))"

lemma mem_sim_op:
  assumes sim: "mem_sim now a m" and "reaped_by now x"
  shows "mem_sim now (if local_op x then spec_op a x else a) (mem_op m x)"
proof (cases x)
  case (OpReap t)
  with assms(2) have "t \<le> now" by simp
  then have "mem_reap t m k = sp_map a k \<or> mem_reap t m k = None \<and> (\<exists>s. sp_map a k = Some s \<and> ses_expires s < now)" for k
    using conjunct2 [OF conjunct2 [OF conjunct2 [OF sim [unfolded mem_sim_def]]], rule_format, of k]
    by (cases "sp_map a k") (auto simp: mem_reap_def split: if_splits)
  then show ?thesis using sim by (simp add: OpReap mem_sim_def)
qed (use sim in \<open>auto simp: mem_sim_def mem_Put_def mem_Delete_def\<close>)

lemma redis_sim_op:
  "redis_sim a r \<Longrightarrow> well_timed x \<Longrightarrow> redis_sim (spec_op a x) (redis_op r x)"
  by (cases x) (auto simp: redis_sim_def redis_Put_def redis_Delete_def redis_net_def split: prod.splits)

lemma mem_sim_run:
  "mem_sim now a m \<Longrightarrow> list_all (reaped_by now) ops \<Longrightarrow>
   mem_sim now (foldl spec_op a (filter local_op ops)) (foldl mem_op m ops)"
proof (induction ops arbitrary: a m)
  case (Cons x ops)
  then show ?case using mem_sim_op [of now a m x] by (cases "local_op x") simp_all
qed simp

lemma redis_sim_run:
  "redis_sim a r \<Longrightarrow> list_all well_timed ops \<Longrightarrow> redis_sim (foldl spec_op a ops) (foldl redis_op r ops)"
  by (induction ops arbitrary: a r) (auto intro: redis_sim_op)

lemma mem_sim_get: "mem_sim now a m \<Longrightarrow> mem_Get now m k = spec_read (\<lambda>t. now \<le> t) a k"
  by (auto simp: mem_sim_def mem_Get_def spec_read_def split: option.split dest: spec [of _ k])

lemma redis_sim_get: "redis_sim a r \<Longrightarrow> redis_Get now r k = spec_read (\<lambda>t. now < t) a k"
  by (auto simp: redis_sim_def redis_Get_def spec_read_def split: option.split)

text \<open>
  C19: the in-memory and the Redis session store implement one map with expiry. Take any history of puts
  whose expiry is the time of the call plus the TTL (as every caller passes it), of deletes, reaper ticks
  and outages of the Redis server, from empty stores. A read of the in-memory store at a time not before
  the last tick answers the session last put under the key, unless it was deleted or has expired. A read
  of the Redis store does the same for the puts and deletes that reached the server, those made in an
  outage being lost without an error, and answers nothing while reads do not reach the server. The
  stores differ otherwise only at the very instant of the expiry, when the in-memory store still answers.
\<close>

theorem session_stores_refine_map:
  assumes "list_all well_timed ops" and "list_all (reaped_by now) ops"
  shows "mem_Get now (foldl mem_op newMemSessionStore ops) k
      = spec_read (\<lambda>t. now \<le> t) (foldl spec_op spec_start (filter local_op ops)) k
    \<and> redis_Get now (foldl redis_op redis_start ops) k
      = spec_read (\<lambda>t. now < t) (foldl spec_op spec_start ops) k"
proof -
  have "mem_sim now spec_start newMemSessionStore" by (simp add: mem_sim_def newMemSessionStore_def spec_start_def)
  moreover have "redis_sim spec_start redis_start" by (simp add: redis_sim_def spec_start_def redis_start_def)
  ultimately show ?thesis
    using mem_sim_get [OF mem_sim_run] redis_sim_get [OF redis_sim_run] assms by blast
qed

definition demo_session :: session where
  "demo_session = \<lparr>ses_user = no_user, ses_expires = 20, ses_csrf = ''c'', ses_idToken = [],
     ses_oauthState = [], ses_nonce = [], ses_pkceVerifier = []\<rparr>"

text \<open>A deletion during an outage is lost: the Redis store still answers the session.\<close>

definition demo_history :: "store_op list" where
  "demo_history = [OpPut 5 ''k'' demo_session 15, OpReap 10, OpNet (True, True, False), OpDelete ''k'']"

theorem session_stores_refine_map_witness:
  "mem_Get 15 (foldl mem_op newMemSessionStore demo_history) ''k'' = None
   \<and> redis_Get 15 (foldl redis_op redis_start demo_history) ''k'' = Some demo_session"
  using session_stores_refine_map [of demo_history 15 "''k''"]
  by (simp add: demo_history_def demo_session_def spec_read_def spec_start_def)

section \<open>Choosing the backend\<close>

datatype backend = Memory | Redis

text \<open>\<^verbatim>\<open>newSessionStore\<close>: the arguments are the results of \<^verbatim>\<open>redis.ParseURL\<close> and of the ping.\<close>

definition newSessionStore :: "config \<Rightarrow> (string \<Rightarrow> go_error option) \<Rightarrow> go_error option \<Rightarrow> backend result" where
  "newSessionStore cfg parse_url ping =
     (if cfg_SessionBackend cfg = [] \<or> cfg_SessionBackend cfg = ''memory'' then Inr Memory
      else if cfg_SessionBackend cfg = ''redis'' then
        (case parse_url (cfg_SessionRedisURL cfg) of
           Some e \<Rightarrow> Inl e
         | None \<Rightarrow> (case ping of Some e \<Rightarrow> Inl e | None \<Rightarrow> Inr Redis))
      else Inl (''DBM_SESSION_BACKEND must be '' @ [SQ] @ ''memory'' @ [SQ] @ '' or '' @ [SQ] @ ''redis'' @ [SQ]
                @ '', got '' @ cfg_SessionBackend cfg))"

end
