(* ===== verification/Auth.thy ===== *)
theory Auth
  imports Sessions
begin

text \<open>
  \<^verbatim>\<open>internal/auth/auth.go\<close>: OIDC login with server-side state, nonce and PKCE verifier, the session
  middleware, logout, capabilities and CSRF. The session store is an argument of every operation (the
  record of its functions and its state); the identity provider is the record \<open>idp\<close> of its answers.
  Random bytes are arguments, \<^const>\<open>None\<close> for a failing source, on which \<^verbatim>\<open>token\<close> panics.
  An operation returns its response, the cookies it sets and the new state.

  \<open>auth_do\<close> is one event of the authenticator: a request, or a step of the surroundings of the session store
  (the reaper, the network to Redis). \<open>auth_after\<close> runs a sequence of events and \<open>auth_reach\<close> is the set of
  states that sequences of events reach, in any order and at any times.
\<close>

section \<open>Requests and responses\<close>

record auth_req =
  rq_cookie :: "string \<Rightarrow> string option"
  rq_query :: "string \<Rightarrow> string"
  rq_header :: "string \<Rightarrow> string"
  rq_form :: "string \<Rightarrow> string"

datatype auth_resp =
    Redirect string
  | Forbidden string
  | Http_error nat string
  | Next user
  | Panicked

text \<open>A cookie with the attributes that \<^verbatim>\<open>http.SetCookie\<close> sends; a negative \<^verbatim>\<open>MaxAge\<close> deletes it.\<close>

record cookie =
  ck_Name :: string
  ck_Value :: string
  ck_Path :: string
  ck_HttpOnly :: bool
  ck_Secure :: bool
  ck_SameSiteLax :: bool
  ck_MaxAge :: int

type_synonym cookies = "cookie list"

record claims =
  cl_Sub :: string
  cl_Name :: string
  cl_Email :: string
  cl_Groups :: "string list"
  cl_Roles :: "string list"

record id_token =
  id_Nonce :: string
  id_Claims :: "claims option"

record oauth_token =
  ot_IDToken :: "string option"
  ot_AccessToken :: string

text \<open>
  The provider: the code exchange, the verifiers of the ID token and of the access token (with the
  groups and roles of the latter, \<^const>\<open>None\<close> if its claims do not parse), the login URL and the
  end-session endpoint of the discovery document (empty if it has none).
\<close>

record idp =
  idp_Exchange :: "string \<Rightarrow> string \<Rightarrow> oauth_token option"
  idp_Verify :: "string \<Rightarrow> id_token option"
  idp_VerifyAT :: "string \<Rightarrow> (string list \<times> string list) option option"
  idp_AuthCodeURL :: "string \<Rightarrow> string \<Rightarrow> string \<Rightarrow> string"
  idp_endSession :: string

record 'st auth_state =
  au_sessions :: 'st
  au_audit :: "(string \<times> string \<times> bool) list"

section \<open>Helpers\<close>

definition cookieName :: string where "cookieName = ''dbm_session''"
definition sessionTTL :: int where "sessionTTL = 12 * 3600"

definition secure_cookie :: "config \<Rightarrow> bool" where
  "secure_cookie cfg \<longleftrightarrow> take 5 (cfg_BaseURL cfg) = ''https''"

definition setCookie :: "string \<Rightarrow> config \<Rightarrow> cookie" where
  "setCookie tok cfg =
     \<lparr>ck_Name = cookieName, ck_Value = tok, ck_Path = ''/'', ck_HttpOnly = True, ck_Secure = secure_cookie cfg,
      ck_SameSiteLax = True, ck_MaxAge = sessionTTL\<rparr>"

definition state_cookie :: "string \<Rightarrow> config \<Rightarrow> cookie" where
  "state_cookie state cfg =
     \<lparr>ck_Name = ''dbm_state'', ck_Value = state, ck_Path = ''/'', ck_HttpOnly = True, ck_Secure = secure_cookie cfg,
      ck_SameSiteLax = True, ck_MaxAge = 600\<rparr>"

definition deleted_cookie :: "string \<Rightarrow> cookie" where
  "deleted_cookie name =
     \<lparr>ck_Name = name, ck_Value = [], ck_Path = ''/'', ck_HttpOnly = False, ck_Secure = False, ck_SameSiteLax = False,
      ck_MaxAge = -1\<rparr>"

fun merge_into :: "string list \<Rightarrow> string list \<Rightarrow> string list" where
  "merge_into out [] = out"
| "merge_into out (r # l) = merge_into (if r = [] \<or> r \<in> set out then out else out @ [r]) l"

definition mergeRoles :: "string list list \<Rightarrow> string list" where
  "mergeRoles ls = foldl merge_into [] ls"

definition Subjects :: "user \<Rightarrow> string list" where
  "Subjects u = mergeRoles [u_Roles u, u_Groups u]"

definition apply_role :: "config \<Rightarrow> user \<Rightarrow> string \<Rightarrow> user" where
  "apply_role cfg u role =
     (if role = cfg_OIDCAdminRole cfg then u\<lparr>u_Admin := True, u_Write := True, u_Read := True\<rparr>
      else if role = cfg_OIDCWriteRole cfg then u\<lparr>u_Write := True, u_Read := True\<rparr>
      else if role = cfg_OIDCReadRole cfg then u\<lparr>u_Read := True\<rparr>
      else u)"

definition applyCaps :: "config \<Rightarrow> user \<Rightarrow> user" where
  "applyCaps cfg u =
     (let u' = foldl (apply_role cfg) u (u_Roles u)
      in if cfg_OpenRead cfg then u'\<lparr>u_Read := True\<rparr> else u')"

definition hex_encode :: "string \<Rightarrow> string" where
  "hex_encode s = concat (map (\<lambda>c. [hex_digit (code c div 16), hex_digit (code c mod 16)]) s)"

text \<open>\<^verbatim>\<open>token\<close>: the hex form of 24 random bytes.\<close>

definition auth_token :: "string option \<Rightarrow> string option" where
  "auth_token rnd = map_option (\<lambda>b. hex_encode (take 24 (b @ replicate 24 (CHR 0x00)))) rnd"

definition put_session ::
    "'st sstore \<Rightarrow> int \<Rightarrow> string \<Rightarrow> string \<Rightarrow> user \<Rightarrow> string \<Rightarrow> 'st \<Rightarrow> 'st" where
  "put_session S now tok csrf u idToken st =
     ss_Put S now tok
       \<lparr>ses_user = u, ses_expires = now + sessionTTL, ses_csrf = csrf, ses_idToken = idToken,
        ses_oauthState = [], ses_nonce = [], ses_pkceVerifier = []\<rparr> sessionTTL st"

definition csrfFor :: "'st sstore \<Rightarrow> int \<Rightarrow> 'st \<Rightarrow> string \<Rightarrow> string" where
  "csrfFor S now st sessionKey =
     (case ss_Get S now st sessionKey of Some s \<Rightarrow> ses_csrf s | None \<Rightarrow> [])"

definition current :: "'st sstore \<Rightarrow> int \<Rightarrow> 'st \<Rightarrow> auth_req \<Rightarrow> user option" where
  "current S now st r =
     (case rq_cookie r cookieName of
        None \<Rightarrow> None
      | Some c \<Rightarrow>
          (case ss_Get S now st c of
             None \<Rightarrow> None
           | Some s \<Rightarrow> Some ((ses_user s)\<lparr>u_CSRF := ses_csrf s\<rparr>)))"

definition CheckCSRF :: "'st sstore \<Rightarrow> int \<Rightarrow> 'st \<Rightarrow> auth_req \<Rightarrow> bool" where
  "CheckCSRF S now st r =
     (case rq_cookie r cookieName of
        None \<Rightarrow> False
      | Some c \<Rightarrow>
          (let want = csrfFor S now st c in
           if want = [] then False
           else let got = (if rq_header r ''X-CSRF-Token'' = [] then rq_form r ''csrf''
                           else rq_header r ''X-CSRF-Token'')
                in got \<noteq> [] \<and> got = want))"

definition dev_user :: user where
  "dev_user = \<lparr>u_Subject = ''dev'', u_Name = ''Dev Admin'', u_Email = ''dev@localhost'', u_Roles = [''dev''],
     u_Groups = [], u_Admin = True, u_Write = True, u_Read = True, u_CSRF = []\<rparr>"

definition forbidden_text :: "config \<Rightarrow> string" where
  "forbidden_text cfg =
     ''Access denied: your account has no verix-dbm role.'' @ [NL] @ ''Ask an administrator to grant you the ''
     @ cfg_OIDCReadRole cfg @ '', '' @ cfg_OIDCWriteRole cfg @ '', or '' @ cfg_OIDCAdminRole cfg @ '' realm role.''"

section \<open>Handlers\<close>

definition Middleware ::
    "'st sstore \<Rightarrow> config \<Rightarrow> int \<Rightarrow> string option \<Rightarrow> string option \<Rightarrow> auth_req \<Rightarrow> 'st auth_state
     \<Rightarrow> auth_resp \<times> cookies \<times> 'st auth_state" where
  "Middleware S cfg now rnd1 rnd2 r a =
     (case current S now (au_sessions a) r of
        Some u \<Rightarrow> (if \<not> u_Read u then (Forbidden (forbidden_text cfg), [], a) else (Next u, [], a))
      | None \<Rightarrow>
          (if cfg_DevMode cfg then
             (case auth_token rnd1 of
                None \<Rightarrow> (Panicked, [], a)
              | Some tok \<Rightarrow>
                  (case auth_token rnd2 of
                     None \<Rightarrow> (Panicked, [], a)
                   | Some csrf \<Rightarrow>
                       (let st = put_session S now tok csrf dev_user [] (au_sessions a)
                        in (Next (dev_user\<lparr>u_CSRF := csrfFor S now st tok\<rparr>), [setCookie tok cfg],
                            a\<lparr>au_sessions := st\<rparr>))))
           else (Redirect ''/auth/login'', [], a)))"

definition Login ::
    "'st sstore \<Rightarrow> config \<Rightarrow> idp \<Rightarrow> int \<Rightarrow> string option \<Rightarrow> string option \<Rightarrow> string \<Rightarrow> 'st auth_state
     \<Rightarrow> auth_resp \<times> cookies \<times> 'st auth_state" where
  "Login S cfg p now rnd1 rnd2 verifier a =
     (if cfg_DevMode cfg then (Redirect ''/'', [], a)
      else case auth_token rnd1 of
             None \<Rightarrow> (Panicked, [], a)
           | Some state \<Rightarrow>
               (case auth_token rnd2 of
                  None \<Rightarrow> (Panicked, [], a)
                | Some nonce \<Rightarrow>
                    (Redirect (idp_AuthCodeURL p state nonce verifier), [state_cookie state cfg],
                     a\<lparr>au_sessions := ss_Put S now (''state:'' @ state)
                         \<lparr>ses_user = no_user, ses_expires = now + 600, ses_csrf = [], ses_idToken = [],
                          ses_oauthState = state, ses_nonce = nonce, ses_pkceVerifier = verifier\<rparr>
                         600 (au_sessions a)\<rparr>)))"

definition audit_event :: "string \<Rightarrow> string \<Rightarrow> bool \<Rightarrow> 'st auth_state \<Rightarrow> 'st auth_state" where
  "audit_event action detail success a = a\<lparr>au_audit := au_audit a @ [(action, detail, success)]\<rparr>"

definition login_failed :: "string \<Rightarrow> nat \<Rightarrow> string \<Rightarrow> cookies \<Rightarrow> 'st auth_state \<Rightarrow> auth_resp \<times> cookies \<times> 'st auth_state" where
  "login_failed detail status msg ck a =
     (Http_error status msg, ck, audit_event ''auth_login_failed'' detail False a)"

text \<open>The user of verified tokens: roles and groups of the ID token and of a verified access token.\<close>

definition token_user :: "idp \<Rightarrow> config \<Rightarrow> claims \<Rightarrow> string \<Rightarrow> user" where
  "token_user p cfg cl access =
     (let (roles, groups) =
        (case idp_VerifyAT p access of
           Some (Some (at_groups, at_roles)) \<Rightarrow>
             (mergeRoles [cl_Roles cl, at_roles], mergeRoles [cl_Groups cl, at_groups])
         | _ \<Rightarrow> (cl_Roles cl, cl_Groups cl))
      in applyCaps cfg (no_user\<lparr>u_Subject := cl_Sub cl, u_Name := cl_Name cl, u_Email := cl_Email cl,
           u_Roles := roles, u_Groups := groups\<rparr>))"

definition Callback ::
    "'st sstore \<Rightarrow> config \<Rightarrow> idp \<Rightarrow> int \<Rightarrow> string option \<Rightarrow> string option \<Rightarrow> auth_req \<Rightarrow> 'st auth_state
     \<Rightarrow> auth_resp \<times> cookies \<times> 'st auth_state" where
  "Callback S cfg p now rnd1 rnd2 r a =
     (let qState = rq_query r ''state'' in
      if qState = [] \<or> rq_cookie r ''dbm_state'' \<noteq> Some qState
      then login_failed ''invalid state'' 400 ''invalid state'' [] a
      else case ss_Get S now (au_sessions a) (''state:'' @ qState) of
        None \<Rightarrow> login_failed ''unknown or expired state'' 400 ''invalid state'' [] a
      | Some st \<Rightarrow>
        (if ses_oauthState st \<noteq> qState
         then login_failed ''unknown or expired state'' 400 ''invalid state'' [] a
         else
           let a = a\<lparr>au_sessions := ss_Delete S (''state:'' @ qState) (au_sessions a)\<rparr>;
               ck = [deleted_cookie ''dbm_state''] in
           (case idp_Exchange p (rq_query r ''code'') (ses_pkceVerifier st) of
              None \<Rightarrow> login_failed ''token exchange failed'' 502 ''token exchange failed'' ck a
            | Some tok \<Rightarrow>
              (case ot_IDToken tok of
                 None \<Rightarrow> login_failed ''no id_token'' 502 ''no id_token'' ck a
               | Some rawID \<Rightarrow>
                 (case idp_Verify p rawID of
                    None \<Rightarrow> login_failed ''id_token verify failed'' 401 ''id_token verify failed'' ck a
                  | Some idToken \<Rightarrow>
                    (if id_Nonce idToken \<noteq> ses_nonce st
                     then login_failed ''nonce mismatch'' 401 ''invalid nonce'' ck a
                     else case id_Claims idToken of
                       None \<Rightarrow> login_failed ''claims parse failed'' 502 ''claims parse failed'' ck a
                     | Some cl \<Rightarrow>
                       (let u = token_user p cfg cl (ot_AccessToken tok);
                            a = audit_event ''auth_login'' (u_Email u) True a in
                        (case auth_token rnd1 of
                           None \<Rightarrow> (Panicked, ck, a)
                         | Some sid \<Rightarrow>
                           (case auth_token rnd2 of
                              None \<Rightarrow> (Panicked, ck, a)
                            | Some csrf \<Rightarrow>
                              (Redirect ''/'', ck @ [setCookie sid cfg],
                               a\<lparr>au_sessions := put_session S now sid csrf u rawID (au_sessions a)\<rparr>))))))))))"

definition QueryEscape :: "string \<Rightarrow> string" where
  "QueryEscape s =
     concat (map (\<lambda>c. if is_lower c \<or> is_upper c \<or> is_digit c \<or> c \<in> set ''-_.~'' then [c]
                      else if c = CHR '' '' then ''+''
                      else CHR ''%'' # ToUpper [hex_digit (code c div 16), hex_digit (code c mod 16)]) s)"

definition Logout ::
    "'st sstore \<Rightarrow> config \<Rightarrow> idp \<Rightarrow> int \<Rightarrow> auth_req \<Rightarrow> 'st auth_state \<Rightarrow> auth_resp \<times> cookies \<times> 'st auth_state" where
  "Logout S cfg p now r a =
     (if \<not> CheckCSRF S now (au_sessions a) r then (Http_error 403 ''bad csrf'', [], a)
      else
        (let (idHint, st) =
           (case rq_cookie r cookieName of
              None \<Rightarrow> ([], au_sessions a)
            | Some c \<Rightarrow>
                ((case ss_Get S now (au_sessions a) c of Some s \<Rightarrow> ses_idToken s | None \<Rightarrow> []),
                 ss_Delete S c (au_sessions a)));
             a = a\<lparr>au_sessions := st\<rparr>;
             ck = [deleted_cookie cookieName]
         in if cfg_DevMode cfg \<or> idp_endSession p = [] then (Redirect ''/'', ck, a)
            else (Redirect (idp_endSession p @ ''?client_id='' @ QueryEscape (cfg_OIDCClientID cfg)
                    @ (if idHint \<noteq> [] then ''&id_token_hint='' @ QueryEscape idHint else [])
                    @ ''&post_logout_redirect_uri='' @ QueryEscape (cfg_BaseURL cfg)), ck, a)))"

section \<open>Reachable states\<close>

datatype 'e auth_event =
    EvMiddleware int "string option" "string option" auth_req
  | EvLogin int "string option" "string option" string
  | EvCallback int "string option" "string option" auth_req
  | EvLogout int auth_req
  | EvEnv 'e

fun auth_do :: "'st sstore \<Rightarrow> ('e \<Rightarrow> 'st \<Rightarrow> 'st) \<Rightarrow> config \<Rightarrow> idp \<Rightarrow> 'st auth_state \<Rightarrow> 'e auth_event \<Rightarrow> 'st auth_state" where
  "auth_do S tick cfg p a (EvMiddleware now rnd1 rnd2 r) = snd (snd (Middleware S cfg now rnd1 rnd2 r a))"
| "auth_do S tick cfg p a (EvLogin now rnd1 rnd2 verifier) = snd (snd (Login S cfg p now rnd1 rnd2 verifier a))"
| "auth_do S tick cfg p a (EvCallback now rnd1 rnd2 r) = snd (snd (Callback S cfg p now rnd1 rnd2 r a))"
| "auth_do S tick cfg p a (EvLogout now r) = snd (snd (Logout S cfg p now r a))"
| "auth_do S tick cfg p a (EvEnv e) = a\<lparr>au_sessions := tick e (au_sessions a)\<rparr>"

definition auth_after ::
    "'st sstore \<Rightarrow> ('e \<Rightarrow> 'st \<Rightarrow> 'st) \<Rightarrow> config \<Rightarrow> idp \<Rightarrow> 'e auth_event list \<Rightarrow> 'st auth_state \<Rightarrow> 'st auth_state" where
  "auth_after S tick cfg p evs a = foldl (auth_do S tick cfg p) a evs"

inductive auth_reach :: "'st sstore \<Rightarrow> ('e \<Rightarrow> 'st \<Rightarrow> 'st) \<Rightarrow> 'st \<Rightarrow> config \<Rightarrow> idp \<Rightarrow> 'st auth_state \<Rightarrow> bool"
  for S :: "'st sstore" and tick :: "'e \<Rightarrow> 'st \<Rightarrow> 'st" and st0 :: 'st and cfg :: config and p :: idp where
  start: "auth_reach S tick st0 cfg p \<lparr>au_sessions = st0, au_audit = []\<rparr>"
| event: "auth_reach S tick st0 cfg p a \<Longrightarrow> auth_reach S tick st0 cfg p (auth_do S tick cfg p a ev)"

text \<open>The key that an event writes if it writes at all, and the key that it may delete.\<close>

fun drawn_key :: "'e auth_event \<Rightarrow> string option" where
  "drawn_key (EvMiddleware now rnd1 rnd2 r) = auth_token rnd1"
| "drawn_key (EvLogin now rnd1 rnd2 verifier) = map_option (\<lambda>t. ''state:'' @ t) (auth_token rnd1)"
| "drawn_key (EvCallback now rnd1 rnd2 r) = auth_token rnd1"
| "drawn_key _ = None"

fun dropped_key :: "'e auth_event \<Rightarrow> string option" where
  "dropped_key (EvCallback now rnd1 rnd2 r) = Some (''state:'' @ rq_query r ''state'')"
| "dropped_key (EvLogout now r) = rq_cookie r cookieName"
| "dropped_key _ = None"

text \<open>An event that leaves a session under key \<open>k\<close> alone: it neither draws nor deletes the key, and a step of
  the surroundings removes nothing that lives \<open>until\<close> then.\<close>

definition spares :: "('e \<Rightarrow> int \<Rightarrow> bool) \<Rightarrow> string \<Rightarrow> int \<Rightarrow> 'e auth_event \<Rightarrow> bool" where
  "spares early k until ev \<longleftrightarrow>
     drawn_key ev \<noteq> Some k \<and> dropped_key ev \<noteq> Some k \<and> (case ev of EvEnv e \<Rightarrow> early e until | _ \<Rightarrow> True)"

section \<open>Cookies\<close>

text \<open>
  No handler sets a cookie with a value that a script or another site's request could read or send in the
  clear: it is \<^verbatim>\<open>HttpOnly\<close>, \<^verbatim>\<open>SameSite=Lax\<close>, \<^verbatim>\<open>Secure\<close> whenever the application is served over https, and lives at most as
  long as a session. The other cookies are deletions.
\<close>

definition protected_cookie :: "config \<Rightarrow> cookie \<Rightarrow> bool" where
  "protected_cookie cfg ck \<longleftrightarrow>
     ck_Value ck = [] \<and> ck_MaxAge ck < 0
     \<or> ck_HttpOnly ck \<and> ck_SameSiteLax ck \<and> (secure_cookie cfg \<longrightarrow> ck_Secure ck) \<and> 0 < ck_MaxAge ck \<and> ck_MaxAge ck \<le> sessionTTL"

lemma cookie_shapes [simp]:
  "protected_cookie cfg (setCookie tok cfg)" "protected_cookie cfg (state_cookie tok cfg)" "protected_cookie cfg (deleted_cookie name)"
  by (simp_all add: protected_cookie_def setCookie_def state_cookie_def deleted_cookie_def sessionTTL_def)

lemma cookies_are_protected:
  "list_all (protected_cookie cfg) (fst (snd (Middleware S cfg now rnd1 rnd2 r a)))"
  "list_all (protected_cookie cfg) (fst (snd (Login S cfg p now rnd1 rnd2 verifier a)))"
  "list_all (protected_cookie cfg) (fst (snd (Callback S cfg p now rnd1 rnd2 r a)))"
  "list_all (protected_cookie cfg) (fst (snd (Logout S cfg p now r a)))"
  by (simp_all add: Middleware_def Login_def Callback_def Logout_def login_failed_def Let_def split: option.split prod.split)

section \<open>Roles and capabilities\<close>

lemma merge_into_invariant:
  "distinct out \<Longrightarrow> [] \<notin> set out \<Longrightarrow>
     distinct (merge_into out l) \<and> set (merge_into out l) = set out \<union> (set l - {[]}) \<and> prefix out (merge_into out l)"
proof (induction l arbitrary: out)
  case Nil
  then show ?case by simp
next
  case (Cons r l)
  let ?out = "if r = [] \<or> r \<in> set out then out else out @ [r]"
  have "distinct ?out" "[] \<notin> set ?out" "prefix out ?out" "set ?out = set out \<union> ({r} - {[]})"
    using Cons.prems by auto
  with Cons.IH [of ?out] show ?case by (auto intro: prefix_order.trans)
qed

lemma foldl_merge_invariant:
  "distinct out \<Longrightarrow> [] \<notin> set out \<Longrightarrow>
     distinct (foldl merge_into out ls) \<and> set (foldl merge_into out ls) = set out \<union> (\<Union> (set ` set ls) - {[]})"
proof (induction ls arbitrary: out)
  case Nil
  then show ?case by simp
next
  case (Cons l ls)
  have m: "distinct (merge_into out l)" "set (merge_into out l) = set out \<union> (set l - {[]})"
    using merge_into_invariant [OF Cons.prems, of l] by auto
  moreover have "[] \<notin> set (merge_into out l)" using m Cons.prems by simp
  ultimately show ?case using Cons.IH [of "merge_into out l"] by auto
qed

lemma mergeRoles_set: "distinct (mergeRoles ls)" "set (mergeRoles ls) = \<Union> (set ` set ls) - {[]}"
  using foldl_merge_invariant [of "[]" ls] by (simp_all add: mergeRoles_def)

lemma apply_role_fixed:
  "u_Roles (apply_role cfg u role) = u_Roles u" "u_CSRF (apply_role cfg u role) = u_CSRF u"
  by (simp_all add: apply_role_def)

lemma foldl_apply_role:
  "u_Roles (foldl (apply_role cfg) u roles) = u_Roles u \<and>
   u_Admin (foldl (apply_role cfg) u roles) = (u_Admin u \<or> cfg_OIDCAdminRole cfg \<in> set roles) \<and>
   u_Write (foldl (apply_role cfg) u roles)
     = (u_Write u \<or> cfg_OIDCAdminRole cfg \<in> set roles \<or> cfg_OIDCWriteRole cfg \<in> set roles) \<and>
   u_Read (foldl (apply_role cfg) u roles)
     = (u_Read u \<or> cfg_OIDCAdminRole cfg \<in> set roles \<or> cfg_OIDCWriteRole cfg \<in> set roles
        \<or> cfg_OIDCReadRole cfg \<in> set roles)"
proof (induction roles arbitrary: u)
  case Nil
  then show ?case by simp
next
  case (Cons r roles)
  show ?case using Cons.IH [of "apply_role cfg u r"] by (auto simp: apply_role_def)
qed

text \<open>The capabilities that a set of roles gives: admin implies write implies read.\<close>

definition caps_ok :: "config \<Rightarrow> user \<Rightarrow> bool" where
  "caps_ok cfg u \<longleftrightarrow>
     u_Admin u = (cfg_OIDCAdminRole cfg \<in> set (u_Roles u)) \<and>
     u_Write u = (u_Admin u \<or> cfg_OIDCWriteRole cfg \<in> set (u_Roles u)) \<and>
     u_Read u = (u_Write u \<or> cfg_OIDCReadRole cfg \<in> set (u_Roles u) \<or> cfg_OpenRead cfg)"

lemma applyCaps_ok:
  "\<not> u_Admin u \<Longrightarrow> \<not> u_Write u \<Longrightarrow> \<not> u_Read u \<Longrightarrow> caps_ok cfg (applyCaps cfg u)"
  using foldl_apply_role [of cfg u "u_Roles u"] by (auto simp: applyCaps_def caps_ok_def Let_def)

lemma caps_ok_CSRF [simp]: "caps_ok cfg (u\<lparr>u_CSRF := t\<rparr>) = caps_ok cfg u"
  by (simp add: caps_ok_def)

lemma token_user_caps: "caps_ok cfg (token_user p cfg cl access)"
  by (auto simp: token_user_def no_user_def Let_def split: option.splits prod.splits intro!: applyCaps_ok)

section \<open>Tokens\<close>

lemma hex_digit_not_s: "n < 16 \<Longrightarrow> hex_digit n \<noteq> CHR ''s''"
  by (auto simp: hex_digit_def code_eq_iff [symmetric] code_char_of) (simp_all add: code_def)

lemma hex_encode_head: "s \<noteq> [] \<Longrightarrow> hex_encode s \<noteq> [] \<and> hd (hex_encode s) \<noteq> CHR ''s''"
proof (cases s)
  case (Cons c t)
  have "code c div 16 < 16" using code_less_256 [of c] by auto
  then show ?thesis by (simp add: Cons hex_encode_def hex_digit_not_s)
qed simp

lemma auth_token_shape: "auth_token rnd = Some t \<Longrightarrow> t \<noteq> [] \<and> hd t \<noteq> CHR ''s''"
proof -
  assume "auth_token rnd = Some t"
  then obtain z where t: "t = hex_encode (take 24 (z @ replicate 24 (CHR 0x00)))"
    by (auto simp: auth_token_def)
  have "take 24 (z @ replicate 24 (CHR 0x00)) \<noteq> []" by simp
  from hex_encode_head [OF this] show ?thesis unfolding t .
qed

lemma token_not_state_key: "auth_token rnd = Some t \<Longrightarrow> t \<noteq> ''state:'' @ x"
  using auth_token_shape by fastforce

lemma current_Some:
  "current S now st r = Some u \<longleftrightarrow> (\<exists>c s. rq_cookie r cookieName = Some c \<and> ss_Get S now st c = Some s \<and>
     u = (ses_user s)\<lparr>u_CSRF := ses_csrf s\<rparr>)"
  by (auto simp: current_def split: option.splits)

lemma Middleware_Next:
  "\<not> cfg_DevMode cfg \<Longrightarrow> Middleware S cfg now rnd1 rnd2 r a = (Next u, ck, a') \<longleftrightarrow>
     current S now (au_sessions a) r = Some u \<and> u_Read u \<and> ck = [] \<and> a' = a"
  by (cases "current S now (au_sessions a) r") (auto simp: Middleware_def)

section \<open>The store contract at work\<close>

text \<open>
  A user that the provider vouches for: the tokens of one code exchange, of which the ID token verifies,
  give the subject, the name and the e-mail address; roles and groups are exactly those of the ID token
  and, if it verifies too, of the access token of the same exchange; and the capabilities are exactly
  those of the roles.
\<close>

definition access_claims :: "idp \<Rightarrow> string \<Rightarrow> string set \<times> string set" where
  "access_claims p access =
     (case idp_VerifyAT p access of Some (Some (groups, roles)) \<Rightarrow> (set groups, set roles) | _ \<Rightarrow> ({}, {}))"

definition verified_user :: "idp \<Rightarrow> config \<Rightarrow> user \<Rightarrow> bool" where
  "verified_user p cfg u \<longleftrightarrow>
     (\<exists>auth_code verifier tok raw idt cl.
        idp_Exchange p auth_code verifier = Some tok \<and> ot_IDToken tok = Some raw \<and> idp_Verify p raw = Some idt \<and>
        id_Claims idt = Some cl \<and> u_Subject u = cl_Sub cl \<and> u_Name u = cl_Name cl \<and> u_Email u = cl_Email cl \<and>
        set (u_Roles u) - {[]} = (set (cl_Roles cl) \<union> snd (access_claims p (ot_AccessToken tok))) - {[]} \<and>
        set (u_Groups u) - {[]} = (set (cl_Groups cl) \<union> fst (access_claims p (ot_AccessToken tok))) - {[]}) \<and>
     caps_ok cfg u"

lemma applyCaps_fixed:
  "u_Subject (applyCaps cfg u) = u_Subject u" "u_Name (applyCaps cfg u) = u_Name u"
  "u_Email (applyCaps cfg u) = u_Email u" "u_Roles (applyCaps cfg u) = u_Roles u" "u_Groups (applyCaps cfg u) = u_Groups u"
proof -
  have "u_Subject (foldl (apply_role cfg) v rs) = u_Subject v \<and> u_Name (foldl (apply_role cfg) v rs) = u_Name v \<and>
     u_Email (foldl (apply_role cfg) v rs) = u_Email v \<and> u_Roles (foldl (apply_role cfg) v rs) = u_Roles v \<and>
     u_Groups (foldl (apply_role cfg) v rs) = u_Groups v" for v rs
    by (induction rs arbitrary: v) (simp_all add: apply_role_def)
  then show "u_Subject (applyCaps cfg u) = u_Subject u" "u_Name (applyCaps cfg u) = u_Name u"
    "u_Email (applyCaps cfg u) = u_Email u" "u_Roles (applyCaps cfg u) = u_Roles u" "u_Groups (applyCaps cfg u) = u_Groups u"
    by (simp_all add: applyCaps_def Let_def)
qed

lemma token_user_verified:
  assumes "idp_Exchange p auth_code verifier = Some tok" and "ot_IDToken tok = Some raw"
    and "idp_Verify p raw = Some idt" and "id_Claims idt = Some cl"
  shows "verified_user p cfg (token_user p cfg cl (ot_AccessToken tok))"
proof -
  let ?u = "token_user p cfg cl (ot_AccessToken tok)"
  have "u_Subject ?u = cl_Sub cl" "u_Name ?u = cl_Name cl" "u_Email ?u = cl_Email cl"
    "set (u_Roles ?u) - {[]} = (set (cl_Roles cl) \<union> snd (access_claims p (ot_AccessToken tok))) - {[]}"
    "set (u_Groups ?u) - {[]} = (set (cl_Groups cl) \<union> fst (access_claims p (ot_AccessToken tok))) - {[]}"
    by (auto simp: token_user_def access_claims_def applyCaps_fixed mergeRoles_set split: option.splits prod.splits)
  then show ?thesis using assms token_user_caps unfolding verified_user_def by blast
qed

text \<open>
  What an entry of the store may be: the record of a login in progress, which carries no user and no
  CSRF token, or a session under a token, with a CSRF token and a user that the provider vouches for
  (in dev mode also the local admin).
\<close>

definition good_entry :: "idp \<Rightarrow> config \<Rightarrow> string \<Rightarrow> session \<Rightarrow> bool" where
  "good_entry p cfg k s \<longleftrightarrow>
     (\<exists>x. k = ''state:'' @ x \<and> ses_oauthState s = x) \<and> ses_user s = no_user \<and> ses_csrf s = []
     \<or> hd k \<noteq> CHR ''s'' \<and> ses_csrf s \<noteq> [] \<and>
       (verified_user p cfg (ses_user s) \<or> cfg_DevMode cfg \<and> ses_user s = dev_user)"

lemma verified_user_CSRF [simp]: "verified_user p cfg (u\<lparr>u_CSRF := t\<rparr>) = verified_user p cfg u"
  by (simp add: verified_user_def)

text \<open>A concrete login, for the examples: a provider whose tokens echo an all-zero nonce.\<close>

definition demo_cfg :: config where
  "demo_cfg = read_config (\<lambda>k. if k = ''OIDC_ISSUER'' \<or> k = ''OIDC_CLIENT_ID'' \<or> k = ''DBM_ENC_KEY'' then ''x'' else [])"

definition zeros :: string where "zeros = replicate 48 (CHR ''0'')"

definition demo_claims :: claims where
  "demo_claims = \<lparr>cl_Sub = ''u1'', cl_Name = ''Ann'', cl_Email = ''ann@x'', cl_Groups = [], cl_Roles = [''dbm-read'']\<rparr>"

definition demo_idp :: idp where
  "demo_idp = \<lparr>idp_Exchange = (\<lambda>_ _. Some \<lparr>ot_IDToken = Some ''raw'', ot_AccessToken = []\<rparr>),
     idp_Verify = (\<lambda>_. Some \<lparr>id_Nonce = zeros, id_Claims = Some demo_claims\<rparr>),
     idp_VerifyAT = (\<lambda>_. None), idp_AuthCodeURL = (\<lambda>s n v. ''https://idp/'' @ s), idp_endSession = []\<rparr>"

definition demo_req :: auth_req where
  "demo_req = \<lparr>rq_cookie = (\<lambda>k. if k = cookieName \<or> k = ''dbm_state'' then Some zeros else None),
     rq_query = (\<lambda>k. if k = ''state'' then zeros else []), rq_header = (\<lambda>_. zeros), rq_form = (\<lambda>_. [])\<rparr>"

lemma hex_encode_replicate: "hex_encode (replicate n (CHR 0x00)) = replicate (2 * n) (CHR ''0'')"
  by (induction n) (simp_all add: hex_encode_def hex_digit_def code_def digit_chars)

lemma auth_token_zeros: "auth_token (Some []) = Some zeros"
  using hex_encode_replicate [of 24] by (simp add: auth_token_def zeros_def)

lemma demo_cfg_simps [simp]: "cfg_DevMode demo_cfg = False" "cfg_OIDCReadRole demo_cfg = ''dbm-read''"
  "cfg_OIDCWriteRole demo_cfg = ''dbm-write''" "cfg_OIDCAdminRole demo_cfg = ''dbm-admin''"
  "cfg_OpenRead demo_cfg = False"
  by (simp_all add: demo_cfg_def read_config_def Let_def env_def)

lemma demo_cfg_dev: "\<not> cfg_DevMode demo_cfg"
  by simp

lemma demo_request:
  "rq_cookie demo_req ''dbm_state'' = Some zeros" "rq_query demo_req ''state'' = zeros"
  "rq_cookie demo_req cookieName = Some zeros"
  "idp_Exchange demo_idp (rq_query demo_req ''code'') ''v'' = Some \<lparr>ot_IDToken = Some ''raw'', ot_AccessToken = []\<rparr>"
  "idp_Verify demo_idp ''raw'' = Some \<lparr>id_Nonce = zeros, id_Claims = Some demo_claims\<rparr>"
  by (simp_all add: demo_req_def demo_idp_def)

lemma demo_user_read: "u_Read (token_user demo_idp demo_cfg demo_claims x)"
  by (simp add: token_user_def demo_idp_def demo_claims_def applyCaps_def apply_role_def no_user_def)

context session_store
begin

lemma entries_put_session:
  assumes "entries (good_entry p cfg) st" and "auth_token rnd1 = Some tok" and "auth_token rnd2 = Some csrf"
    and "verified_user p cfg u \<or> cfg_DevMode cfg \<and> u = dev_user"
  shows "entries (good_entry p cfg) (put_session S now tok csrf u idToken st)"
  unfolding put_session_def
  using assms auth_token_shape [OF assms(2)] auth_token_shape [OF assms(3)]
  by (intro entries_put) (auto simp: good_entry_def)

lemma middleware_entries:
  assumes "entries (good_entry p cfg) (au_sessions a)" and "Middleware S cfg now rnd1 rnd2 r a = (resp, ck, a')"
  shows "entries (good_entry p cfg) (au_sessions a')"
  using assms entries_put_session [OF assms(1), of rnd1 _ rnd2 _ dev_user]
  by (auto simp: Middleware_def Let_def split: option.splits if_splits)

lemma login_entries:
  assumes "entries (good_entry p cfg) (au_sessions a)"
    and "Login S cfg p now rnd1 rnd2 verifier a = (resp, ck, a')"
  shows "entries (good_entry p cfg) (au_sessions a')"
  using assms
  by (auto simp: Login_def good_entry_def split: option.splits if_splits intro!: entries_put)

lemma callback_entries:
  assumes "entries (good_entry p cfg) (au_sessions a)" and "Callback S cfg p now rnd1 rnd2 r a = (resp, ck, a')"
  shows "entries (good_entry p cfg) (au_sessions a')"
  using assms entries_delete [OF assms(1)]
  by (auto simp: Callback_def Let_def login_failed_def audit_event_def
      split: option.splits if_splits intro!: entries_put_session token_user_verified)

lemma logout_entries:
  assumes "entries (good_entry p cfg) (au_sessions a)" and "Logout S cfg p now r a = (resp, ck, a')"
  shows "entries (good_entry p cfg) (au_sessions a')"
  using assms entries_delete [OF assms(1)]
  by (auto simp: Logout_def Let_def split: option.splits if_splits prod.splits)

lemma event_entries:
  assumes "entries (good_entry p cfg) (au_sessions a)"
  shows "entries (good_entry p cfg) (au_sessions (auth_do S tick cfg p a ev))"
proof (cases ev)
  case (EvEnv e)
  then show ?thesis using entries_env [OF assms] by simp
qed (use middleware_entries [OF assms] login_entries [OF assms] callback_entries [OF assms] logout_entries [OF assms]
     in \<open>simp_all add: prod_eq_iff\<close>)

lemma reach_entries:
  assumes "auth_reach S tick st0 cfg p a" and "\<And>k. vacant st0 k"
  shows "entries (good_entry p cfg) (au_sessions a)"
  using assms(1)
proof induction
  case start
  then show ?case using assms(2) by (simp add: entries_def vacant_def)
qed (rule event_entries)

lemma middleware_next:
  assumes "auth_reach S tick st0 cfg p a" and "\<And>k. vacant st0 k"
    and "\<not> cfg_DevMode cfg" and "Middleware S cfg now rnd1 rnd2 r a = (Next u, ck, a')"
  shows "u_Read u \<and> verified_user p cfg u \<and> u_CSRF u \<noteq> [] \<and> a' = a"
proof -
  from assms(3,4) obtain c s where c: "rq_cookie r cookieName = Some c" "ss_Get S now (au_sessions a) c = Some s"
    and u: "u = (ses_user s)\<lparr>u_CSRF := ses_csrf s\<rparr>" "u_Read u" "a' = a"
    unfolding Middleware_Next [OF assms(3)] current_Some by blast
  have "good_entry p cfg c s" by (rule entries_get [OF reach_entries [OF assms(1,2)] c(2)])
  with u assms(3) show ?thesis by (auto simp: good_entry_def no_user_def)
qed

lemma state_key_denied:
  assumes "auth_reach S tick st0 cfg p a" and "\<And>k. vacant st0 k"
    and "rq_cookie r cookieName = Some (''state:'' @ x)" and "\<not> cfg_DevMode cfg"
  shows "\<not> CheckCSRF S now (au_sessions a) r \<and>
     fst (Middleware S cfg now rnd1 rnd2 r a) \<in> {Forbidden (forbidden_text cfg), Redirect ''/auth/login''}"
proof (cases "ss_Get S now (au_sessions a) (''state:'' @ x)")
  case None
  with assms(3,4) show ?thesis by (simp add: CheckCSRF_def csrfFor_def Middleware_def current_def)
next
  case (Some s)
  have "good_entry p cfg (''state:'' @ x) s" by (rule entries_get [OF reach_entries [OF assms(1,2)] Some])
  then have "ses_user s = no_user" "ses_csrf s = []" by (auto simp: good_entry_def)
  with assms(3) Some show ?thesis
    by (simp add: CheckCSRF_def csrfFor_def Middleware_def current_def no_user_def)
qed

text \<open>A vacant key stays vacant as long as no event draws it.\<close>

lemma event_vacant:
  assumes "vacant (au_sessions a) k" and "drawn_key ev \<noteq> Some k"
  shows "vacant (au_sessions (auth_do S tick cfg p a ev)) k"
proof (cases ev)
  case (EvMiddleware now rnd1 rnd2 r)
  with assms show ?thesis
    by (auto simp: Middleware_def Let_def put_session_def split: option.splits intro!: vacant_put)
next
  case (EvLogin now rnd1 rnd2 verifier)
  with assms show ?thesis by (auto simp: Login_def split: option.splits intro!: vacant_put)
next
  case (EvCallback now rnd1 rnd2 r)
  with assms vacant_delete [OF assms(1)] show ?thesis
    by (auto simp: Callback_def Let_def login_failed_def audit_event_def put_session_def
        split: option.splits intro!: vacant_put)
next
  case (EvLogout now r)
  with assms vacant_delete [OF assms(1)] show ?thesis
    by (auto simp: Logout_def Let_def split: option.splits prod.splits)
next
  case (EvEnv e)
  with assms show ?thesis by (simp add: vacant_env)
qed

lemma after_vacant:
  "vacant (au_sessions a) k \<Longrightarrow> list_all (\<lambda>ev. drawn_key ev \<noteq> Some k) evs \<Longrightarrow>
   vacant (au_sessions (auth_after S tick cfg p evs a)) k"
  by (induction evs arbitrary: a) (simp_all add: auth_after_def event_vacant)

lemma callback_consumes_state:
  assumes "fst (Callback S cfg p now rnd1 rnd2 r a) \<noteq> Http_error 400 ''invalid state''" and "can_del (au_sessions a)"
    and "list_all (\<lambda>ev. drawn_key ev \<noteq> Some (''state:'' @ rq_query r ''state'')) evs"
    and "rq_query r' ''state'' = rq_query r ''state''"
  shows "fst (Callback S cfg p now' rnd1' rnd2' r'
     (auth_after S tick cfg p evs (snd (snd (Callback S cfg p now rnd1 rnd2 r a))))) = Http_error 400 ''invalid state''"
proof -
  let ?k = "''state:'' @ rq_query r ''state''"
  have gone: "vacant (ss_Delete S ?k (au_sessions a)) ?k" by (rule deleted_vacant [OF assms(2)])
  have put: "vacant (put_session S now sid csrf u raw (ss_Delete S ?k (au_sessions a))) ?k"
    if "auth_token rnd1 = Some sid" for sid csrf u raw
    unfolding put_session_def using token_not_state_key [OF that] by (intro vacant_put [OF gone]) metis
  have "vacant (au_sessions (snd (snd (Callback S cfg p now rnd1 rnd2 r a)))) ?k"
    using assms(1) gone put
    by (auto simp: Callback_def Let_def login_failed_def audit_event_def split: option.splits)
  from vacant_get [OF after_vacant [OF this assms(3)]]
  have "ss_Get S now' (au_sessions (auth_after S tick cfg p evs (snd (snd (Callback S cfg p now rnd1 rnd2 r a)))))
     (''state:'' @ rq_query r' ''state'') = None" unfolding assms(4) .
  then show ?thesis unfolding Callback_def [of S cfg p now'] by (simp add: Let_def login_failed_def)
qed

lemma logout_ends_session:
  assumes "Logout S cfg p now r a = (Redirect url, ck, a')" and "can_del (au_sessions a)"
    and "list_all (\<lambda>ev. drawn_key ev \<noteq> rq_cookie r cookieName) evs"
    and "rq_cookie r' cookieName = rq_cookie r cookieName"
  shows "current S now' (au_sessions (auth_after S tick cfg p evs a')) r' = None \<and>
     \<not> CheckCSRF S now' (au_sessions (auth_after S tick cfg p evs a')) r'"
proof -
  from assms(1) obtain c where c: "rq_cookie r cookieName = Some c"
    and a': "au_sessions a' = ss_Delete S c (au_sessions a)"
    by (auto simp: Logout_def CheckCSRF_def Let_def split: option.splits if_splits prod.splits)
  have "vacant (au_sessions a') c" unfolding a' by (rule deleted_vacant [OF assms(2)])
  then have "vacant (au_sessions (auth_after S tick cfg p evs a')) c" using assms(3) by (simp add: after_vacant c)
  then show ?thesis using assms(4) c by (simp add: current_def CheckCSRF_def csrfFor_def vacant_get)
qed

end

context live_session_store
begin

lemma event_live:
  assumes "live (au_sessions a) k s" and "spares early k (ses_expires s) ev"
  shows "live (au_sessions (auth_do S tick cfg p a ev)) k s"
proof (cases ev)
  case (EvMiddleware now rnd1 rnd2 r)
  with assms show ?thesis
    by (auto simp: spares_def Middleware_def Let_def put_session_def split: option.splits intro!: live_put)
next
  case (EvLogin now rnd1 rnd2 verifier)
  with assms show ?thesis by (auto simp: spares_def Login_def split: option.splits intro!: live_put)
next
  case (EvCallback now rnd1 rnd2 r)
  then have "live (ss_Delete S (''state:'' @ rq_query r ''state'') (au_sessions a)) k s"
    using assms by (auto simp: spares_def intro!: live_delete)
  with EvCallback assms show ?thesis
    by (auto simp: spares_def Callback_def Let_def login_failed_def audit_event_def put_session_def
        split: option.splits intro!: live_put)
next
  case (EvLogout now r)
  then have "live (ss_Delete S c (au_sessions a)) k s" if "rq_cookie r cookieName = Some c" for c
    using assms that by (auto simp: spares_def intro!: live_delete)
  with EvLogout assms show ?thesis
    by (auto simp: Logout_def Let_def split: option.splits prod.splits)
next
  case (EvEnv e)
  with assms show ?thesis by (simp add: spares_def live_env)
qed

lemma after_live:
  "live (au_sessions a) k s \<Longrightarrow> list_all (spares early k (ses_expires s)) evs \<Longrightarrow>
   live (au_sessions (auth_after S tick cfg p evs a)) k s"
  by (induction evs arbitrary: a) (simp_all add: auth_after_def event_live)

lemma login_flow:
  assumes "\<not> cfg_DevMode cfg" and "auth_token rnd1 = Some state" and "auth_token rnd2 = Some nonce"
    and "auth_token rnd3 = Some sid" and "auth_token rnd4 = Some csrf"
    and a1: "a1 = auth_after S tick cfg p evs1 (snd (snd (Login S cfg p now rnd1 rnd2 verifier a)))"
    and a3: "a3 = auth_after S tick cfg p evs2 (snd (snd (Callback S cfg p t rnd3 rnd4 r a1)))"
    and "list_all (spares early (''state:'' @ state) (now + 600)) evs1" and "list_all (spares early sid (t + sessionTTL)) evs2"
    and "can_put (au_sessions a)" and "can_get (au_sessions a1)" and "can_put (au_sessions a1)" and "can_get (au_sessions a3)"
    and "rq_cookie r ''dbm_state'' = Some state" and "rq_query r ''state'' = state" and "t < now + 600"
    and "idp_Exchange p (rq_query r ''code'') verifier = Some tok" and "ot_IDToken tok = Some raw"
    and "idp_Verify p raw = Some \<lparr>id_Nonce = nonce, id_Claims = Some cl\<rparr>"
    and "rq_cookie req cookieName = Some sid" and "later < t + sessionTTL"
  shows "fst (Callback S cfg p t rnd3 rnd4 r a1) = Redirect ''/'' \<and>
     fst (snd (Callback S cfg p t rnd3 rnd4 r a1)) = [deleted_cookie ''dbm_state'', setCookie sid cfg] \<and>
     Middleware S cfg later rnd5 rnd6 req a3 =
       (let u = (token_user p cfg cl (ot_AccessToken tok))\<lparr>u_CSRF := csrf\<rparr>
        in (if u_Read u then Next u else Forbidden (forbidden_text cfg), [], a3))"
proof -
  let ?u = "token_user p cfg cl (ot_AccessToken tok)"
  let ?s = "\<lparr>ses_user = no_user, ses_expires = now + 600, ses_csrf = [], ses_idToken = [],
     ses_oauthState = state, ses_nonce = nonce, ses_pkceVerifier = verifier\<rparr>"
  let ?n = "\<lparr>ses_user = ?u, ses_expires = t + sessionTTL, ses_csrf = csrf, ses_idToken = raw, ses_oauthState = [],
     ses_nonce = [], ses_pkceVerifier = []\<rparr>"
  let ?c = "Callback S cfg p t rnd3 rnd4 r a1"
  have "live (au_sessions (snd (snd (Login S cfg p now rnd1 rnd2 verifier a)))) (''state:'' @ state) ?s"
    using assms(1-3,10) by (simp add: Login_def put_live)
  then have "live (au_sessions a1) (''state:'' @ state) ?s" unfolding a1 using assms(8) by (intro after_live) simp_all
  then have get: "ss_Get S t (au_sessions a1) (''state:'' @ state) = Some ?s" using assms(11,16) by (simp add: live_get)
  have "state \<noteq> []" using auth_token_shape [OF assms(2)] by simp
  then have cb: "fst ?c = Redirect ''/''" "fst (snd ?c) = [deleted_cookie ''dbm_state'', setCookie sid cfg]"
    and a2: "au_sessions (snd (snd ?c)) = put_session S t sid csrf ?u raw (ss_Delete S (''state:'' @ state) (au_sessions a1))"
    using assms get by (simp_all add: Callback_def Let_def audit_event_def)
  have "live (au_sessions (snd (snd ?c))) sid ?n"
    unfolding a2 put_session_def using assms(12) by (intro put_live) (simp_all add: can_put_delete)
  then have "live (au_sessions a3) sid ?n" unfolding a3 using assms(9) by (intro after_live) simp_all
  then have "ss_Get S later (au_sessions a3) sid = Some ?n" using assms(13,21) by (simp add: live_get)
  then have "Middleware S cfg later rnd5 rnd6 req a3 =
       (let u = ?u\<lparr>u_CSRF := csrf\<rparr> in (if u_Read u then Next u else Forbidden (forbidden_text cfg), [], a3))"
    using assms(20) by (simp add: Middleware_def current_def Let_def)
  with cb show ?thesis by blast
qed

end

section \<open>Properties\<close>

lemma mem_empty: "mem.vacant newMemSessionStore k"
  by (simp add: mem.vacant_def mem_holds_def newMemSessionStore_def)

lemma redis_empty: "redis.vacant redis_start k"
  by (simp add: redis.vacant_def redis_holds_def redis_start_def)

text \<open>C9: access is denied by default. Outside dev mode, in every state that any sequence of logins,
  callbacks, logouts and requests (and of reaper ticks and outages of the session store) reaches, with
  the sessions in memory or in Redis, a request that the middleware lets through carries a CSRF token
  and a user with read access for whom one code exchange with the provider gave a verified ID token:
  subject, name and e-mail address are its claims, roles and groups are exactly those of that token and,
  if it verifies, of the access token of the same exchange, and the admin, write and read flags are
  exactly those of these roles.\<close>

theorem Middleware_denies_by_default:
  assumes "\<not> cfg_DevMode cfg"
  shows "(auth_reach mem_api mem_reap newMemSessionStore cfg p a \<and>
      Middleware mem_api cfg now rnd1 rnd2 r a = (Next u, ck, a') \<longrightarrow>
        u_Read u \<and> verified_user p cfg u \<and> caps_ok cfg u \<and> u_CSRF u \<noteq> [] \<and> a' = a) \<and>
    (auth_reach redis_api redis_net redis_start cfg p b \<and>
      Middleware redis_api cfg now rnd1 rnd2 r b = (Next u, ck, b') \<longrightarrow>
        u_Read u \<and> verified_user p cfg u \<and> caps_ok cfg u \<and> u_CSRF u \<noteq> [] \<and> b' = b)"
  using mem.middleware_next [OF _ mem_empty assms] redis.middleware_next [OF _ redis_empty assms]
  by (metis verified_user_def)

text \<open>The concrete login: the state after \<^verbatim>\<open>Login\<close> and the state after the callback that follows it.\<close>

definition demo_login :: "'st sstore \<Rightarrow> 'st \<Rightarrow> 'st auth_state" where
  "demo_login S st = snd (snd (Login S demo_cfg demo_idp 0 (Some []) (Some []) ''v'' \<lparr>au_sessions = st, au_audit = []\<rparr>))"

definition demo_in :: "'st sstore \<Rightarrow> 'st \<Rightarrow> 'st auth_state" where
  "demo_in S st = snd (snd (Callback S demo_cfg demo_idp 1 (Some []) (Some []) demo_req (demo_login S st)))"

definition demo_user :: user where
  "demo_user = (token_user demo_idp demo_cfg demo_claims [])\<lparr>u_CSRF := zeros\<rparr>"

context live_session_store
begin

lemma demo_reachable:
  "auth_reach S tick st demo_cfg demo_idp (demo_login S st)" "auth_reach S tick st demo_cfg demo_idp (demo_in S st)"
proof -
  show l: "auth_reach S tick st demo_cfg demo_idp (demo_login S st)"
    using auth_reach.event [OF auth_reach.start, of S tick st demo_cfg demo_idp "EvLogin 0 (Some []) (Some []) ''v''"]
    by (simp add: demo_login_def)
  show "auth_reach S tick st demo_cfg demo_idp (demo_in S st)"
    using auth_reach.event [OF l, of "EvCallback 1 (Some []) (Some []) demo_req"] by (simp add: demo_in_def)
qed

lemma demo_flow:
  assumes "can_put st" "can_get (au_sessions (demo_login S st))" "can_put (au_sessions (demo_login S st))"
    "can_get (au_sessions (demo_in S st))"
  shows "fst (Callback S demo_cfg demo_idp 1 (Some []) (Some []) demo_req (demo_login S st)) = Redirect ''/''"
    and "Middleware S demo_cfg 2 None None demo_req (demo_in S st) = (Next demo_user, [], demo_in S st)"
  using login_flow [OF demo_cfg_dev auth_token_zeros auth_token_zeros auth_token_zeros auth_token_zeros,
      of "demo_login S st" demo_idp "[]" 0 "''v''" "\<lparr>au_sessions = st, au_audit = []\<rparr>" "demo_in S st" "[]" 1 demo_req
         "\<lparr>ot_IDToken = Some ''raw'', ot_AccessToken = []\<rparr>" "''raw''" demo_claims demo_req 2 None None] assms
  by (simp_all add: demo_login_def demo_in_def demo_user_def auth_after_def demo_request demo_user_read sessionTTL_def)

end

lemma redis_flags:
  "rs_get (au_sessions (demo_login redis_api redis_start))" "rs_set (au_sessions (demo_login redis_api redis_start))"
  "rs_del (au_sessions (demo_login redis_api redis_start))"
  "rs_get (au_sessions (demo_in redis_api redis_start))" "rs_del (au_sessions (demo_in redis_api redis_start))"
  "rs_set redis_start"
proof -
  have net: "rs_get (redis_Put t k s ttl st) = rs_get st" "rs_set (redis_Put t k s ttl st) = rs_set st"
    "rs_del (redis_Put t k s ttl st) = rs_del st" "rs_get (redis_Delete k st) = rs_get st"
    "rs_del (redis_Delete k st) = rs_del st" for t k s ttl st
    by (simp_all add: redis_Put_def redis_Delete_def)
  have l: "au_sessions (demo_login redis_api redis_start) = redis_Put 0 (''state:'' @ zeros)
      \<lparr>ses_user = no_user, ses_expires = 600, ses_csrf = [], ses_idToken = [], ses_oauthState = zeros, ses_nonce = zeros,
       ses_pkceVerifier = ''v''\<rparr> 600 redis_start"
    by (simp add: demo_login_def Login_def auth_token_zeros redis_api_def)
  show "rs_get (au_sessions (demo_login redis_api redis_start))" "rs_set (au_sessions (demo_login redis_api redis_start))"
    "rs_del (au_sessions (demo_login redis_api redis_start))" "rs_set redis_start"
    unfolding l net by (simp_all add: redis_start_def)
  then show "rs_get (au_sessions (demo_in redis_api redis_start))" "rs_del (au_sessions (demo_in redis_api redis_start))"
    by (auto simp: demo_in_def Callback_def Let_def login_failed_def audit_event_def put_session_def redis_api_def net
        split: option.split)
qed

lemmas mem_demo = mem.demo_flow [of newMemSessionStore, OF TrueI TrueI TrueI TrueI]
lemmas redis_demo = redis.demo_flow [OF redis_flags(6,1,2,4)]

theorem Middleware_denies_by_default_witness:
  "u_Read demo_user \<and> verified_user demo_idp demo_cfg demo_user \<and>
   Middleware mem_api demo_cfg 2 None None demo_req (demo_in mem_api newMemSessionStore)
     = (Next demo_user, [], demo_in mem_api newMemSessionStore) \<and>
   Middleware redis_api demo_cfg 2 None None demo_req (demo_in redis_api redis_start)
     = (Next demo_user, [], demo_in redis_api redis_start)"
  using Middleware_denies_by_default [OF demo_cfg_dev] mem.demo_reachable(2) mem_demo(2) redis_demo(2) by blast

text \<open>The store entry of a login in progress is no session. Whoever presents its key as a session
  cookie passes neither the CSRF check nor the middleware, although both share one keyspace.\<close>

theorem state_entry_is_no_session:
  assumes "auth_reach mem_api mem_reap newMemSessionStore cfg p a" and "\<not> cfg_DevMode cfg"
    and "rq_cookie r cookieName = Some (''state:'' @ x)"
  shows "\<not> CheckCSRF mem_api now (au_sessions a) r \<and>
     fst (Middleware mem_api cfg now rnd1 rnd2 r a) \<in> {Forbidden (forbidden_text cfg), Redirect ''/auth/login''}"
  using mem.state_key_denied [OF assms(1) mem_empty assms(3,2)] .

theorem state_entry_is_no_session_witness:
  "\<not> CheckCSRF mem_api 1 (au_sessions (demo_login mem_api newMemSessionStore))
       (demo_req\<lparr>rq_cookie := \<lambda>_. Some (''state:'' @ zeros)\<rparr>)"
proof -
  let ?r = "demo_req\<lparr>rq_cookie := \<lambda>_. Some (''state:'' @ zeros)\<rparr>"
  have "rq_cookie ?r cookieName = Some (''state:'' @ zeros)" by simp
  then show ?thesis using state_entry_is_no_session [OF mem.demo_reachable(1) demo_cfg_dev] by blast
qed

text \<open>C23: a login state works once. After a callback whose state was accepted, whether or not the login
  then succeeded, every later callback with the same state is refused, whatever cookies and provider
  answers come with it and whatever requests, reaper ticks and network changes come in between, unless a
  login draws the same random state again; with the sessions in Redis, provided the deletion reached the
  server, whose failure the code ignores. Requests are served one after the other here: two callbacks
  that read the state before either deletes it both pass.\<close>

theorem Callback_consumes_state:
  assumes "rq_query r' ''state'' = rq_query r ''state''"
  shows "(fst (Callback mem_api cfg p now rnd1 rnd2 r a) \<noteq> Http_error 400 ''invalid state'' \<and>
      list_all (\<lambda>ev. drawn_key ev \<noteq> Some (''state:'' @ rq_query r ''state'')) evs \<longrightarrow>
      fst (Callback mem_api cfg p now' rnd1' rnd2' r'
        (auth_after mem_api mem_reap cfg p evs (snd (snd (Callback mem_api cfg p now rnd1 rnd2 r a)))))
        = Http_error 400 ''invalid state'') \<and>
    (fst (Callback redis_api cfg p now rnd1 rnd2 r b) \<noteq> Http_error 400 ''invalid state'' \<and> rs_del (au_sessions b) \<and>
      list_all (\<lambda>ev. drawn_key ev \<noteq> Some (''state:'' @ rq_query r ''state'')) evs' \<longrightarrow>
      fst (Callback redis_api cfg p now' rnd1' rnd2' r'
        (auth_after redis_api redis_net cfg p evs' (snd (snd (Callback redis_api cfg p now rnd1 rnd2 r b)))))
        = Http_error 400 ''invalid state'')"
  using mem.callback_consumes_state [OF _ TrueI _ assms] redis.callback_consumes_state [OF _ _ _ assms] by blast

theorem Callback_consumes_state_witness:
  "fst (Callback mem_api demo_cfg demo_idp 1 (Some []) (Some []) demo_req (demo_login mem_api newMemSessionStore)) = Redirect ''/'' \<and>
   fst (Callback mem_api demo_cfg demo_idp 5 (Some []) (Some []) demo_req
     (auth_after mem_api mem_reap demo_cfg demo_idp [EvEnv 3] (demo_in mem_api newMemSessionStore))) = Http_error 400 ''invalid state'' \<and>
   fst (Callback redis_api demo_cfg demo_idp 5 (Some []) (Some []) demo_req
     (auth_after redis_api redis_net demo_cfg demo_idp [EvEnv (True, False, True)] (demo_in redis_api redis_start)))
     = Http_error 400 ''invalid state''"
  using Callback_consumes_state [OF refl, where r = demo_req and cfg = demo_cfg and p = demo_idp and now = 1 and
      ?rnd1.0 = "Some []" and ?rnd2.0 = "Some []" and a = "demo_login mem_api newMemSessionStore" and evs = "[EvEnv 3]" and
      b = "demo_login redis_api redis_start" and evs' = "[EvEnv (True, False, True)]" and now' = 5 and rnd1' = "Some []"
      and rnd2' = "Some []"] mem_demo(1) redis_demo(1) redis_flags(3)
  by (simp add: demo_in_def)

text \<open>C24: logout ends the session: afterwards the cookie gives neither a user nor a valid CSRF check, at
  any later time and after any further requests, reaper ticks and network changes that do not draw the
  same random token again; with the sessions in Redis, provided the deletion reached the server, whose
  failure the code ignores.\<close>

theorem Logout_ends_session:
  assumes "rq_cookie r' cookieName = rq_cookie r cookieName"
  shows "(Logout mem_api cfg p now r a = (Redirect url, ck, a') \<and>
      list_all (\<lambda>ev. drawn_key ev \<noteq> rq_cookie r cookieName) evs \<longrightarrow>
      current mem_api now' (au_sessions (auth_after mem_api mem_reap cfg p evs a')) r' = None \<and>
      \<not> CheckCSRF mem_api now' (au_sessions (auth_after mem_api mem_reap cfg p evs a')) r') \<and>
    (Logout redis_api cfg p now r b = (Redirect url, ck, b') \<and> rs_del (au_sessions b) \<and>
      list_all (\<lambda>ev. drawn_key ev \<noteq> rq_cookie r cookieName) evs' \<longrightarrow>
      current redis_api now' (au_sessions (auth_after redis_api redis_net cfg p evs' b')) r' = None \<and>
      \<not> CheckCSRF redis_api now' (au_sessions (auth_after redis_api redis_net cfg p evs' b')) r')"
  using mem.logout_ends_session [OF _ TrueI _ assms] redis.logout_ends_session [OF _ _ _ assms] by blast

text \<open>The logged-in example user passes the CSRF check, so that the logout goes through.\<close>

lemma Logout_state:
  "CheckCSRF S now (au_sessions a) r \<Longrightarrow> rq_cookie r cookieName = Some c \<Longrightarrow>
   \<exists>url. Logout S cfg p now r a = (Redirect url, [deleted_cookie cookieName], a\<lparr>au_sessions := ss_Delete S c (au_sessions a)\<rparr>)"
  by (simp add: Logout_def Let_def)

lemma demo_csrf:
  "CheckCSRF mem_api 2 (au_sessions (demo_in mem_api newMemSessionStore)) demo_req"
  "CheckCSRF redis_api 2 (au_sessions (demo_in redis_api redis_start)) demo_req"
proof -
  have facts: "zeros \<noteq> []" "rq_header demo_req = (\<lambda>_. zeros)" "u_CSRF demo_user = zeros"
    by (simp_all add: zeros_def demo_req_def demo_user_def)
  have csrf: "CheckCSRF S 2 st demo_req" if "current S 2 st demo_req = Some demo_user" for S :: "'st sstore" and st
  proof -
    from that obtain c s where c: "rq_cookie demo_req cookieName = Some c" "ss_Get S 2 st c = Some s"
      and u: "demo_user = (ses_user s)\<lparr>u_CSRF := ses_csrf s\<rparr>" unfolding current_Some by blast
    have "ses_csrf s = zeros" using arg_cong [OF u, of u_CSRF] facts by simp
    with c facts show ?thesis by (simp add: CheckCSRF_def csrfFor_def)
  qed
  show "CheckCSRF mem_api 2 (au_sessions (demo_in mem_api newMemSessionStore)) demo_req"
    by (rule csrf) (use mem_demo(2) Middleware_Next [OF demo_cfg_dev] in blast)
  show "CheckCSRF redis_api 2 (au_sessions (demo_in redis_api redis_start)) demo_req"
    by (rule csrf) (use redis_demo(2) Middleware_Next [OF demo_cfg_dev] in blast)
qed

theorem Logout_ends_session_witness:
  "\<exists>url. Logout mem_api demo_cfg demo_idp 2 demo_req (demo_in mem_api newMemSessionStore)
     = (Redirect url, [deleted_cookie cookieName], (demo_in mem_api newMemSessionStore)\<lparr>au_sessions :=
          mem_Delete zeros (au_sessions (demo_in mem_api newMemSessionStore))\<rparr>) \<and>
   current mem_api 9 (mem_reap 5 (mem_Delete zeros (au_sessions (demo_in mem_api newMemSessionStore)))) demo_req = None"
proof -
  obtain url where l: "Logout mem_api demo_cfg demo_idp 2 demo_req (demo_in mem_api newMemSessionStore)
     = (Redirect url, [deleted_cookie cookieName], (demo_in mem_api newMemSessionStore)\<lparr>au_sessions :=
          mem_Delete zeros (au_sessions (demo_in mem_api newMemSessionStore))\<rparr>)"
    using Logout_state [OF demo_csrf(1) demo_request(3)] by (auto simp: mem_api_def)
  have "list_all (\<lambda>ev. drawn_key ev \<noteq> rq_cookie demo_req cookieName) [EvEnv (5::int)]" by (simp add: demo_request)
  with l Logout_ends_session [OF refl] have
    "current mem_api 9 (au_sessions (auth_after mem_api mem_reap demo_cfg demo_idp [EvEnv 5] ((demo_in mem_api newMemSessionStore)\<lparr>au_sessions :=
          mem_Delete zeros (au_sessions (demo_in mem_api newMemSessionStore))\<rparr>))) demo_req = None" by blast
  with l show ?thesis by (simp add: auth_after_def)
qed

text \<open>When the deletion does not reach Redis, the answer of the logout is the same and the session goes on:
  the cookie still gives the user.\<close>

lemma redis_logout_lost:
  assumes "\<not> rs_del (au_sessions a)" and "Logout redis_api cfg p now r a = (resp, ck, a')"
  shows "a' = a"
  using assms by (auto simp: Logout_def Let_def redis_api_def redis_Delete_def split: if_splits prod.splits option.splits)

text \<open>C22: a login that the provider confirms succeeds. The browser that started it, returning within ten
  minutes with the provider's code, gets a session; and for the next twelve hours its requests reach the
  handlers with the user and capabilities of the verified tokens if these give read access, and are
  answered 403 otherwise. Other requests may come in between, as long as they do not consume this state,
  log this session out or draw one of the two random keys again, and a reaper tick may come at any time up
  to the expiry. With the sessions in Redis, the server must be reachable for the writes and reads of
  these three requests.\<close>

theorem login_flow_succeeds:
  assumes "\<not> cfg_DevMode cfg" and "auth_token rnd1 = Some state" and "auth_token rnd2 = Some nonce"
    and "auth_token rnd3 = Some sid" and "auth_token rnd4 = Some csrf"
    and "rq_cookie r ''dbm_state'' = Some state" and "rq_query r ''state'' = state" and "t < now + 600"
    and "idp_Exchange p (rq_query r ''code'') verifier = Some tok" and "ot_IDToken tok = Some raw"
    and "idp_Verify p raw = Some \<lparr>id_Nonce = nonce, id_Claims = Some cl\<rparr>"
    and "rq_cookie req cookieName = Some sid" and "later < t + sessionTTL"
    and "u = (token_user p cfg cl (ot_AccessToken tok))\<lparr>u_CSRF := csrf\<rparr>"
  shows "(a1 = auth_after mem_api mem_reap cfg p evs1 (snd (snd (Login mem_api cfg p now rnd1 rnd2 verifier a))) \<and>
      a3 = auth_after mem_api mem_reap cfg p evs2 (snd (snd (Callback mem_api cfg p t rnd3 rnd4 r a1))) \<and>
      list_all (spares (\<le>) (''state:'' @ state) (now + 600)) evs1 \<and> list_all (spares (\<le>) sid (t + sessionTTL)) evs2 \<longrightarrow>
        fst (Callback mem_api cfg p t rnd3 rnd4 r a1) = Redirect ''/'' \<and>
        fst (snd (Callback mem_api cfg p t rnd3 rnd4 r a1)) = [deleted_cookie ''dbm_state'', setCookie sid cfg] \<and>
        Middleware mem_api cfg later rnd5 rnd6 req a3 =
          (if u_Read u then Next u else Forbidden (forbidden_text cfg), [], a3)) \<and>
    (b1 = auth_after redis_api redis_net cfg p evs1' (snd (snd (Login redis_api cfg p now rnd1 rnd2 verifier b))) \<and>
      b3 = auth_after redis_api redis_net cfg p evs2' (snd (snd (Callback redis_api cfg p t rnd3 rnd4 r b1))) \<and>
      list_all (spares (\<lambda>_ _. True) (''state:'' @ state) (now + 600)) evs1' \<and>
      list_all (spares (\<lambda>_ _. True) sid (t + sessionTTL)) evs2' \<and>
      rs_set (au_sessions b) \<and> rs_get (au_sessions b1) \<and> rs_set (au_sessions b1) \<and> rs_get (au_sessions b3) \<longrightarrow>
        fst (Callback redis_api cfg p t rnd3 rnd4 r b1) = Redirect ''/'' \<and>
        fst (snd (Callback redis_api cfg p t rnd3 rnd4 r b1)) = [deleted_cookie ''dbm_state'', setCookie sid cfg] \<and>
        Middleware redis_api cfg later rnd5 rnd6 req b3 =
          (if u_Read u then Next u else Forbidden (forbidden_text cfg), [], b3))"
proof (intro conjI impI; elim conjE)
  note mem_flow = mem.login_flow [OF assms(1-5) _ _ _ _ TrueI TrueI TrueI TrueI assms(6-13), unfolded Let_def assms(14) [symmetric]]
    and redis_flow = redis.login_flow [OF assms(1-5) _ _ _ _ _ _ _ _ assms(6-13), unfolded Let_def assms(14) [symmetric]]
  {
    assume h: "a1 = auth_after mem_api mem_reap cfg p evs1 (snd (snd (Login mem_api cfg p now rnd1 rnd2 verifier a)))"
      "a3 = auth_after mem_api mem_reap cfg p evs2 (snd (snd (Callback mem_api cfg p t rnd3 rnd4 r a1)))"
      "list_all (spares (\<le>) (''state:'' @ state) (now + 600)) evs1" "list_all (spares (\<le>) sid (t + sessionTTL)) evs2"
    note flow = mem_flow [OF h, where ?rnd5.0 = rnd5 and ?rnd6.0 = rnd6]
    show "fst (Callback mem_api cfg p t rnd3 rnd4 r a1) = Redirect ''/''" using flow by (rule conjunct1)
    show "fst (snd (Callback mem_api cfg p t rnd3 rnd4 r a1)) = [deleted_cookie ''dbm_state'', setCookie sid cfg]"
      using flow by (elim conjE)
    show "Middleware mem_api cfg later rnd5 rnd6 req a3 = (if u_Read u then Next u else Forbidden (forbidden_text cfg), [], a3)"
      using flow by (elim conjE)
  next
    assume h: "b1 = auth_after redis_api redis_net cfg p evs1' (snd (snd (Login redis_api cfg p now rnd1 rnd2 verifier b)))"
      "b3 = auth_after redis_api redis_net cfg p evs2' (snd (snd (Callback redis_api cfg p t rnd3 rnd4 r b1)))"
      "list_all (spares (\<lambda>_ _. True) (''state:'' @ state) (now + 600)) evs1'"
      "list_all (spares (\<lambda>_ _. True) sid (t + sessionTTL)) evs2'"
      "rs_set (au_sessions b)" "rs_get (au_sessions b1)" "rs_set (au_sessions b1)" "rs_get (au_sessions b3)"
    note flow = redis_flow [OF h, where ?rnd5.0 = rnd5 and ?rnd6.0 = rnd6]
    show "fst (Callback redis_api cfg p t rnd3 rnd4 r b1) = Redirect ''/''" using flow by (rule conjunct1)
    show "fst (snd (Callback redis_api cfg p t rnd3 rnd4 r b1)) = [deleted_cookie ''dbm_state'', setCookie sid cfg]"
      using flow by (elim conjE)
    show "Middleware redis_api cfg later rnd5 rnd6 req b3 = (if u_Read u then Next u else Forbidden (forbidden_text cfg), [], b3)"
      using flow by (elim conjE)
  }
qed

theorem login_flow_succeeds_witness:
  "Middleware mem_api demo_cfg 2 None None demo_req
     (auth_after mem_api mem_reap demo_cfg demo_idp [EvEnv 2] (demo_in mem_api newMemSessionStore))
     = (Next demo_user, [], auth_after mem_api mem_reap demo_cfg demo_idp [EvEnv 2] (demo_in mem_api newMemSessionStore)) \<and>
   Middleware redis_api demo_cfg 2 None None demo_req (demo_in redis_api redis_start)
     = (Next demo_user, [], demo_in redis_api redis_start)"
proof -
  let ?a1 = "demo_login mem_api newMemSessionStore" and ?b1 = "demo_login redis_api redis_start"
  let ?a3 = "auth_after mem_api mem_reap demo_cfg demo_idp [EvEnv 2] (demo_in mem_api newMemSessionStore)"
  have hyps: "(1::int) < 0 + 600" "ot_IDToken \<lparr>ot_IDToken = Some ''raw'', ot_AccessToken = []\<rparr> = Some ''raw''"
    "(2::int) < 1 + sessionTTL"
    and demo: "demo_user = (token_user demo_idp demo_cfg demo_claims (ot_AccessToken \<lparr>ot_IDToken = Some ''raw'', ot_AccessToken = []\<rparr>))\<lparr>u_CSRF := zeros\<rparr>"
    by (simp_all add: sessionTTL_def demo_user_def)
  note flow = login_flow_succeeds [OF demo_cfg_dev auth_token_zeros auth_token_zeros auth_token_zeros auth_token_zeros
      demo_request(1,2) hyps(1) demo_request(4) hyps(2) demo_request(5,3) hyps(3) demo, where ?rnd5.0 = None and ?rnd6.0 = None]
  have nil: "auth_after S tick cfg p [] a = a" for S tick cfg p and a :: "'st auth_state" by (simp add: auth_after_def)
  have mem: "?a1 = auth_after mem_api mem_reap demo_cfg demo_idp []
      (snd (snd (Login mem_api demo_cfg demo_idp 0 (Some []) (Some []) ''v'' \<lparr>au_sessions = newMemSessionStore, au_audit = []\<rparr>))) \<and>
     ?a3 = auth_after mem_api mem_reap demo_cfg demo_idp [EvEnv 2] (snd (snd (Callback mem_api demo_cfg demo_idp 1 (Some []) (Some []) demo_req ?a1))) \<and>
     list_all (spares (\<le>) (''state:'' @ zeros) (0 + 600)) [] \<and> list_all (spares (\<le>) zeros (1 + sessionTTL)) [EvEnv 2]"
    by (simp add: demo_login_def demo_in_def nil spares_def sessionTTL_def)
  have redis: "?b1 = auth_after redis_api redis_net demo_cfg demo_idp []
      (snd (snd (Login redis_api demo_cfg demo_idp 0 (Some []) (Some []) ''v'' \<lparr>au_sessions = redis_start, au_audit = []\<rparr>))) \<and>
     demo_in redis_api redis_start = auth_after redis_api redis_net demo_cfg demo_idp [] (snd (snd (Callback redis_api demo_cfg demo_idp 1 (Some []) (Some []) demo_req ?b1))) \<and>
     list_all (spares (\<lambda>_ _. True) (''state:'' @ zeros) (0 + 600)) [] \<and> list_all (spares (\<lambda>_ _. True) zeros (1 + sessionTTL)) [] \<and>
     rs_set (au_sessions \<lparr>au_sessions = redis_start, au_audit = []\<rparr>) \<and> rs_get (au_sessions ?b1) \<and> rs_set (au_sessions ?b1) \<and>
     rs_get (au_sessions (demo_in redis_api redis_start))"
    using redis_flags by (simp add: demo_login_def demo_in_def nil)
  have read: "u_Read demo_user" by (simp add: demo_user_def demo_user_read)
  have "Middleware mem_api demo_cfg 2 None None demo_req ?a3 = (Next demo_user, [], ?a3)"
    using mp [OF conjunct1 [OF flow] mem] read by presburger
  moreover have "Middleware redis_api demo_cfg 2 None None demo_req (demo_in redis_api redis_start)
     = (Next demo_user, [], demo_in redis_api redis_start)"
    using mp [OF conjunct2 [OF flow] redis] read by presburger
  ultimately show ?thesis by blast
qed

end
