(* ===== verification/Regexp.thy ===== *)
theory Regexp
  imports Prelude
begin

text \<open>
  The part of Go's package \<^verbatim>\<open>regexp\<close> that the sources use: compiled patterns as a datatype, the
  leftmost-first matcher, \<^verbatim>\<open>MatchString\<close> and \<^verbatim>\<open>ReplaceAllString\<close>. A pattern is matched at a
  position of the text, kept as the pair of the text before it (reversed) and the text after it,
  so that \<^verbatim>\<open>\b\<close> and \<^verbatim>\<open>^\<close> can look at both sides. \<open>rmatch\<close> lists every way to match in the order
  of preference of a backtracking matcher, which is the order RE2 reproduces; the first entry is
  the match that \<^verbatim>\<open>regexp\<close> reports.

  The relation \<open>rmatches\<close> is the declarative meaning of a pattern; \<open>rmatch_iff\<close> proves that the
  matcher finds exactly the matches of that relation, so that a component can reason about a
  pattern without unfolding the matcher. The flag \<^verbatim>\<open>(?i)\<close> is the choice of \<open>ci\<close> for literals, \<^verbatim>\<open>(?s)\<close>
  the choice of \<open>any\<close> for the dot, \<^verbatim>\<open>(?m)\<close> the choice of \<open>BeginLine\<close> for the caret.
\<close>

datatype re =
    Chr "char \<Rightarrow> bool"
  | WordB
  | BeginText
  | EndText
  | BeginLine
  | Seq re re
  | Alt re re
  | Star re
  | LazyStar re
  | Group nat re

type_synonym position = "string \<times> string"
type_synonym captures = "(nat \<times> string) list"

fun word_at :: "string \<Rightarrow> bool" where
  "word_at [] = False"
| "word_at (c # _) = is_word c"

text \<open>The text between two positions of one input.\<close>

definition between :: "string \<Rightarrow> string \<Rightarrow> string" where
  "between pre pre' = rev (take (length pre' - length pre) pre')"

function rmatch :: "re \<Rightarrow> position \<Rightarrow> captures \<Rightarrow> (position \<times> captures) list" where
  "rmatch (Chr p) (pre, post) cs =
     (case post of [] \<Rightarrow> [] | c # t \<Rightarrow> (if p c then [((c # pre, t), cs)] else []))"
| "rmatch WordB (pre, post) cs = (if word_at pre \<noteq> word_at post then [((pre, post), cs)] else [])"
| "rmatch BeginText (pre, post) cs = (if pre = [] then [((pre, post), cs)] else [])"
| "rmatch EndText (pre, post) cs = (if post = [] then [((pre, post), cs)] else [])"
| "rmatch BeginLine (pre, post) cs =
     (if pre = [] \<or> hd pre = NL then [((pre, post), cs)] else [])"
| "rmatch (Seq r1 r2) q cs = concat (map (\<lambda>(q', cs'). rmatch r2 q' cs') (rmatch r1 q cs))"
| "rmatch (Alt r1 r2) q cs = rmatch r1 q cs @ rmatch r2 q cs"
| "rmatch (Star r) q cs =
     concat (map (\<lambda>(q', cs'). if length (snd q') < length (snd q) then rmatch (Star r) q' cs' else [])
       (rmatch r q cs)) @ [(q, cs)]"
| "rmatch (LazyStar r) q cs =
     (q, cs) # concat (map (\<lambda>(q', cs'). if length (snd q') < length (snd q)
                                        then rmatch (LazyStar r) q' cs' else []) (rmatch r q cs))"
| "rmatch (Group n r) q cs =
     map (\<lambda>(q', cs'). (q', (n, between (fst q) (fst q')) # cs')) (rmatch r q cs)"
  by pat_completeness auto
termination
  by (relation "measures [\<lambda>(r, _, _). size r, \<lambda>(_, q, _). length (snd q)]") auto

declare rmatch.simps(8,9) [simp del]

fun find_from :: "re \<Rightarrow> string \<Rightarrow> string \<Rightarrow> (position \<times> captures) option" where
  "find_from r pre [] = (case rmatch r (pre, []) [] of [] \<Rightarrow> None | m # _ \<Rightarrow> Some m)"
| "find_from r pre (c # t) =
     (case rmatch r (pre, c # t) [] of [] \<Rightarrow> find_from r (c # pre) t | m # _ \<Rightarrow> Some m)"

definition MatchString :: "re \<Rightarrow> string \<Rightarrow> bool" where
  "MatchString r s \<longleftrightarrow> find_from r [] s \<noteq> None"

text \<open>
  \<^verbatim>\<open>ReplaceAllString\<close>: scan from the left, replace each match by the expanded template and go on
  after it; a match of the empty text is followed by one byte copied from the input.
\<close>

function replace_from :: "re \<Rightarrow> (captures \<Rightarrow> string) \<Rightarrow> string \<Rightarrow> string \<Rightarrow> string" where
  "replace_from r tmpl pre post =
     (case rmatch r (pre, post) [] of
        [] \<Rightarrow> (case post of [] \<Rightarrow> [] | c # t \<Rightarrow> c # replace_from r tmpl (c # pre) t)
      | ((pre', post'), cs) # _ \<Rightarrow>
          (if length post' < length post then tmpl cs @ replace_from r tmpl pre' post'
           else tmpl cs @ (case post of [] \<Rightarrow> [] | c # t \<Rightarrow> c # replace_from r tmpl (c # pre) t)))"
  by pat_completeness auto
termination
  by (relation "measure (\<lambda>(_, _, _, post). length post)") auto

declare replace_from.simps [simp del]

definition ReplaceAllString :: "re \<Rightarrow> string \<Rightarrow> (captures \<Rightarrow> string) \<Rightarrow> string" where
  "ReplaceAllString r s tmpl = replace_from r tmpl [] s"

definition cap :: "captures \<Rightarrow> nat \<Rightarrow> string" where
  "cap cs n = (case map_of cs n of None \<Rightarrow> [] | Some s \<Rightarrow> s)"

section \<open>Pattern builders\<close>

definition eps :: re where "eps = Star (Chr (\<lambda>_. False))"
definition any :: re where "any = Chr (\<lambda>_. True)"
definition ch :: "char \<Rightarrow> re" where "ch c = Chr (\<lambda>x. x = c)"
definition notch :: "char \<Rightarrow> re" where "notch c = Chr (\<lambda>x. x \<noteq> c)"
definition ci :: "char \<Rightarrow> re" where "ci c = Chr (\<lambda>x. lower_char x = c)"
text \<open>\<^verbatim>\<open>\s\<close> of RE2 is space, tab, newline, form feed and carriage return: no vertical tab.\<close>

definition re_space :: "char \<Rightarrow> bool" where "re_space c \<longleftrightarrow> is_space c \<and> c \<noteq> CHR 0x0B"
definition ws :: re where "ws = Chr re_space"
definition nonws :: re where "nonws = Chr (\<lambda>x. \<not> re_space x)"
definition plus :: "re \<Rightarrow> re" where "plus r = Seq r (Star r)"
definition opt :: "re \<Rightarrow> re" where "opt r = Alt r eps"

fun lit_ci :: "string \<Rightarrow> re" where
  "lit_ci [] = eps"
| "lit_ci [c] = ci c"
| "lit_ci (c # d # s) = Seq (ci c) (lit_ci (d # s))"

fun seqs :: "re list \<Rightarrow> re" where
  "seqs [] = eps"
| "seqs [r] = r"
| "seqs (r # r' # rs) = Seq r (seqs (r' # rs))"

fun alts :: "re list \<Rightarrow> re" where
  "alts [] = Chr (\<lambda>_. False)"
| "alts [r] = r"
| "alts (r # r' # rs) = Alt r (alts (r' # rs))"

text \<open>\<^verbatim>\<open>\bword\b\<close>, without regard to case.\<close>

definition word_ci :: "string \<Rightarrow> re" where
  "word_ci w = seqs [WordB, lit_ci w, WordB]"

lemmas [go_strings] = between_def MatchString_def ReplaceAllString_def cap_def eps_def any_def
  ch_def notch_def ci_def re_space_def ws_def nonws_def plus_def opt_def word_ci_def rmatch.simps(8,9)

section \<open>The declarative meaning of a pattern\<close>

text \<open>\<open>rmatches r pre u post\<close>: \<open>r\<close> matches the text \<open>u\<close> that stands between \<open>pre\<close> (reversed) and \<open>post\<close>.\<close>

inductive rmatches :: "re \<Rightarrow> string \<Rightarrow> string \<Rightarrow> string \<Rightarrow> bool" where
  m_chr: "p c \<Longrightarrow> rmatches (Chr p) pre [c] post"
| m_wordb: "word_at pre \<noteq> word_at post \<Longrightarrow> rmatches WordB pre [] post"
| m_bot: "rmatches BeginText [] [] post"
| m_eot: "rmatches EndText pre [] []"
| m_bol: "pre = [] \<or> hd pre = NL \<Longrightarrow> rmatches BeginLine pre [] post"
| m_seq: "rmatches r1 pre u (v @ post) \<Longrightarrow> rmatches r2 (rev u @ pre) v post \<Longrightarrow>
     rmatches (Seq r1 r2) pre (u @ v) post"
| m_alt1: "rmatches r1 pre u post \<Longrightarrow> rmatches (Alt r1 r2) pre u post"
| m_alt2: "rmatches r2 pre u post \<Longrightarrow> rmatches (Alt r1 r2) pre u post"
| m_star0: "rmatches (Star r) pre [] post"
| m_star1: "rmatches r pre u (v @ post) \<Longrightarrow> u \<noteq> [] \<Longrightarrow> rmatches (Star r) (rev u @ pre) v post \<Longrightarrow>
     rmatches (Star r) pre (u @ v) post"
| m_lazy0: "rmatches (LazyStar r) pre [] post"
| m_lazy1: "rmatches r pre u (v @ post) \<Longrightarrow> u \<noteq> [] \<Longrightarrow> rmatches (LazyStar r) (rev u @ pre) v post \<Longrightarrow>
     rmatches (LazyStar r) pre (u @ v) post"
| m_group: "rmatches r pre u post \<Longrightarrow> rmatches (Group n r) pre u post"

inductive_simps rmatches_Chr: "rmatches (Chr p) pre u post"
inductive_simps rmatches_WordB: "rmatches WordB pre u post"
inductive_simps rmatches_BeginText: "rmatches BeginText pre u post"
inductive_simps rmatches_EndText: "rmatches EndText pre u post"
inductive_simps rmatches_BeginLine: "rmatches BeginLine pre u post"
inductive_simps rmatches_Seq: "rmatches (Seq r1 r2) pre u post"
inductive_simps rmatches_Alt: "rmatches (Alt r1 r2) pre u post"
inductive_simps rmatches_Group: "rmatches (Group n r) pre u post"
inductive_cases rmatches_StarE: "rmatches (Star r) pre u post"
inductive_cases rmatches_LazyStarE: "rmatches (LazyStar r) pre u post"

lemmas rmatches_simps = rmatches_Chr rmatches_WordB rmatches_BeginText rmatches_EndText
  rmatches_BeginLine rmatches_Seq rmatches_Alt rmatches_Group

section \<open>The matcher finds exactly the matches of the relation\<close>

lemma rmatch_sound:
  "((pre', post'), cs') \<in> set (rmatch r (pre, post) cs) \<Longrightarrow>
     \<exists>u. post = u @ post' \<and> pre' = rev u @ pre \<and> rmatches r pre u post'"
proof (induction r "(pre, post)" cs arbitrary: pre post pre' post' cs' rule: rmatch.induct)
  case (6 r1 r2 cs pre post)
  then obtain p1 q1 c1 where 1: "((p1, q1), c1) \<in> set (rmatch r1 (pre, post) cs)"
    and 2: "((pre', post'), cs') \<in> set (rmatch r2 (p1, q1) c1)" by auto
  from "6.hyps"(1) [OF 1] obtain u where "post = u @ q1" "p1 = rev u @ pre" "rmatches r1 pre u q1"
    by blast
  moreover from "6.hyps"(2) [OF 1 refl 2] obtain v
    where "q1 = v @ post'" "pre' = rev v @ p1" "rmatches r2 p1 v post'" by blast
  ultimately show ?case by (auto intro: rmatches.m_seq intro!: exI [of _ "u @ v"])
next
  case (8 r cs pre post)
  then consider "pre' = pre \<and> post' = post"
    | p1 q1 c1 where "((p1, q1), c1) \<in> set (rmatch r (pre, post) cs)" "length q1 < length post"
        "((pre', post'), cs') \<in> set (rmatch (Star r) (p1, q1) c1)"
    by (auto simp: rmatch.simps(8) [of r "(pre, post)" cs] split: if_splits)
  then show ?case
  proof cases
    case 1
    then show ?thesis by (auto intro: rmatches.m_star0)
  next
    case 2
    from "8.hyps"(1) [OF 2(1)] obtain u
      where u: "post = u @ q1" "p1 = rev u @ pre" "rmatches r pre u q1" by blast
    from "8.hyps"(2) [OF 2(1) refl _ 2(3)] 2(2) obtain v
      where v: "q1 = v @ post'" "pre' = rev v @ p1" "rmatches (Star r) p1 v post'" by auto
    from u 2(2) have "u \<noteq> []" by auto
    with u v show ?thesis by (auto intro: rmatches.m_star1 intro!: exI [of _ "u @ v"])
  qed
next
  case (9 r cs pre post)
  then consider "pre' = pre \<and> post' = post"
    | p1 q1 c1 where "((p1, q1), c1) \<in> set (rmatch r (pre, post) cs)" "length q1 < length post"
        "((pre', post'), cs') \<in> set (rmatch (LazyStar r) (p1, q1) c1)"
    by (auto simp: rmatch.simps(9) [of r "(pre, post)" cs] split: if_splits)
  then show ?case
  proof cases
    case 1
    then show ?thesis by (auto intro: rmatches.m_lazy0)
  next
    case 2
    from "9.hyps"(1) [OF 2(1)] obtain u
      where u: "post = u @ q1" "p1 = rev u @ pre" "rmatches r pre u q1" by blast
    from "9.hyps"(2) [OF 2(1) refl _ 2(3)] 2(2) obtain v
      where v: "q1 = v @ post'" "pre' = rev v @ p1" "rmatches (LazyStar r) p1 v post'" by auto
    from u 2(2) have "u \<noteq> []" by auto
    with u v show ?thesis by (auto intro: rmatches.m_lazy1 intro!: exI [of _ "u @ v"])
  qed
next
  case (7 r1 r2 cs pre post)
  then consider "((pre', post'), cs') \<in> set (rmatch r1 (pre, post) cs)"
    | "((pre', post'), cs') \<in> set (rmatch r2 (pre, post) cs)" by auto
  then show ?case
    by cases (blast intro: rmatches.m_alt1 rmatches.m_alt2 dest: "7.hyps")+
next
  case (10 n r cs pre post)
  then obtain c where "((pre', post'), c) \<in> set (rmatch r (pre, post) cs)" by auto
  from "10.hyps" [OF this] show ?case by (blast intro: rmatches.m_group)
qed (auto intro: rmatches.intros split: list.splits if_splits)

lemma rmatch_complete:
  "rmatches r pre u post \<Longrightarrow> \<exists>cs'. ((rev u @ pre, post), cs') \<in> set (rmatch r (pre, u @ post) cs)"
proof (induction arbitrary: cs rule: rmatches.induct)
  case (m_seq r1 pre u v post r2)
  obtain c1 where 1: "((rev u @ pre, v @ post), c1) \<in> set (rmatch r1 (pre, u @ v @ post) cs)"
    using m_seq.IH(1) by blast
  obtain c2 where "((rev v @ rev u @ pre, post), c2) \<in> set (rmatch r2 (rev u @ pre, v @ post) c1)"
    using m_seq.IH(2) by blast
  with 1 show ?case by force
next
  case (m_star1 r pre u v post)
  obtain c1 where 1: "((rev u @ pre, v @ post), c1) \<in> set (rmatch r (pre, u @ v @ post) cs)"
    using m_star1.IH(1) by blast
  obtain c2 where 2: "((rev v @ rev u @ pre, post), c2) \<in> set (rmatch (Star r) (rev u @ pre, v @ post) c1)"
    using m_star1.IH(2) by blast
  from m_star1.hyps have "length (v @ post) < length (u @ v @ post)" by simp
  with 1 2 show ?case by (force simp: rmatch.simps(8) [of r "(pre, _)"])
next
  case (m_lazy1 r pre u v post)
  obtain c1 where 1: "((rev u @ pre, v @ post), c1) \<in> set (rmatch r (pre, u @ v @ post) cs)"
    using m_lazy1.IH(1) by blast
  obtain c2 where 2: "((rev v @ rev u @ pre, post), c2) \<in> set (rmatch (LazyStar r) (rev u @ pre, v @ post) c1)"
    using m_lazy1.IH(2) by blast
  from m_lazy1.hyps have "length (v @ post) < length (u @ v @ post)" by simp
  with 1 2 show ?case by (force simp: rmatch.simps(9) [of r "(pre, _)"])
next
  case (m_star0 r pre post)
  show ?case by (auto simp: rmatch.simps(8) [of r "(pre, post)" cs])
next
  case (m_lazy0 r pre post)
  show ?case by (auto simp: rmatch.simps(9) [of r "(pre, post)" cs])
next
  case (m_group r pre u post n)
  then obtain c where "((rev u @ pre, post), c) \<in> set (rmatch r (pre, u @ post) cs)" by blast
  from imageI [OF this, of "\<lambda>(q', cs'). (q', (n, between pre (fst q')) # cs')"] show ?case by auto
next
  case (m_alt1 r1 pre u post r2)
  then obtain c where "((rev u @ pre, post), c) \<in> set (rmatch r1 (pre, u @ post) cs)" by blast
  then show ?case by auto
next
  case (m_alt2 r2 pre u post r1)
  then obtain c where "((rev u @ pre, post), c) \<in> set (rmatch r2 (pre, u @ post) cs)" by blast
  then show ?case by auto
qed auto

lemma rmatch_Nil_iff: "rmatch r (pre, post) cs = [] \<longleftrightarrow> (\<nexists>u v. post = u @ v \<and> rmatches r pre u v)"
proof
  assume "rmatch r (pre, post) cs = []"
  then show "\<nexists>u v. post = u @ v \<and> rmatches r pre u v"
    using rmatch_complete [of r pre _ _ cs] by fastforce
next
  assume none: "\<nexists>u v. post = u @ v \<and> rmatches r pre u v"
  show "rmatch r (pre, post) cs = []"
  proof (rule ccontr)
    assume "rmatch r (pre, post) cs \<noteq> []"
    then obtain pre' post' cs' where "((pre', post'), cs') \<in> set (rmatch r (pre, post) cs)"
      by (metis list.set_intros(1) neq_Nil_conv surj_pair)
    from rmatch_sound [OF this] none show False by blast
  qed
qed

lemma find_from_iff:
  "find_from r pre post \<noteq> None \<longleftrightarrow>
     (\<exists>x u y. post = x @ u @ y \<and> rmatches r (rev x @ pre) u y)"
proof (induction r pre post rule: find_from.induct)
  case (1 r pre)
  then show ?case
    using rmatch_Nil_iff [of r pre "[]" "[]"] by (auto split: list.splits)
next
  case (2 r pre c t)
  show ?case
  proof (cases "rmatch r (pre, c # t) []")
    case Nil
    have "(\<exists>x u y. c # t = x @ u @ y \<and> rmatches r (rev x @ pre) u y) \<longleftrightarrow>
        (\<exists>x u y. t = x @ u @ y \<and> rmatches r (rev x @ c # pre) u y)" (is "?L \<longleftrightarrow> ?R")
    proof
      assume ?L
      then obtain x u y where x: "c # t = x @ u @ y" "rmatches r (rev x @ pre) u y" by blast
      with Nil [unfolded rmatch_Nil_iff] have "x \<noteq> []" by auto
      with x show ?R by (cases x) auto
    next
      assume ?R
      then obtain x u y where "t = x @ u @ y" "rmatches r (rev (c # x) @ pre) u y" by auto
      then show ?L by (metis append_Cons)
    qed
    with 2 [OF Nil] Nil show ?thesis by simp
  next
    case (Cons m ms)
    then have "\<exists>u v. c # t = u @ v \<and> rmatches r pre u v"
      using rmatch_Nil_iff [of r pre "c # t" "[]"] by simp
    then have "\<exists>x u y. c # t = x @ u @ y \<and> rmatches r (rev x @ pre) u y"
      by (metis append_Nil rev.simps(1))
    with Cons show ?thesis by simp
  qed
qed

theorem MatchString_iff:
  "MatchString r s \<longleftrightarrow> (\<exists>x u y. s = x @ u @ y \<and> rmatches r (rev x) u y)"
  using find_from_iff [of r "[]" s] by (simp add: MatchString_def)

section \<open>Rules for the pattern builders\<close>

lemma rmatches_Star_Chr: "rmatches (Star (Chr p)) pre u post \<longleftrightarrow> list_all p u"
proof
  show "rmatches (Star (Chr p)) pre u post \<Longrightarrow> list_all p u"
    by (induction "Star (Chr p)" pre u post rule: rmatches.induct) (auto simp: rmatches_Chr)
next
  show "list_all p u \<Longrightarrow> rmatches (Star (Chr p)) pre u post"
  proof (induction u arbitrary: pre)
    case Nil
    show ?case by (rule rmatches.m_star0)
  next
    case (Cons c u)
    then have "rmatches (Star (Chr p)) pre ([c] @ u) post"
      by (intro rmatches.m_star1) (auto simp: rmatches_Chr)
    then show ?case by simp
  qed
qed

lemma rmatches_eps [simp]: "rmatches eps pre u post \<longleftrightarrow> u = []"
  by (cases u) (auto simp: eps_def rmatches_Star_Chr)

lemma rmatches_any [simp]: "rmatches any pre u post \<longleftrightarrow> (\<exists>c. u = [c])"
  by (simp add: any_def rmatches_Chr)

lemma rmatches_ch [simp]: "rmatches (ch c) pre u post \<longleftrightarrow> u = [c]"
  by (auto simp: ch_def rmatches_Chr)

lemma rmatches_notch [simp]: "rmatches (notch c) pre u post \<longleftrightarrow> (\<exists>d. u = [d] \<and> d \<noteq> c)"
  by (auto simp: notch_def rmatches_Chr)

lemma rmatches_ws [simp]: "rmatches ws pre u post \<longleftrightarrow> (\<exists>c. u = [c] \<and> re_space c)"
  by (simp add: ws_def rmatches_Chr)

lemma rmatches_Star_ws [simp]: "rmatches (Star ws) pre u post \<longleftrightarrow> list_all re_space u"
  by (simp add: ws_def rmatches_Star_Chr)

lemma rmatches_Star_notch [simp]: "rmatches (Star (notch c)) pre u post \<longleftrightarrow> c \<notin> set u"
  by (auto simp: notch_def rmatches_Star_Chr list_all_iff)

lemma rmatches_Seq_Chr:
  "rmatches (Seq (Chr p) r) pre u post \<longleftrightarrow> (\<exists>c v. u = c # v \<and> p c \<and> rmatches r (c # pre) v post)"
proof
  assume "rmatches (Seq (Chr p) r) pre u post"
  then show "\<exists>c v. u = c # v \<and> p c \<and> rmatches r (c # pre) v post"
    by (auto simp: rmatches_Seq rmatches_Chr)
next
  assume "\<exists>c v. u = c # v \<and> p c \<and> rmatches r (c # pre) v post"
  then obtain c v where u: "u = [c] @ v" and "p c" and "rmatches r (rev [c] @ pre) v post" by auto
  then have "rmatches (Seq (Chr p) r) pre ([c] @ v) post"
    by (intro rmatches.m_seq rmatches.m_chr)
  then show "rmatches (Seq (Chr p) r) pre u post" by (simp add: u)
qed

lemma rmatches_plus_Chr: "rmatches (plus (Chr p)) pre u post \<longleftrightarrow> u \<noteq> [] \<and> list_all p u"
  by (cases u) (auto simp: plus_def rmatches_Seq_Chr rmatches_Star_Chr)

lemma rmatches_plus_ws [simp]: "rmatches (plus ws) pre u post \<longleftrightarrow> u \<noteq> [] \<and> list_all re_space u"
  by (simp add: ws_def rmatches_plus_Chr)

lemma ToLower_eq_Cons: "ToLower u = c # s \<longleftrightarrow> (\<exists>d v. u = d # v \<and> lower_char d = c \<and> ToLower v = s)"
  by (auto simp: ToLower_def Cons_eq_map_conv map_eq_Cons_conv)

lemma rmatches_lit_ci [simp]: "rmatches (lit_ci w) pre u post \<longleftrightarrow> ToLower u = w"
proof (induction w arbitrary: pre u rule: lit_ci.induct)
  case 1
  show ?case by (auto simp: ToLower_def)
next
  case (2 c)
  show ?case by (auto simp: ci_def rmatches_Chr ToLower_def)
next
  case (3 c d s)
  show ?case
    unfolding lit_ci.simps ci_def rmatches_Seq_Chr "3"
    by (auto simp: ToLower_def map_eq_Cons_conv)
qed

section \<open>Word boundaries\<close>

text \<open>The word \<open>w\<close> (in lower case) stands in \<open>s\<close>, delimited by the ends or by non-word bytes.\<close>

definition has_word :: "string \<Rightarrow> string \<Rightarrow> bool" where
  "has_word w s \<longleftrightarrow> (\<exists>x u y. s = x @ u @ y \<and> ToLower u = w \<and> \<not> word_at (rev x) \<and> \<not> word_at y)"

definition word_lit :: "string \<Rightarrow> bool" where
  "word_lit w \<longleftrightarrow> w \<noteq> [] \<and> list_all is_word w"

lemma rmatches_WordB_Seq [simp]:
  "rmatches (Seq WordB r) pre u post \<longleftrightarrow> word_at pre \<noteq> word_at (u @ post) \<and> rmatches r pre u post"
proof
  assume "rmatches (Seq WordB r) pre u post"
  then show "word_at pre \<noteq> word_at (u @ post) \<and> rmatches r pre u post"
    by (auto simp: rmatches_Seq rmatches_WordB)
next
  assume "word_at pre \<noteq> word_at (u @ post) \<and> rmatches r pre u post"
  then have "rmatches (Seq WordB r) pre ([] @ u) post"
    by (intro rmatches.m_seq rmatches.m_wordb) auto
  then show "rmatches (Seq WordB r) pre u post" by simp
qed

lemma rmatches_Seq_WordB [simp]:
  "rmatches (Seq r WordB) pre u post \<longleftrightarrow> rmatches r pre u post \<and> word_at (rev u @ pre) \<noteq> word_at post"
proof
  assume "rmatches (Seq r WordB) pre u post"
  then show "rmatches r pre u post \<and> word_at (rev u @ pre) \<noteq> word_at post"
    by (auto simp: rmatches_Seq rmatches_WordB)
next
  assume "rmatches r pre u post \<and> word_at (rev u @ pre) \<noteq> word_at post"
  then have "rmatches (Seq r WordB) pre (u @ []) post"
    by (intro rmatches.m_seq rmatches.m_wordb) auto
  then show "rmatches (Seq r WordB) pre u post" by simp
qed

lemma rmatches_BeginText_Seq [simp]:
  "rmatches (Seq BeginText r) pre u post \<longleftrightarrow> pre = [] \<and> rmatches r [] u post"
proof
  assume "rmatches (Seq BeginText r) pre u post"
  then show "pre = [] \<and> rmatches r [] u post"
    by (auto simp: rmatches_Seq rmatches_BeginText)
next
  assume "pre = [] \<and> rmatches r [] u post"
  then have "rmatches (Seq BeginText r) pre ([] @ u) post"
    by (intro rmatches.m_seq) (auto simp: rmatches_BeginText)
  then show "rmatches (Seq BeginText r) pre u post" by simp
qed

lemma ToLower_word_lit:
  assumes "ToLower u = w" and "word_lit w"
  shows "u \<noteq> []" and "list_all is_word u"
proof -
  from assms show "u \<noteq> []" by (auto simp: word_lit_def ToLower_def)
  from assms have "list_all is_word (map lower_char u)" by (simp add: word_lit_def ToLower_def)
  then show "list_all is_word u" by (simp add: list.pred_map comp_def)
qed

lemma word_at_append: "u \<noteq> [] \<Longrightarrow> list_all is_word u \<Longrightarrow> word_at (u @ t)"
  by (cases u) auto

lemma word_at_rev_append: "u \<noteq> [] \<Longrightarrow> list_all is_word u \<Longrightarrow> word_at (rev u @ t)"
  by (rule word_at_append) (auto simp: list_all_iff)

theorem MatchString_word_ci:
  assumes "word_lit w"
  shows "MatchString (word_ci w) s \<longleftrightarrow> has_word w s"
proof -
  have "rmatches (word_ci w) (rev x) u y \<longleftrightarrow> ToLower u = w \<and> \<not> word_at (rev x) \<and> \<not> word_at y" for x u y
  proof (cases "ToLower u = w")
    case True
    note u = ToLower_word_lit [OF True assms]
    then have "word_at (u @ y)" "word_at (rev u @ rev x)"
      by (auto intro: word_at_append word_at_rev_append)
    with True show ?thesis by (auto simp: word_ci_def)
  next
    case False
    then show ?thesis by (simp add: word_ci_def)
  qed
  then show ?thesis by (simp add: MatchString_iff has_word_def)
qed

lemma has_word_middle:
  "has_word w s \<Longrightarrow> \<not> word_at (rev a) \<or> \<not> word_at s \<Longrightarrow> \<not> word_at b \<or> \<not> word_at (rev s) \<Longrightarrow>
     word_lit w \<Longrightarrow> has_word w (a @ s @ b)"
proof -
  assume "has_word w s" and a: "\<not> word_at (rev a) \<or> \<not> word_at s"
    and b: "\<not> word_at b \<or> \<not> word_at (rev s)" and w: "word_lit w"
  then obtain x u y where s: "s = x @ u @ y" "ToLower u = w" "\<not> word_at (rev x)" "\<not> word_at y"
    by (auto simp: has_word_def)
  note u = ToLower_word_lit [OF s(2) w]
  have "\<not> word_at (rev (a @ x))"
    using a s word_at_append [OF u, of y] by (cases "rev x") auto
  moreover have "\<not> word_at (y @ b)"
    using b s word_at_rev_append [OF u, of "rev x"] by (cases y) auto
  ultimately show "has_word w (a @ s @ b)"
    unfolding has_word_def using s
    by (intro exI [of _ "a @ x"] exI [of _ u] exI [of _ "y @ b"]) simp
qed

section \<open>Replacement\<close>

text \<open>A text with no match of the pattern is copied.\<close>

lemma replace_from_none:
  "\<nexists>x u y. post = x @ u @ y \<and> rmatches r (rev x @ pre) u y \<Longrightarrow> replace_from r tmpl pre post = post"
proof (induction post arbitrary: pre)
  case Nil
  then have "rmatch r (pre, []) [] = []" by (auto simp: rmatch_Nil_iff)
  then show ?case by (simp add: replace_from.simps)
next
  case (Cons c t)
  have "rmatch r (pre, c # t) [] = []"
    unfolding rmatch_Nil_iff using Cons.prems by (metis append_Nil rev.simps(1))
  moreover have "replace_from r tmpl (c # pre) t = t"
  proof (rule Cons.IH, rule notI)
    assume "\<exists>x u y. t = x @ u @ y \<and> rmatches r (rev x @ c # pre) u y"
    then obtain x u y where "t = x @ u @ y" "rmatches r (rev (c # x) @ pre) u y" by auto
    then show False using Cons.prems by (metis append_Cons)
  qed
  ultimately show ?case by (simp add: replace_from.simps [of r tmpl pre])
qed

lemma ReplaceAllString_none: "\<not> MatchString r s \<Longrightarrow> ReplaceAllString r s tmpl = s"
  using replace_from_none [of s r "[]" tmpl] by (simp add: ReplaceAllString_def MatchString_iff)

text \<open>A step over a byte where no match starts, and the step over the first match.\<close>

lemma replace_from_skip:
  "rmatch r (pre, c # t) [] = [] \<Longrightarrow>
     replace_from r tmpl pre (c # t) = c # replace_from r tmpl (c # pre) t"
  by (simp add: replace_from.simps [of r tmpl pre])

lemma replace_from_hit:
  "rmatch r (pre, post) [] = ((pre', post'), cs) # ms \<Longrightarrow> length post' < length post \<Longrightarrow>
     replace_from r tmpl pre post = tmpl cs @ replace_from r tmpl pre' post'"
  by (simp add: replace_from.simps [of r tmpl pre])

lemma replace_from_skips:
  assumes "\<And>x y. a = x @ y \<Longrightarrow> y \<noteq> [] \<Longrightarrow> rmatch r (rev x @ pre, y @ t) [] = []"
  shows "replace_from r tmpl pre (a @ t) = a @ replace_from r tmpl (rev a @ pre) t"
  using assms
proof (induction a arbitrary: pre)
  case Nil
  then show ?case by simp
next
  case (Cons c a)
  have "rmatch r (pre, c # a @ t) [] = []"
    using Cons.prems [of "[]" "c # a"] by simp
  moreover have "replace_from r tmpl (c # pre) (a @ t) = a @ replace_from r tmpl (rev a @ c # pre) t"
  proof (rule Cons.IH)
    fix x y
    assume "a = x @ y" "y \<noteq> []"
    then show "rmatch r (rev x @ c # pre, y @ t) [] = []"
      using Cons.prems [of "c # x" y] by simp
  qed
  ultimately show ?case by (simp add: replace_from_skip)
qed

section \<open>Patterns that do not look back\<close>

text \<open>A pattern without groups, \<^verbatim>\<open>\b\<close> and \<^verbatim>\<open>^\<close> matches the same text after any prefix.\<close>

fun no_lookback :: "re \<Rightarrow> bool" where
  "no_lookback (Chr _) = True"
| "no_lookback EndText = True"
| "no_lookback (Seq r1 r2) = (no_lookback r1 \<and> no_lookback r2)"
| "no_lookback (Alt r1 r2) = (no_lookback r1 \<and> no_lookback r2)"
| "no_lookback (Star r) = no_lookback r"
| "no_lookback (LazyStar r) = no_lookback r"
| "no_lookback _ = False"

definition lift_pre :: "string \<Rightarrow> position \<times> captures \<Rightarrow> position \<times> captures" where
  "lift_pre x m = ((fst (fst m) @ x, snd (fst m)), snd m)"

lemma lift_pre_simp [simp]: "lift_pre x ((pre, post), cs) = ((pre @ x, post), cs)"
  by (simp add: lift_pre_def)

lemma rmatch_lift_pre:
  "no_lookback r \<Longrightarrow> rmatch r (pre @ x, post) cs = map (lift_pre x) (rmatch r (pre, post) cs)"
proof (induction r "(pre, post)" cs arbitrary: pre post rule: rmatch.induct)
  case (6 r1 r2 cs pre post)
  have "rmatch r2 (fst (fst m) @ x, snd (fst m)) (snd m) = map (lift_pre x) (rmatch r2 (fst m) (snd m))"
    if "m \<in> set (rmatch r1 (pre, post) cs)" for m
    using 6(2) [of m "fst (fst m)" "snd (fst m)" "snd m"] that "6.prems" by simp
  then show ?case
    using 6(1) "6.prems"
    by (auto simp: map_concat lift_pre_def case_prod_unfold comp_def intro!: arg_cong [of _ _ concat])
next
  case (8 r cs pre post)
  have "rmatch (Star r) (fst (fst m) @ x, snd (fst m)) (snd m) =
      map (lift_pre x) (rmatch (Star r) (fst m) (snd m))"
    if "m \<in> set (rmatch r (pre, post) cs)" "length (snd (fst m)) < length post" for m
    using 8(2) [of m "fst (fst m)" "snd (fst m)" "snd m"] that "8.prems" by simp
  then show ?case
    using 8(1) "8.prems"
    unfolding rmatch.simps(8) [of r "(pre, post)"] rmatch.simps(8) [of r "(pre @ x, post)"]
    by (auto simp: map_concat lift_pre_def case_prod_unfold comp_def intro!: arg_cong [of _ _ concat])
next
  case (9 r cs pre post)
  have "rmatch (LazyStar r) (fst (fst m) @ x, snd (fst m)) (snd m) =
      map (lift_pre x) (rmatch (LazyStar r) (fst m) (snd m))"
    if "m \<in> set (rmatch r (pre, post) cs)" "length (snd (fst m)) < length post" for m
    using 9(2) [of m "fst (fst m)" "snd (fst m)" "snd m"] that "9.prems" by simp
  then show ?case
    using 9(1) "9.prems"
    unfolding rmatch.simps(9) [of r "(pre, post)"] rmatch.simps(9) [of r "(pre @ x, post)"]
    by (auto simp: map_concat lift_pre_def case_prod_unfold comp_def intro!: arg_cong [of _ _ concat])
qed (auto split: list.splits)

lemma replace_from_lift_pre:
  "no_lookback r \<Longrightarrow> replace_from r tmpl (pre @ x) post = replace_from r tmpl pre post"
proof (induction post arbitrary: pre rule: length_induct)
  case (1 post)
  then have IH: "length t < length post \<Longrightarrow> replace_from r tmpl (p @ x) t = replace_from r tmpl p t" for p t
    by simp
  from IH [of "tl post" "hd post # pre"] have tl: "post = c # t \<Longrightarrow>
      replace_from r tmpl (c # pre @ x) t = replace_from r tmpl (c # pre) t" for c t
    by (cases post) auto
  show ?case
  proof (cases "rmatch r (pre, post) []")
    case Nil
    then show ?thesis
      using tl 1(2) unfolding replace_from.simps [of r tmpl "pre @ x"] replace_from.simps [of r tmpl pre]
      by (auto simp: rmatch_lift_pre split: list.splits)
  next
    case (Cons m ms)
    obtain p' t cs where m: "m = ((p', t), cs)" by (metis surj_pair)
    then show ?thesis
      using Cons tl 1(2) IH [of t p']
      unfolding replace_from.simps [of r tmpl "pre @ x"] replace_from.simps [of r tmpl pre]
      by (auto simp: rmatch_lift_pre split: list.splits)
  qed
qed

lemma replace_from_any_pre:
  "no_lookback r \<Longrightarrow> replace_from r tmpl pre post = ReplaceAllString r post tmpl"
  using replace_from_lift_pre [of r tmpl "[]" pre post] by (simp add: ReplaceAllString_def)

section \<open>Matches inside a longer text\<close>

text \<open>
  A pattern without anchors that matches in a fragment also matches in every text where the fragment
  is delimited by non-word bytes.
\<close>

fun no_anchor :: "re \<Rightarrow> bool" where
  "no_anchor (Chr _) = True"
| "no_anchor WordB = True"
| "no_anchor (Seq r1 r2) = (no_anchor r1 \<and> no_anchor r2)"
| "no_anchor (Alt r1 r2) = (no_anchor r1 \<and> no_anchor r2)"
| "no_anchor (Star r) = no_anchor r"
| "no_anchor (LazyStar r) = no_anchor r"
| "no_anchor (Group _ r) = no_anchor r"
| "no_anchor _ = False"

lemma word_at_padded: "\<not> word_at b \<Longrightarrow> word_at (a @ b) = word_at a"
  by (cases a) auto

lemma rmatches_padded:
  "rmatches r pre u post \<Longrightarrow> no_anchor r \<Longrightarrow> \<not> word_at a \<Longrightarrow> \<not> word_at b \<Longrightarrow>
     rmatches r (pre @ a) u (post @ b)"
proof (induction rule: rmatches.induct)
  case (m_wordb pre post)
  then show ?case by (auto simp: word_at_padded intro: rmatches.m_wordb)
next
  case (m_seq r1 pre u v post r2)
  then show ?case using rmatches.m_seq [of r1 "pre @ a" u v "post @ b" r2] by simp
next
  case (m_star1 r pre u v post)
  then show ?case using rmatches.m_star1 [of r "pre @ a" u v "post @ b"] by simp
next
  case (m_lazy1 r pre u v post)
  then show ?case using rmatches.m_lazy1 [of r "pre @ a" u v "post @ b"] by simp
qed (auto intro: rmatches.intros)

lemma MatchString_padded:
  assumes "MatchString r f" and "no_anchor r" and "\<not> word_at (rev a)" and "\<not> word_at b"
  shows "MatchString r (a @ f @ b)"
proof -
  obtain x u y where f: "f = x @ u @ y" and m: "rmatches r (rev x) u y"
    using assms(1) unfolding MatchString_iff by blast
  from rmatches_padded [OF m assms(2-4)] have "rmatches r (rev (a @ x)) u (y @ b)" by simp
  moreover have "a @ f @ b = (a @ x) @ u @ (y @ b)" by (simp add: f)
  ultimately show ?thesis unfolding MatchString_iff by blast
qed

lemma Join_around:
  "\<exists>a b. Join (pre @ f # post) [NL] = a @ f @ b \<and> \<not> word_at (rev a) \<and> \<not> word_at b"
proof (induction pre)
  case Nil
  have nl: "\<not> is_word NL" by (simp add: is_word_code code_def)
  show ?case
  proof (cases post)
    case Nil
    then show ?thesis by (intro exI [of _ "[]"]) simp
  next
    case (Cons g gs)
    with nl show ?thesis
      by (intro exI [of _ "[]"] exI [of _ "NL # Join post [NL]"]) (simp add: Join_Cons)
  qed
next
  case (Cons g pre)
  have nl: "\<not> is_word NL" by (simp add: is_word_code code_def)
  from Cons obtain a b where ab: "Join (pre @ f # post) [NL] = a @ f @ b" "\<not> word_at (rev a)"
    "\<not> word_at b" by blast
  have "Join ((g # pre) @ f # post) [NL] = (g @ NL # a) @ f @ b"
    using ab by (simp add: Join_Cons)
  moreover have "\<not> word_at (rev (g @ NL # a))"
    using ab nl by (cases "rev a") auto
  ultimately show ?case using ab by blast
qed

lemma MatchString_Join:
  assumes "MatchString r f" and "no_anchor r" and "f \<in> set fs"
  shows "MatchString r (Join fs [NL])"
proof -
  obtain pre post where fs: "fs = pre @ f # post" using assms(3) by (meson split_list)
  from Join_around [of pre f post] obtain a b where
    ab: "Join fs [NL] = a @ f @ b" "\<not> word_at (rev a)" "\<not> word_at b" unfolding fs by blast
  then show ?thesis using MatchString_padded [OF assms(1,2) ab(2,3)] by simp
qed

lemma rmatches_alts: "rmatches (alts rs) pre u post \<longleftrightarrow> (\<exists>r\<in>set rs. rmatches r pre u post)"
  by (induction rs rule: alts.induct) (auto simp: rmatches_Chr rmatches_Alt)

lemma MatchString_alts: "MatchString (alts rs) s \<longleftrightarrow> (\<exists>r\<in>set rs. MatchString r s)"
  unfolding MatchString_iff rmatches_alts by blast

lemma no_anchor_lit_ci [simp]: "no_anchor (lit_ci w)"
  by (induction w rule: lit_ci.induct) (auto simp: eps_def ci_def)

lemma no_anchor_word_ci [simp]: "no_anchor (word_ci w)"
  by (simp add: word_ci_def)

lemma no_anchor_alts: "no_anchor (alts rs) \<longleftrightarrow> list_all no_anchor rs"
  by (induction rs rule: alts.induct) auto

end
