(* ===== verification/DbSql.thy ===== *)
theory DbSql
  imports Regexp
begin

text \<open>
  Package \<^verbatim>\<open>internal/dbsql\<close>: the engine-neutral records of the SQL layer, the display helpers of a
  column, the mapping from connection kinds to engine families, and the confirmation screen
  \<^verbatim>\<open>NeedsConfirm\<close>, with its five regular expressions. The lemmas give the meaning of the screen on
  words and statements instead of patterns.
\<close>

section \<open>Data transfer records\<close>

record db_table =
  t_Schema :: string
  t_Name :: string
  t_Kind :: string
  t_EstRows :: int

record db_schema =
  s_Name :: string
  s_Tables :: "db_table list"

record db_column =
  c_Name :: string
  c_Type :: string
  c_NotNull :: bool
  c_Default :: string
  c_PK :: bool
  c_AutoInc :: bool

record db_index =
  ix_Name :: string
  ix_Unique :: bool
  ix_Primary :: bool
  ix_Def :: string
  ix_Cols :: string

record db_key =
  k_Name :: string
  k_Type :: string
  k_Def :: string
  k_Cols :: string

record db_role =
  rl_Name :: string
  rl_Host :: string
  rl_Super :: bool
  rl_CreateDB :: bool
  rl_CreateRole :: bool
  rl_CanLogin :: bool
  rl_Replication :: bool
  rl_ConnLimit :: int
  rl_ValidUntil :: string

record db_usage =
  us_Schema :: string
  us_Table :: string
  us_Name :: string
  us_Def :: string

record db_result =
  r_Columns :: "string list"
  r_Rows :: "string list list"
  r_IsSelect :: bool
  r_RowsAffected :: int
  r_Command :: string
  r_Truncated :: bool

record role_attrs =
  ra_Login :: bool
  ra_Super :: bool
  ra_CreateDB :: bool
  ra_CreateRole :: bool
  ra_Password :: string
  ra_Host :: string

record form_spec =
  f_Kind :: string
  f_Schema :: string
  f_Table :: string
  f_Column :: string
  f_Name :: string
  f_Type :: string
  f_Default :: string
  f_Columns :: string
  f_Nullable :: bool
  f_Unique :: bool
  f_Owner :: string
  f_Role :: role_attrs

section \<open>Column display\<close>

definition TypeText :: "db_column \<Rightarrow> string" where
  "TypeText c =
     (let t = c_Type c;
          t = ReplaceAll t ''character varying'' ''varchar'';
          t = ReplaceAll t ''timestamp without time zone'' ''timestamp'';
          t = ReplaceAll t ''time without time zone'' ''time''
      in if c_AutoInc c then t @ '' (auto increment)'' else t)"

definition Cat :: "db_column \<Rightarrow> string" where
  "Cat c =
     (if c_PK c then ''pk''
      else let t = ToLower (c_Type c) in
        if Contains t ''int'' \<or> Contains t ''numeric'' \<or> Contains t ''decimal''
          \<or> Contains t ''real'' \<or> Contains t ''double'' \<or> Contains t ''money''
          \<or> Contains t ''serial'' \<or> Contains t ''float'' then ''num''
        else if Contains t ''char'' \<or> Contains t ''text'' \<or> Contains t ''uuid''
          \<or> Contains t ''enum'' then ''text''
        else if Contains t ''timestamp'' \<or> Contains t ''date'' \<or> Contains t ''time''
          \<or> Contains t ''interval'' \<or> Contains t ''year'' then ''time''
        else if Contains t ''bool'' then ''bool''
        else if Contains t ''json'' then ''json''
        else ''col'')"

section \<open>Engine families\<close>

definition FamilyPostgres :: string where "FamilyPostgres = ''postgres''"
definition FamilyMySQL :: string where "FamilyMySQL = ''mysql''"
definition FamilyRedis :: string where "FamilyRedis = ''redis''"
definition FamilySQLite :: string where "FamilySQLite = ''sqlite''"
definition FamilyMongo :: string where "FamilyMongo = ''mongodb''"

lemmas family_defs = FamilyPostgres_def FamilyMySQL_def FamilyRedis_def FamilySQLite_def FamilyMongo_def

definition kindFamily :: "(string \<times> string) list" where
  "kindFamily =
     [(''postgres'', FamilyPostgres), (''cockroach'', FamilyPostgres), (''greenplum'', FamilyPostgres),
      (''redshift'', FamilyPostgres), (''yugabyte'', FamilyPostgres), (''timescale'', FamilyPostgres),
      (''aurorapg'', FamilyPostgres), (''mysql'', FamilyMySQL), (''mariadb'', FamilyMySQL),
      (''sqlite'', FamilySQLite), (''mongodb'', FamilyMongo), (''redis'', FamilyRedis)]"

definition Family :: "string \<Rightarrow> string" where
  "Family kind = (case map_of kindFamily kind of Some f \<Rightarrow> f | None \<Rightarrow> FamilyPostgres)"

section \<open>The confirmation screen\<close>

definition reDestructive :: re where
  "reDestructive = seqs [BeginText, Star ws, Group 1 (Alt (lit_ci ''drop'') (lit_ci ''truncate'')), WordB]"

definition reDelUpd :: re where
  "reDelUpd = seqs [BeginText, Star ws, Group 1 (Alt (lit_ci ''delete'') (lit_ci ''update'')), WordB]"

definition reHasWhere :: re where
  "reHasWhere = word_ci ''where''"

definition reBlockCmt :: re where
  "reBlockCmt = seqs [ch CHR ''/'', ch CHR ''*'', LazyStar any, ch CHR ''*'', ch CHR ''/'']"

definition reLineCmt :: re where
  "reLineCmt = seqs [ch CHR ''-'', ch CHR ''-'', Star (notch NL)]"

definition stripComments :: "string \<Rightarrow> string" where
  "stripComments sql =
     ReplaceAllString reLineCmt (ReplaceAllString reBlockCmt sql (\<lambda>_. '' '')) (\<lambda>_. [])"

fun needs_confirm_any :: "string list \<Rightarrow> bool" where
  "needs_confirm_any [] = False"
| "needs_confirm_any (stmt # stmts) =
     (if MatchString reDestructive stmt then True
      else if MatchString reDelUpd stmt \<and> \<not> MatchString reHasWhere stmt then True
      else needs_confirm_any stmts)"

definition NeedsConfirm :: "string \<Rightarrow> bool" where
  "NeedsConfirm sql = needs_confirm_any (Split (stripComments sql) CHR '';'')"

lemmas [go_strings] = reDestructive_def reDelUpd_def reHasWhere_def reBlockCmt_def reLineCmt_def
  stripComments_def NeedsConfirm_def

section \<open>Specification of the screen on words\<close>

text \<open>The first word of a statement, in lower case.\<close>

definition stmt_keyword :: "string \<Rightarrow> string" where
  "stmt_keyword s = ToLower (takeWhile is_word (dropWhile re_space s))"

definition destructive_stmt :: "string \<Rightarrow> bool" where
  "destructive_stmt s \<longleftrightarrow> stmt_keyword s \<in> {''drop'', ''truncate''}
     \<or> stmt_keyword s \<in> {''delete'', ''update''} \<and> \<not> has_word ''where'' s"

lemma re_space_not_word: "re_space c \<Longrightarrow> \<not> is_word c"
  by (auto simp: re_space_def is_space_def is_word_code code_def)

lemma takeWhile_word_append:
  "list_all is_word k \<Longrightarrow> \<not> word_at y \<Longrightarrow> takeWhile is_word (k @ y) = k"
  by (induction k) (auto, cases y, auto)

lemma word_at_takeWhile: "\<not> word_at (dropWhile is_word s)"
  by (induction s) auto

definition keyword_re :: "string \<Rightarrow> string \<Rightarrow> re" where
  "keyword_re k1 k2 = seqs [BeginText, Star ws, Group 1 (Alt (lit_ci k1) (lit_ci k2)), WordB]"

lemma rmatches_keyword_re:
  "rmatches (keyword_re k1 k2) pre u y \<longleftrightarrow> pre = [] \<and>
     (\<exists>sp k. u = sp @ k \<and> list_all re_space sp \<and> ToLower k \<in> {k1, k2}
       \<and> word_at (rev k @ rev sp) \<noteq> word_at y)"
  by (auto simp: keyword_re_def rmatches_Seq [of "Star ws"] rmatches_Group rmatches_Alt)

lemma MatchString_keyword:
  assumes "word_lit k1" and "word_lit k2"
  shows "MatchString (keyword_re k1 k2) s \<longleftrightarrow> stmt_keyword s \<in> {k1, k2}"
proof
  assume "MatchString (keyword_re k1 k2) s"
  then obtain x u y where x: "s = x @ u @ y" and m: "rmatches (keyword_re k1 k2) (rev x) u y"
    unfolding MatchString_iff by blast
  from m [unfolded rmatches_keyword_re] obtain sp k where "rev x = []" and u: "u = sp @ k"
    and sp: "list_all re_space sp" and k: "ToLower k \<in> {k1, k2}"
    and b: "word_at (rev k @ rev sp) \<noteq> word_at y" by blast
  then have s: "s = sp @ k @ y" by (simp add: x)
  from k assms have kw: "k \<noteq> []" "list_all is_word k"
    using ToLower_word_lit by blast+
  then have "word_at (rev k @ rev sp)" by (rule word_at_rev_append)
  with b have y: "\<not> word_at y" by simp
  have "dropWhile re_space s = k @ y"
    using s sp kw by (cases k) (auto simp: list_all_iff dest: re_space_not_word)
  then show "stmt_keyword s \<in> {k1, k2}"
    using k kw y by (simp add: stmt_keyword_def takeWhile_word_append)
next
  assume kw: "stmt_keyword s \<in> {k1, k2}"
  define sp k y where "sp = takeWhile re_space s" and "k = takeWhile is_word (dropWhile re_space s)"
    and "y = dropWhile is_word (dropWhile re_space s)"
  have s: "s = [] @ (sp @ k) @ y" by (simp add: sp_def k_def y_def)
  have sp: "list_all re_space sp" by (auto simp: sp_def list_all_iff dest: set_takeWhileD)
  from kw have k: "ToLower k \<in> {k1, k2}" by (simp add: stmt_keyword_def k_def)
  then have "k \<noteq> []" "list_all is_word k" using assms ToLower_word_lit by blast+
  then have "word_at (rev k @ rev sp)" by (rule word_at_rev_append)
  moreover have "\<not> word_at y" by (simp add: y_def word_at_takeWhile)
  ultimately have "rmatches (keyword_re k1 k2) (rev []) (sp @ k) y"
    using sp k unfolding rmatches_keyword_re by blast
  with s show "MatchString (keyword_re k1 k2) s" unfolding MatchString_iff by blast
qed

lemma word_lit_keywords [simp]:
  "word_lit ''drop''" "word_lit ''truncate''" "word_lit ''delete''" "word_lit ''update''"
  "word_lit ''where''"
  by (simp_all add: word_lit_def is_word_code code_def)

lemma MatchString_screens:
  "MatchString reDestructive s \<longleftrightarrow> stmt_keyword s \<in> {''drop'', ''truncate''}"
  "MatchString reDelUpd s \<longleftrightarrow> stmt_keyword s \<in> {''delete'', ''update''}"
  "MatchString reHasWhere s \<longleftrightarrow> has_word ''where'' s"
  using MatchString_keyword [of "''drop''" "''truncate''" s]
    MatchString_keyword [of "''delete''" "''update''" s] MatchString_word_ci [of "''where''" s]
  unfolding keyword_re_def reDestructive_def reDelUpd_def reHasWhere_def by simp_all

lemma needs_confirm_any_iff: "needs_confirm_any stmts \<longleftrightarrow> (\<exists>s\<in>set stmts. destructive_stmt s)"
  by (induction stmts) (auto simp: destructive_stmt_def MatchString_screens)

section \<open>Comments\<close>

definition comment_free :: "string \<Rightarrow> bool" where
  "comment_free s \<longleftrightarrow> \<not> Contains s ''/*'' \<and> \<not> Contains s ''--''"

lemma MatchString_reBlockCmt: "MatchString reBlockCmt s \<Longrightarrow> Contains s ''/*''"
proof -
  assume "MatchString reBlockCmt s"
  then obtain x u y where "s = x @ u @ y" "rmatches reBlockCmt (rev x) u y"
    unfolding MatchString_iff by blast
  then have "\<exists>v. s = x @ ''/*'' @ v"
    by (auto simp: reBlockCmt_def ch_def rmatches_Seq_Chr)
  then show ?thesis unfolding Contains_iff by blast
qed

lemma MatchString_reLineCmt: "MatchString reLineCmt s \<Longrightarrow> Contains s ''--''"
proof -
  assume "MatchString reLineCmt s"
  then obtain x u y where "s = x @ u @ y" "rmatches reLineCmt (rev x) u y"
    unfolding MatchString_iff by blast
  then have "\<exists>v. s = x @ ''--'' @ v"
    by (auto simp: reLineCmt_def ch_def rmatches_Seq_Chr)
  then show ?thesis unfolding Contains_iff by blast
qed

lemma stripComments_comment_free:
  assumes "comment_free s" shows "stripComments s = s"
proof -
  from assms have "\<not> MatchString reBlockCmt s" "\<not> MatchString reLineCmt s"
    using MatchString_reBlockCmt MatchString_reLineCmt by (auto simp: comment_free_def)
  then show ?thesis by (simp add: stripComments_def ReplaceAllString_none)
qed

lemma NeedsConfirm_iff:
  "NeedsConfirm s \<longleftrightarrow> (\<exists>stmt\<in>set (Split (stripComments s) CHR '';''). destructive_stmt stmt)"
  by (simp add: NeedsConfirm_def needs_confirm_any_iff)

text \<open>The block comment that opens a text is cut at its first terminator.\<close>

abbreviation close_cmt :: re where
  "close_cmt \<equiv> Seq (ch CHR ''*'') (ch CHR ''/'')"

lemma rmatch_close_cmt:
  "rmatch close_cmt (pre, post) cs =
     (if HasPrefix post ''*/'' then [((CHR ''/'' # CHR ''*'' # pre, drop 2 post), cs)] else [])"
  by (cases post rule: list.exhaust [case_product list.exhaust [of "tl post"]])
    (auto simp: ch_def HasPrefix_def split: list.splits)

lemma rmatch_lazy_any:
  "rmatch (Seq (LazyStar any) r) (pre, d # t) cs =
     rmatch r (pre, d # t) cs @ rmatch (Seq (LazyStar any) r) (d # pre, t) cs"
  by (simp add: any_def rmatch.simps(9) [of _ "(pre, d # t)"])

lemma rmatch_lazy_any_Nil: "rmatch (Seq (LazyStar any) r) (pre, []) cs = rmatch r (pre, []) cs"
  by (simp add: any_def rmatch.simps(9))

lemma first_close_cmt:
  "\<not> Contains (c @ ''*'') ''*/'' \<Longrightarrow>
     \<exists>ms. rmatch (Seq (LazyStar any) close_cmt) (pre, c @ ''*/'' @ s) cs =
       ((rev (c @ ''*/'') @ pre, s), cs) # ms"
proof (induction c arbitrary: pre)
  case Nil
  show ?case
    by (simp add: rmatch_lazy_any rmatch_close_cmt HasPrefix_def del: rmatch.simps)
next
  case (Cons d c)
  then have c: "\<not> Contains (c @ ''*'') ''*/''" and d: "\<not> HasPrefix (d # c @ ''*'') ''*/''" by auto
  from d have "\<not> HasPrefix (d # c @ ''*/'' @ s) ''*/''"
    by (cases c) (auto simp: HasPrefix_def)
  then have "rmatch (Seq (LazyStar any) close_cmt) (pre, d # c @ ''*/'' @ s) cs =
      rmatch (Seq (LazyStar any) close_cmt) (d # pre, c @ ''*/'' @ s) cs"
    by (simp add: rmatch_lazy_any rmatch_close_cmt del: rmatch.simps append.simps)
  with Cons.IH [OF c, of "d # pre"] show ?case by simp
qed

lemma no_lookback_comments: "no_lookback reBlockCmt" "no_lookback reLineCmt"
  by (simp_all add: reBlockCmt_def reLineCmt_def ch_def any_def notch_def)

lemma strip_leading_block:
  assumes "\<not> Contains (c @ ''*'') ''*/''"
  shows "ReplaceAllString reBlockCmt (''/*'' @ c @ ''*/'' @ s) (\<lambda>_. '' '') =
     '' '' @ ReplaceAllString reBlockCmt s (\<lambda>_. '' '')"
proof -
  obtain ms where ms: "rmatch (Seq (LazyStar any) close_cmt) (''*/'', c @ ''*/'' @ s) [] =
      ((rev (c @ ''*/'') @ ''*/'', s), []) # ms"
    using first_close_cmt [OF assms] by blast
  have "rmatch reBlockCmt ([], ''/*'' @ c @ ''*/'' @ s) [] =
      rmatch (Seq (LazyStar any) close_cmt) (''*/'', c @ ''*/'' @ s) []"
    by (simp add: reBlockCmt_def ch_def del: rmatch.simps(9))
  with ms have "rmatch reBlockCmt ([], ''/*'' @ c @ ''*/'' @ s) [] =
      ((rev (c @ ''*/'') @ ''*/'', s), []) # ms" by simp
  from replace_from_hit [OF this, of "\<lambda>_. '' ''"] show ?thesis
    by (simp add: replace_from_any_pre [OF no_lookback_comments(1)])
qed

lemma strip_line_space:
  "ReplaceAllString reLineCmt (CHR '' '' # s) tmpl = CHR '' '' # ReplaceAllString reLineCmt s tmpl"
proof -
  have "rmatch reLineCmt ([], CHR '' '' # s) [] = []"
    by (simp add: reLineCmt_def ch_def)
  from replace_from_skip [OF this, of tmpl] show ?thesis
    by (simp add: replace_from_any_pre [OF no_lookback_comments(2)])
qed

lemma has_word_space: "word_lit w \<Longrightarrow> has_word w (CHR '' '' # s) \<longleftrightarrow> has_word w s"
proof
  assume w: "word_lit w" and "has_word w (CHR '' '' # s)"
  then obtain x u y where eq: "CHR '' '' # s = x @ u @ y" and u: "ToLower u = w"
    and b: "\<not> word_at (rev x)" "\<not> word_at y" by (auto simp: has_word_def)
  have "x \<noteq> []"
    using eq ToLower_word_lit [OF u w] by (cases u) (auto simp: is_word_code code_def)
  then obtain x' where x: "x = CHR '' '' # x'" using eq by (cases x) auto
  have "\<not> word_at (rev x')" using b(1) x by (cases "rev x'") auto
  with eq x u b(2) show "has_word w s" unfolding has_word_def by auto
next
  assume "word_lit w" "has_word w s"
  from has_word_middle [OF this(2), of "'' ''" "[]"] this(1)
  show "has_word w (CHR '' '' # s)" by (simp add: is_word_code code_def)
qed

lemma destructive_stmt_space: "destructive_stmt (CHR '' '' # s) \<longleftrightarrow> destructive_stmt s"
  by (simp add: destructive_stmt_def stmt_keyword_def has_word_space re_space_def is_space_def)

lemma needs_confirm_space:
  "(\<exists>stmt\<in>set (Split (CHR '' '' # s) CHR '';''). destructive_stmt stmt) \<longleftrightarrow>
   (\<exists>stmt\<in>set (Split s CHR '';''). destructive_stmt stmt)"
  by (auto simp: destructive_stmt_space split: list.splits)

text \<open>
  C40: on a text without comment openers, \<^verbatim>\<open>NeedsConfirm\<close> asks for a confirmation exactly when one
  of the statements between semicolons starts with the word DROP or TRUNCATE, or starts with DELETE
  or UPDATE and has no word WHERE, in any letter case.
\<close>

theorem NeedsConfirm_words:
  assumes "comment_free s"
  shows "NeedsConfirm s \<longleftrightarrow>
     (\<exists>stmt\<in>set (Split s CHR '';''). stmt_keyword stmt \<in> {''drop'', ''truncate''}
       \<or> stmt_keyword stmt \<in> {''delete'', ''update''} \<and> \<not> has_word ''where'' stmt)"
  using assms by (simp add: NeedsConfirm_iff stripComments_comment_free destructive_stmt_def)

theorem NeedsConfirm_words_witness:
  "comment_free ''select 1; Drop table t'' \<and> NeedsConfirm ''select 1; Drop table t''"
proof
  show free: "comment_free ''select 1; Drop table t''" by code_simp
  have "'' Drop table t'' \<in> set (Split ''select 1; Drop table t'' CHR '';'')" by code_simp
  moreover have "stmt_keyword '' Drop table t'' = ''drop''" by code_simp
  ultimately show "NeedsConfirm ''select 1; Drop table t''"
    unfolding NeedsConfirm_words [OF free] by blast
qed

text \<open>
  A block comment in front of a text never changes the answer of \<^verbatim>\<open>NeedsConfirm\<close>: the comment,
  from its opener to its first terminator, counts as one space.
\<close>

lemma NeedsConfirm_leading_block_comment:
  assumes "\<not> Contains (c @ ''*'') ''*/''"
  shows "NeedsConfirm (''/*'' @ c @ ''*/'' @ s) \<longleftrightarrow> NeedsConfirm s"
proof -
  have "stripComments (''/*'' @ c @ ''*/'' @ s) = CHR '' '' # stripComments s"
    unfolding stripComments_def strip_leading_block [OF assms] by (simp add: strip_line_space)
  then show ?thesis unfolding NeedsConfirm_iff by (simp add: needs_confirm_space del: Split.simps)
qed

end
