(* ===== verification/Store.thy ===== *)
theory Store
  imports DbSql "HOL-Library.List_Lexorder" "HOL-Library.Product_Lexorder"
begin

text \<open>
  \<^verbatim>\<open>internal/store/store.go\<close>: the metadata store. Its three tables are lists of rows in insertion order
  with their next ids; an operation takes the fault of its SQL call (\<^const>\<open>None\<close> if it succeeds), the
  state, and returns the error or the result with the new state. The constraints of \<^verbatim>\<open>migrate\<close> (unique
  ids, the foreign key with cascading delete, one grant per connection and subject) are what the
  database enforces; \<open>store_ok\<close> states them and \<open>store_reach\<close> lists the operations that change rows.
  \<^verbatim>\<open>ORDER BY\<close> sorts by bytes. Then the connection strings, with the escaping of \<^verbatim>\<open>net/url\<close>.
\<close>

section \<open>Rows\<close>

record connection =
  cn_ID :: int
  cn_Name :: string
  cn_Kind :: string
  cn_Host :: string
  cn_Port :: int
  cn_DBName :: string
  cn_Username :: string
  cn_PasswordEnc :: string
  cn_Options :: string
  cn_ReadOnly :: bool
  cn_CreatedBy :: string
  cn_CreatedAt :: int

record grant =
  g_ID :: int
  g_ConnID :: int
  g_Subject :: string
  g_Level :: string
  g_CreatedBy :: string
  g_CreatedAt :: int

definition GrantRead :: string where "GrantRead = ''read''"
definition GrantWrite :: string where "GrantWrite = ''write''"

definition ValidGrantLevel :: "string \<Rightarrow> bool" where
  "ValidGrantLevel level \<longleftrightarrow> level = GrantRead \<or> level = GrantWrite"

record audit_row =
  a_ID :: int
  a_TS :: int
  a_User :: string
  a_ConnID :: int
  a_Action :: string
  a_Detail :: string
  a_Success :: bool

record store =
  st_driver :: string
  st_conns :: "connection list"
  st_grants :: "grant list"
  st_audit :: "audit_row list"
  st_next_conn :: int
  st_next_grant :: int
  st_next_audit :: int
  st_sink :: "audit_row list"

type_synonym fault = "go_error option"

section \<open>Placeholders\<close>

fun rebind_from :: "nat \<Rightarrow> string \<Rightarrow> string" where
  "rebind_from n [] = []"
| "rebind_from n (c # q) =
     (if c = CHR ''?'' then CHR ''$'' # Itoa (int (Suc n)) @ rebind_from (Suc n) q
      else c # rebind_from n q)"

definition rebind :: "string \<Rightarrow> string \<Rightarrow> string" where
  "rebind driver q = (if driver \<noteq> ''postgres'' then q else rebind_from 0 q)"

definition placeholders :: "string list \<Rightarrow> 'a list \<Rightarrow> (string \<Rightarrow> 'a) \<Rightarrow> string \<times> 'a list" where
  "placeholders subjects lead arg = (Join (map (\<lambda>_. ''?'') subjects) '','', lead @ map arg subjects)"

section \<open>Connections\<close>

definition conn_key :: "connection \<Rightarrow> nat list \<times> nat list" where
  "conn_key c = (map code (cn_Kind c), map code (cn_Name c))"

definition ListConnections :: "fault \<Rightarrow> store \<Rightarrow> connection list result" where
  "ListConnections f s = (case f of Some e \<Rightarrow> Inl e | None \<Rightarrow> Inr (sort_key conn_key (st_conns s)))"

definition GetConnection :: "fault \<Rightarrow> store \<Rightarrow> int \<Rightarrow> connection result" where
  "GetConnection f s i =
     (case f of
        Some e \<Rightarrow> Inl e
      | None \<Rightarrow>
          (case List.find (\<lambda>c. cn_ID c = i) (st_conns s) of
             None \<Rightarrow> Inl ''sql: no rows in result set''
           | Some c \<Rightarrow> Inr c))"

definition CreateConnection :: "fault \<Rightarrow> int \<Rightarrow> connection \<Rightarrow> store \<Rightarrow> int result \<times> store" where
  "CreateConnection f now c s =
     (case f of
        Some e \<Rightarrow> (Inl e, s)
      | None \<Rightarrow>
          (Inr (st_next_conn s),
           s\<lparr>st_conns := st_conns s @ [c\<lparr>cn_ID := st_next_conn s, cn_CreatedAt := now\<rparr>],
             st_next_conn := st_next_conn s + 1\<rparr>))"

definition set_fields :: "connection \<Rightarrow> bool \<Rightarrow> connection \<Rightarrow> connection" where
  "set_fields c updatePw row =
     row\<lparr>cn_Name := cn_Name c, cn_Kind := cn_Kind c, cn_Host := cn_Host c, cn_Port := cn_Port c,
         cn_DBName := cn_DBName c, cn_Username := cn_Username c,
         cn_PasswordEnc := (if updatePw then cn_PasswordEnc c else cn_PasswordEnc row),
         cn_Options := cn_Options c, cn_ReadOnly := cn_ReadOnly c\<rparr>"

definition UpdateConnection :: "fault \<Rightarrow> connection \<Rightarrow> bool \<Rightarrow> store \<Rightarrow> go_error option \<times> store" where
  "UpdateConnection f c updatePw s =
     (case f of
        Some e \<Rightarrow> (Some e, s)
      | None \<Rightarrow>
          (None, s\<lparr>st_conns := map (\<lambda>row. if cn_ID row = cn_ID c then set_fields c updatePw row else row) (st_conns s)\<rparr>))"

definition UpdatePasswordEnc :: "fault \<Rightarrow> int \<Rightarrow> string \<Rightarrow> store \<Rightarrow> go_error option \<times> store" where
  "UpdatePasswordEnc f i enc s =
     (case f of
        Some e \<Rightarrow> (Some e, s)
      | None \<Rightarrow>
          (None, s\<lparr>st_conns := map (\<lambda>row. if cn_ID row = i then row\<lparr>cn_PasswordEnc := enc\<rparr> else row) (st_conns s)\<rparr>))"

definition DeleteConnection :: "fault \<Rightarrow> int \<Rightarrow> store \<Rightarrow> go_error option \<times> store" where
  "DeleteConnection f i s =
     (case f of
        Some e \<Rightarrow> (Some e, s)
      | None \<Rightarrow>
          (None, s\<lparr>st_conns := filter (\<lambda>c. cn_ID c \<noteq> i) (st_conns s),
                   st_grants := filter (\<lambda>g. g_ConnID g \<noteq> i) (st_grants s)\<rparr>))"

section \<open>Audit\<close>

text \<open>The sink gets the row without an id, also when the insert failed.\<close>

definition AddAudit :: "fault \<Rightarrow> int \<Rightarrow> audit_row \<Rightarrow> store \<Rightarrow> store" where
  "AddAudit f now a s =
     (let a = a\<lparr>a_TS := now\<rparr>;
          s = (case f of
                 Some _ \<Rightarrow> s
               | None \<Rightarrow> s\<lparr>st_audit := st_audit s @ [a\<lparr>a_ID := st_next_audit s\<rparr>],
                           st_next_audit := st_next_audit s + 1\<rparr>)
      in s\<lparr>st_sink := st_sink s @ [a]\<rparr>)"

definition PurgeAuditOlderThan :: "fault \<Rightarrow> int \<Rightarrow> store \<Rightarrow> int result \<times> store" where
  "PurgeAuditOlderThan f cutoff s =
     (case f of
        Some e \<Rightarrow> (Inl e, s)
      | None \<Rightarrow>
          (Inr (int (length (filter (\<lambda>a. a_TS a < cutoff) (st_audit s)))),
           s\<lparr>st_audit := filter (\<lambda>a. \<not> a_TS a < cutoff) (st_audit s)\<rparr>))"

definition ListAudit :: "fault \<Rightarrow> store \<Rightarrow> nat \<Rightarrow> audit_row list result" where
  "ListAudit f s limit =
     (case f of Some e \<Rightarrow> Inl e | None \<Rightarrow> Inr (take limit (rev (sort_key a_ID (st_audit s)))))"

fun iter_rows :: "('acc \<Rightarrow> audit_row \<Rightarrow> 'acc result) \<Rightarrow> 'acc \<Rightarrow> audit_row list \<Rightarrow> 'acc result" where
  "iter_rows fn acc [] = Inr acc"
| "iter_rows fn acc (a # rows) =
     (case fn acc a of Inl e \<Rightarrow> Inl e | Inr acc' \<Rightarrow> iter_rows fn acc' rows)"

definition IterAudit :: "fault \<Rightarrow> store \<Rightarrow> ('acc \<Rightarrow> audit_row \<Rightarrow> 'acc result) \<Rightarrow> 'acc \<Rightarrow> 'acc result" where
  "IterAudit f s fn acc =
     (case f of Some e \<Rightarrow> Inl e | None \<Rightarrow> iter_rows fn acc (sort_key a_ID (st_audit s)))"

section \<open>Grants\<close>

definition ListGrants :: "fault \<Rightarrow> store \<Rightarrow> int \<Rightarrow> grant list result" where
  "ListGrants f s connID =
     (case f of
        Some e \<Rightarrow> Inl e
      | None \<Rightarrow> Inr (sort_key (\<lambda>g. map code (g_Subject g)) (filter (\<lambda>g. g_ConnID g = connID) (st_grants s))))"

definition same_grant :: "grant \<Rightarrow> grant \<Rightarrow> bool" where
  "same_grant g row \<longleftrightarrow> g_ConnID row = g_ConnID g \<and> g_Subject row = g_Subject g"

definition SetGrant :: "fault \<Rightarrow> int \<Rightarrow> grant \<Rightarrow> store \<Rightarrow> go_error option \<times> store" where
  "SetGrant f now g s =
     (case f of
        Some e \<Rightarrow> (Some e, s)
      | None \<Rightarrow>
          (if g_ConnID g \<notin> cn_ID ` set (st_conns s) then (Some ''FOREIGN KEY constraint failed'', s)
           else if list_ex (same_grant g) (st_grants s)
           then (None, s\<lparr>st_grants := map (\<lambda>row. if same_grant g row
                    then row\<lparr>g_Level := g_Level g, g_CreatedBy := g_CreatedBy g, g_CreatedAt := now\<rparr> else row)
                    (st_grants s)\<rparr>)
           else (None, s\<lparr>st_grants := st_grants s @ [g\<lparr>g_ID := st_next_grant s, g_CreatedAt := now\<rparr>],
                         st_next_grant := st_next_grant s + 1\<rparr>)))"

definition DeleteGrant :: "fault \<Rightarrow> int \<Rightarrow> int \<Rightarrow> store \<Rightarrow> go_error option \<times> store" where
  "DeleteGrant f connID i s =
     (case f of
        Some e \<Rightarrow> (Some e, s)
      | None \<Rightarrow> (None, s\<lparr>st_grants := filter (\<lambda>g. \<not> (g_ID g = i \<and> g_ConnID g = connID)) (st_grants s)\<rparr>))"

definition better_grant :: "grant option \<Rightarrow> grant \<Rightarrow> grant option" where
  "better_grant best g =
     (case best of
        None \<Rightarrow> Some g
      | Some b \<Rightarrow> (if g_Level g = GrantWrite \<and> g_Level b \<noteq> GrantWrite then Some g else best))"

definition GrantForSubjects :: "fault \<Rightarrow> store \<Rightarrow> int \<Rightarrow> string list \<Rightarrow> grant option result" where
  "GrantForSubjects f s connID subjects =
     (if subjects = [] then Inr None
      else case f of
             Some e \<Rightarrow> Inl e
           | None \<Rightarrow>
               Inr (foldl better_grant None
                      (filter (\<lambda>g. g_ConnID g = connID \<and> g_Subject g \<in> set subjects) (st_grants s))))"

definition ListConnectionsForSubjects :: "fault \<Rightarrow> store \<Rightarrow> string list \<Rightarrow> connection list result" where
  "ListConnectionsForSubjects f s subjects =
     (if subjects = [] then Inr []
      else case f of
             Some e \<Rightarrow> Inl e
           | None \<Rightarrow>
               Inr (sort_key conn_key (remdups (filter (\<lambda>c.
                      list_ex (\<lambda>g. g_ConnID g = cn_ID c \<and> g_Subject g \<in> set subjects) (st_grants s)) (st_conns s)))))"

section \<open>Connection strings\<close>

definition url_unreserved :: "char \<Rightarrow> bool" where
  "url_unreserved c \<longleftrightarrow> is_lower c \<or> is_upper c \<or> is_digit c \<or> c \<in> set ''-_.~''"

definition user_safe :: "char \<Rightarrow> bool" where
  "user_safe c \<longleftrightarrow> url_unreserved c \<or> c \<in> set ''$&+,;=''"

definition path_safe :: "char \<Rightarrow> bool" where
  "path_safe c \<longleftrightarrow> url_unreserved c \<or> c \<in> set ''$&+,/:;=@''"

definition host_safe :: "char \<Rightarrow> bool" where
  "host_safe c \<longleftrightarrow> url_unreserved c \<or> c \<in> set (''!$&()*+,;=:[]<>'' @ [SQ, DQ])"

definition upper_hex :: "nat \<Rightarrow> char" where
  "upper_hex n = char_of (if n < 10 then 48 + n else 55 + n)"

definition url_escape :: "(char \<Rightarrow> bool) \<Rightarrow> string \<Rightarrow> string" where
  "url_escape safe s =
     concat (map (\<lambda>c. if safe c then [c] else [CHR ''%'', upper_hex (code c div 16), upper_hex (code c mod 16)]) s)"

text \<open>\<^verbatim>\<open>url.URL.String\<close> for a URL with a host and a path that starts with a slash.\<close>

definition url_string :: "string \<Rightarrow> (string \<times> string) option \<Rightarrow> string \<Rightarrow> string \<Rightarrow> string \<Rightarrow> string" where
  "url_string scheme user host path query =
     scheme @ ''://''
     @ (case user of None \<Rightarrow> [] | Some (u, p) \<Rightarrow> url_escape user_safe u @ '':'' @ url_escape user_safe p @ ''@'')
     @ url_escape host_safe host @ url_escape path_safe path
     @ (if query \<noteq> [] then ''?'' @ query else [])"

definition DSN :: "connection \<Rightarrow> string \<Rightarrow> string" where
  "DSN c password =
     url_string ''postgres'' (Some (cn_Username c, password)) (cn_Host c @ '':'' @ Itoa (cn_Port c))
       (''/'' @ cn_DBName c) (if cn_Options c = [] then ''sslmode=prefer'' else cn_Options c)"

definition Engine :: "connection \<Rightarrow> string" where
  "Engine c = Family (cn_Kind c)"

text \<open>\<^verbatim>\<open>DSNMySQL\<close>: the parameter map handed to the driver's \<^verbatim>\<open>FormatDSN\<close>, which is an argument.\<close>

definition mysql_params :: "string \<Rightarrow> string \<Rightarrow> string option" where
  "mysql_params options =
     foldl (\<lambda>m kv. case Cut (TrimSpace kv) CHR ''='' of
                     (k, v, ok) \<Rightarrow> if ok \<and> k \<noteq> [] then m(k \<mapsto> v) else m)
       [''charset'' \<mapsto> ''utf8mb4'',
        ''sql_mode'' \<mapsto> [SQ] @ ''STRICT_ALL_TABLES,NO_ENGINE_SUBSTITUTION'' @ [SQ],
        ''time_zone'' \<mapsto> [SQ] @ ''+00:00'' @ [SQ]]
       (Split options CHR ''&'')"

record mysql_config =
  mc_User :: string
  mc_Passwd :: string
  mc_Addr :: string
  mc_DBName :: string
  mc_Params :: "string \<Rightarrow> string option"

definition DSNMySQL :: "(mysql_config \<Rightarrow> string) \<Rightarrow> connection \<Rightarrow> string \<Rightarrow> string" where
  "DSNMySQL FormatDSN c password =
     FormatDSN \<lparr>mc_User = cn_Username c, mc_Passwd = password, mc_Addr = cn_Host c @ '':'' @ Itoa (cn_Port c),
                mc_DBName = cn_DBName c, mc_Params = mysql_params (cn_Options c)\<rparr>"

definition DSNMongo :: "connection \<Rightarrow> string \<Rightarrow> string" where
  "DSNMongo c password =
     url_string ''mongodb'' (if cn_Username c \<noteq> [] then Some (cn_Username c, password) else None)
       (cn_Host c @ '':'' @ Itoa (cn_Port c)) (''/'' @ cn_DBName c) (cn_Options c)"

definition SQLiteDSN :: "string \<Rightarrow> string" where
  "SQLiteDSN path = path @ ''?_pragma=busy_timeout(5000)&_pragma=foreign_keys(1)''"

section \<open>The table invariant\<close>

definition store_ok :: "store \<Rightarrow> bool" where
  "store_ok s \<longleftrightarrow>
     distinct (map cn_ID (st_conns s)) \<and> (\<forall>c\<in>set (st_conns s). cn_ID c < st_next_conn s) \<and>
     distinct (map g_ID (st_grants s)) \<and> (\<forall>g\<in>set (st_grants s). g_ID g < st_next_grant s) \<and>
     distinct (map (\<lambda>g. (g_ConnID g, g_Subject g)) (st_grants s)) \<and>
     (\<forall>g\<in>set (st_grants s). g_ConnID g \<in> cn_ID ` set (st_conns s)) \<and>
     sorted_wrt (<) (map a_ID (st_audit s)) \<and> (\<forall>a\<in>set (st_audit s). a_ID a < st_next_audit s)"

definition empty_store :: "string \<Rightarrow> store" where
  "empty_store driver = \<lparr>st_driver = driver, st_conns = [], st_grants = [], st_audit = [],
     st_next_conn = 1, st_next_grant = 1, st_next_audit = 1, st_sink = []\<rparr>"

inductive store_reach :: "string \<Rightarrow> store \<Rightarrow> bool" for driver where
  opened: "store_reach driver (empty_store driver)"
| create: "store_reach driver s \<Longrightarrow> CreateConnection f now c s = (r, s') \<Longrightarrow> store_reach driver s'"
| update: "store_reach driver s \<Longrightarrow> UpdateConnection f c updatePw s = (e, s') \<Longrightarrow> store_reach driver s'"
| password: "store_reach driver s \<Longrightarrow> UpdatePasswordEnc f i enc s = (e, s') \<Longrightarrow> store_reach driver s'"
| delete: "store_reach driver s \<Longrightarrow> DeleteConnection f i s = (e, s') \<Longrightarrow> store_reach driver s'"
| audit: "store_reach driver s \<Longrightarrow> AddAudit f now a s = s' \<Longrightarrow> store_reach driver s'"
| purge: "store_reach driver s \<Longrightarrow> PurgeAuditOlderThan f cutoff s = (n, s') \<Longrightarrow> store_reach driver s'"
| grant: "store_reach driver s \<Longrightarrow> SetGrant f now g s = (e, s') \<Longrightarrow> store_reach driver s'"
| revoke: "store_reach driver s \<Longrightarrow> DeleteGrant f connID i s = (e, s') \<Longrightarrow> store_reach driver s'"

lemma map_fixed_key: "(\<And>x. f (g x) = f x) \<Longrightarrow> map f (map g xs) = map f xs"
  by simp

lemma store_ok_map_conns:
  assumes "store_ok s" and "\<And>c. cn_ID (h c) = cn_ID c"
  shows "store_ok (s\<lparr>st_conns := map h (st_conns s)\<rparr>)"
  using assms by (auto simp: store_ok_def comp_def image_image)

lemma store_ok_map_grants:
  assumes "store_ok s" and "\<And>g. g_ID (h g) = g_ID g \<and> g_ConnID (h g) = g_ConnID g \<and> g_Subject (h g) = g_Subject g"
  shows "store_ok (s\<lparr>st_grants := map h (st_grants s)\<rparr>)"
  using assms by (auto simp: store_ok_def comp_def image_image)

lemma fresh_id: "\<forall>x\<in>set xs. h x < (n::int) \<Longrightarrow> n \<notin> h ` set xs \<and> (\<forall>x\<in>set xs. h x < n + 1)"
  by force

lemma store_ok_create: "store_ok s \<Longrightarrow> CreateConnection f now c s = (r, s') \<Longrightarrow> store_ok s'"
  using fresh_id [of "st_conns s" cn_ID "st_next_conn s"]
  by (auto simp: CreateConnection_def store_ok_def split: option.splits)

lemma image_filter_ne: "x \<in> h ` set xs \<Longrightarrow> x \<noteq> i \<Longrightarrow> x \<in> h ` {y \<in> set xs. h y \<noteq> i}"
  by auto

lemma store_ok_delete: "store_ok s \<Longrightarrow> DeleteConnection f i s = (e, s') \<Longrightarrow> store_ok s'"
  by (auto simp: DeleteConnection_def store_ok_def distinct_map_filter image_filter_ne split: option.splits)

lemma sorted_wrt_filter_map: "sorted_wrt P (map f xs) \<Longrightarrow> sorted_wrt P (map f (filter Q xs))"
  by (induction xs) auto

lemma store_ok_audit: "store_ok s \<Longrightarrow> store_ok (AddAudit f now a s)"
  by (auto simp: AddAudit_def Let_def store_ok_def sorted_wrt_append split: option.splits intro: less_imp_le)

lemma store_ok_purge: "store_ok s \<Longrightarrow> PurgeAuditOlderThan f cutoff s = (n, s') \<Longrightarrow> store_ok s'"
  by (auto simp: PurgeAuditOlderThan_def store_ok_def sorted_wrt_filter_map split: option.splits)

lemma store_ok_revoke: "store_ok s \<Longrightarrow> DeleteGrant f connID i s = (e, s') \<Longrightarrow> store_ok s'"
  by (auto simp: DeleteGrant_def store_ok_def distinct_map_filter split: option.splits)

lemma store_ok_grant:
  assumes "store_ok s" and "SetGrant f now g s = (e, s')"
  shows "store_ok s'"
proof (cases "f = None \<and> g_ConnID g \<in> cn_ID ` set (st_conns s)")
  case False
  with assms show ?thesis by (auto simp: SetGrant_def split: option.splits)
next
  case True
  show ?thesis
  proof (cases "list_ex (same_grant g) (st_grants s)")
    case ex: True
    let ?h = "\<lambda>row. if same_grant g row
      then row\<lparr>g_Level := g_Level g, g_CreatedBy := g_CreatedBy g, g_CreatedAt := now\<rparr> else row"
    have "s' = s\<lparr>st_grants := map ?h (st_grants s)\<rparr>" using True ex assms(2) by (simp add: SetGrant_def)
    moreover have "store_ok (s\<lparr>st_grants := map ?h (st_grants s)\<rparr>)"
      by (rule store_ok_map_grants [OF assms(1)]) simp
    ultimately show ?thesis by simp
  next
    case fresh: False
    then have "(g_ConnID g, g_Subject g) \<notin> (\<lambda>g. (g_ConnID g, g_Subject g)) ` set (st_grants s)"
      by (auto simp: list_ex_iff same_grant_def)
    moreover have "s' = s\<lparr>st_grants := st_grants s @ [g\<lparr>g_ID := st_next_grant s, g_CreatedAt := now\<rparr>],
        st_next_grant := st_next_grant s + 1\<rparr>"
      using True fresh assms(2) by (simp add: SetGrant_def)
    ultimately show ?thesis using assms(1) True by (auto simp: store_ok_def intro: less_imp_le)
  qed
qed

lemma store_ok_UpdateConnection: "store_ok s \<Longrightarrow> UpdateConnection f c pw s = (e, s') \<Longrightarrow> store_ok s'"
  by (auto simp: UpdateConnection_def set_fields_def split: option.splits intro!: store_ok_map_conns)

lemma store_ok_UpdatePasswordEnc: "store_ok s \<Longrightarrow> UpdatePasswordEnc f i enc s = (e, s') \<Longrightarrow> store_ok s'"
  by (auto simp: UpdatePasswordEnc_def split: option.splits intro!: store_ok_map_conns)

lemmas store_ok_ops = store_ok_create store_ok_UpdateConnection store_ok_UpdatePasswordEnc store_ok_delete
  store_ok_grant store_ok_revoke

section \<open>Grants and connection strings\<close>

lemma foldl_better_grant:
  "foldl better_grant (Some b) gs \<in> Some ` set (b # gs) \<and>
   (\<forall>g. foldl better_grant (Some b) gs = Some g \<longrightarrow>
      (g_Level g = GrantWrite) = (\<exists>x\<in>set (b # gs). g_Level x = GrantWrite))"
proof (induction gs arbitrary: b)
  case Nil
  then show ?case by simp
next
  case (Cons g gs)
  show ?case
  proof (cases "g_Level g = GrantWrite \<and> g_Level b \<noteq> GrantWrite")
    case True
    then have "foldl better_grant (Some b) (g # gs) = foldl better_grant (Some g) gs"
      by (simp add: better_grant_def)
    with Cons.IH [of g] True show ?thesis by auto
  next
    case False
    then have "foldl better_grant (Some b) (g # gs) = foldl better_grant (Some b) gs"
      by (auto simp: better_grant_def)
    with Cons.IH [of b] False show ?thesis by auto
  qed
qed

lemma upper_hex_plain:
  assumes "n < 16"
  shows "upper_hex n \<notin> {CHR '':'', CHR ''@'', CHR ''/'', CHR ''?''}"
proof -
  have "\<forall>n\<in>set [0..<16]. upper_hex n \<notin> {CHR '':'', CHR ''@'', CHR ''/'', CHR ''?''}" by code_simp
  with assms show ?thesis by simp
qed

lemma user_safe_plain: "user_safe c \<Longrightarrow> c \<notin> {CHR '':'', CHR ''@'', CHR ''/'', CHR ''?'', CHR ''%''}"
  by (auto simp: user_safe_def url_unreserved_def is_lower_def is_upper_def is_digit_def code_def)

lemma url_escape_user_plain:
  assumes "c \<in> set (url_escape user_safe s)"
  shows "c \<notin> {CHR '':'', CHR ''@'', CHR ''/'', CHR ''?''}"
proof -
  from assms obtain d where "c \<in> set (if user_safe d then [d] else
      [CHR ''%'', upper_hex (code d div 16), upper_hex (code d mod 16)])"
    by (simp only: url_escape_def set_concat set_map) blast
  moreover have "code d div 16 < 16" "code d mod 16 < 16" using code_less_256 [of d] by auto
  ultimately show ?thesis using user_safe_plain [of d] upper_hex_plain by (auto split: if_splits)
qed

text \<open>Percent-decoding, as the driver's URL parser does it.\<close>

definition upper_hex_val :: "char \<Rightarrow> nat" where
  "upper_hex_val c = (if code c < 58 then code c - 48 else code c - 55)"

fun url_unescape :: "string \<Rightarrow> string" where
  "url_unescape (c # a # b # s) =
     (if c = CHR ''%'' then char_of (16 * upper_hex_val a + upper_hex_val b) # url_unescape s
      else c # url_unescape (a # b # s))"
| "url_unescape s = s"

lemma upper_hex_val [simp]: "n < 16 \<Longrightarrow> upper_hex_val (upper_hex n) = n"
  by (simp add: upper_hex_val_def upper_hex_def code_char_of)

lemma url_unescape_plain: "c \<noteq> CHR ''%'' \<Longrightarrow> url_unescape (c # s) = c # url_unescape s"
  by (cases s rule: url_unescape.cases) auto

lemma url_unescape_escape:
  assumes "\<And>c. safe c \<Longrightarrow> c \<noteq> CHR ''%''"
  shows "url_unescape (url_escape safe s) = s"
proof (induction s)
  case Nil
  show ?case by (simp add: url_escape_def)
next
  case (Cons c s)
  have "code c div 16 < 16" "code c mod 16 < 16" using code_less_256 [of c] by auto
  moreover have "16 * (code c div 16) + code c mod 16 = code c" by simp
  ultimately show ?case using Cons assms [of c]
    by (cases "safe c") (simp_all add: url_escape_def url_unescape_plain)
qed

text \<open>How a URL parser finds the user and password: up to the first \<^verbatim>\<open>@\<close> of the authority, split at the colon.\<close>

definition read_userinfo :: "string \<Rightarrow> string \<Rightarrow> (string \<times> string \<times> string) option" where
  "read_userinfo scheme url =
     (let prefix = scheme @ ''://'' in
      if \<not> HasPrefix url prefix then None
      else case Cut (drop (length prefix) url) CHR ''@'' of
             (info, rest, found) \<Rightarrow>
               (if \<not> found then None
                else case Cut info CHR '':'' of
                       (u, p, colon) \<Rightarrow> (if colon then Some (url_unescape u, url_unescape p, rest) else None)))"

lemma read_userinfo_url_string:
  "read_userinfo scheme (url_string scheme (Some (u, p)) host path query) =
     Some (u, p, url_escape host_safe host @ url_escape path_safe path @ (if query \<noteq> [] then ''?'' @ query else []))"
proof -
  let ?u = "url_escape user_safe u" and ?p = "url_escape user_safe p"
  let ?rest = "url_escape host_safe host @ url_escape path_safe path @ (if query \<noteq> [] then ''?'' @ query else [])"
  have url: "url_string scheme (Some (u, p)) host path query
      = (scheme @ ''://'') @ (?u @ CHR '':'' # ?p) @ CHR ''@'' # ?rest" by (simp add: url_string_def)
  have "CHR ''@'' \<notin> set (?u @ CHR '':'' # ?p)" "CHR '':'' \<notin> set ?u"
    using url_escape_user_plain by auto
  moreover have "url_unescape ?u = u" "url_unescape ?p = p"
    using user_safe_plain by (auto intro!: url_unescape_escape)
  ultimately show ?thesis
    unfolding read_userinfo_def url Let_def by (simp add: Cut_found del: append_assoc)
qed

section \<open>Properties\<close>

text \<open>C10: whatever operations run and fail, the tables keep their constraints: ids are unique and below
  the next id, a connection has at most one grant per subject, no grant outlives its connection, and
  audit ids grow.\<close>

theorem store_invariant:
  assumes "store_reach driver s"
  shows "store_ok s"
  using assms
proof induction
  case opened
  show ?case by (simp add: store_ok_def empty_store_def)
next
  case (update s f c updatePw e s')
  have "cn_ID (if cn_ID row = cn_ID c then set_fields c updatePw row else row) = cn_ID row" for row
    by (simp add: set_fields_def)
  with update show ?case by (auto simp: UpdateConnection_def split: option.splits intro!: store_ok_map_conns)
next
  case (password s f i enc e s')
  then show ?case by (auto simp: UpdatePasswordEnc_def split: option.splits intro!: store_ok_map_conns)
qed (blast intro: store_ok_create store_ok_delete store_ok_audit store_ok_purge store_ok_grant store_ok_revoke)+

definition demo_conn :: connection where
  "demo_conn = \<lparr>cn_ID = 0, cn_Name = ''main'', cn_Kind = ''postgres'', cn_Host = ''db'', cn_Port = 5432,
     cn_DBName = ''app'', cn_Username = ''ann'', cn_PasswordEnc = [], cn_Options = [], cn_ReadOnly = False,
     cn_CreatedBy = [], cn_CreatedAt = 0\<rparr>"

definition demo_store :: store where
  "demo_store = snd (CreateConnection None 5 demo_conn (empty_store ''sqlite''))"

theorem store_invariant_witness: "store_reach ''sqlite'' demo_store \<and> store_ok demo_store"
proof -
  have "store_reach ''sqlite'' demo_store"
    by (rule store_reach.create [OF store_reach.opened, where f = None and now = 5 and c = demo_conn and r = "Inr 1"])
       (simp add: demo_store_def CreateConnection_def empty_store_def)
  then show ?thesis using store_invariant by blast
qed

text \<open>The grant lookup of the access check returns a grant of that connection to one of the subjects,
  a write grant exactly when one of them has a write grant, and nothing exactly when there is none.\<close>

lemma GrantForSubjects_highest:
  "case GrantForSubjects None s connID subjects of
     Inl _ \<Rightarrow> False
   | Inr None \<Rightarrow> \<not> (\<exists>g\<in>set (st_grants s). g_ConnID g = connID \<and> g_Subject g \<in> set subjects)
   | Inr (Some g) \<Rightarrow> g \<in> set (st_grants s) \<and> g_ConnID g = connID \<and> g_Subject g \<in> set subjects \<and>
       (g_Level g = GrantWrite) = (\<exists>x\<in>set (st_grants s). g_ConnID x = connID \<and> g_Subject x \<in> set subjects \<and>
          g_Level x = GrantWrite)"
proof -
  let ?gs = "filter (\<lambda>g. g_ConnID g = connID \<and> g_Subject g \<in> set subjects) (st_grants s)"
  show ?thesis
  proof (cases ?gs)
    case Nil
    then show ?thesis by (auto simp: GrantForSubjects_def filter_empty_conv)
  next
    case (Cons b gs)
    have "foldl better_grant None ?gs = foldl better_grant (Some b) gs" by (simp add: Cons better_grant_def)
    moreover obtain g where g: "foldl better_grant (Some b) gs = Some g" "g \<in> set ?gs"
      "(g_Level g = GrantWrite) = (\<exists>x\<in>set ?gs. g_Level x = GrantWrite)"
      using foldl_better_grant [of b gs] unfolding Cons by blast
    moreover have "subjects \<noteq> []" using Cons by (cases subjects) auto
    ultimately show ?thesis by (auto simp: GrantForSubjects_def)
  qed
qed

text \<open>In scoped mode a user is shown exactly the connections on which one of the subjects holds a
  grant, each once.\<close>

theorem ListConnectionsForSubjects_scope:
  assumes "store_reach driver s"
  shows "\<exists>cs. ListConnectionsForSubjects None s subjects = Inr cs \<and> distinct cs \<and> sorted (map conn_key cs) \<and>
    set cs = {c \<in> set (st_conns s). \<exists>g\<in>set (st_grants s). g_ConnID g = cn_ID c \<and> g_Subject g \<in> set subjects}"
  by (cases "subjects = []") (auto simp: ListConnectionsForSubjects_def list_ex_iff)

theorem ListConnectionsForSubjects_scope_witness:
  "\<exists>cs. store_reach ''sqlite'' (empty_store ''sqlite'') \<and>
     ListConnectionsForSubjects None (empty_store ''sqlite'') [''dev''] = Inr cs \<and> set cs = {}"
  using ListConnectionsForSubjects_scope [OF store_reach.opened, of "''sqlite''" "[''dev'']"] store_reach.opened
  by (auto simp: empty_store_def)

text \<open>C35: no user name or password can break out of its place in a Postgres or MongoDB connection string:
  a parser reads back exactly the two texts, and what follows does not depend on them.\<close>

theorem DSN_credentials_contained:
  "read_userinfo ''postgres'' (DSN c password) =
     Some (cn_Username c, password, url_escape host_safe (cn_Host c @ '':'' @ Itoa (cn_Port c))
       @ url_escape path_safe (''/'' @ cn_DBName c)
       @ ''?'' @ (if cn_Options c = [] then ''sslmode=prefer'' else cn_Options c)) \<and>
   (cn_Username c = [] \<or> read_userinfo ''mongodb'' (DSNMongo c password) =
     Some (cn_Username c, password, url_escape host_safe (cn_Host c @ '':'' @ Itoa (cn_Port c))
       @ url_escape path_safe (''/'' @ cn_DBName c) @ (if cn_Options c = [] then [] else ''?'' @ cn_Options c)))"
  by (simp add: DSN_def DSNMongo_def read_userinfo_url_string)

end
