(* ===== verification/Dialect.thy ===== *)
theory Dialect
  imports DbSql
begin

text \<open>
  The contract of the quoting half of the interface \<^verbatim>\<open>dbsql.Dialect\<close>, and the statement pieces that
  the three engine packages share. What a quoted token means is fixed by the SQL grammar: the
  readers below take the text of a token back (a doubled quote stands for one quote, and in a
  MySQL literal a backslash escapes the next byte). \<open>quoted_token\<close> says that a quoting function is
  undone by its reader whatever the quoted text and whatever follows; \<open>sql_dialect\<close> adds qualified
  names. Their lemmas hold for every engine; \<open>Postgres\<close>, \<open>MySQL\<close> and \<open>SQLite\<close> interpret them.
\<close>

section \<open>Readers of quoted tokens\<close>

fun read_body :: "char \<Rightarrow> string \<Rightarrow> (string \<times> string) option" where
  "read_body q [] = None"
| "read_body q [c] = (if c = q then Some ([], []) else None)"
| "read_body q (c # d # t) =
     (if c \<noteq> q then map_option (\<lambda>(s, r). (c # s, r)) (read_body q (d # t))
      else if d = q then map_option (\<lambda>(s, r). (q # s, r)) (read_body q t)
      else Some ([], d # t))"

definition read_quoted :: "char \<Rightarrow> string \<Rightarrow> (string \<times> string) option" where
  "read_quoted q s = (case s of [] \<Rightarrow> None | c # t \<Rightarrow> if c = q then read_body q t else None)"

text \<open>The escapes of a MySQL string literal (NO_BACKSLASH_ESCAPES off).\<close>

definition my_escape :: "char \<Rightarrow> string" where
  "my_escape d =
     (if d = CHR ''0'' then [CHR 0x00] else if d = CHR ''b'' then [CHR 0x08]
      else if d = CHR ''n'' then [NL] else if d = CHR ''r'' then [CR]
      else if d = CHR ''t'' then [TAB] else if d = CHR ''Z'' then [CHR 0x1A]
      else if d = CHR ''%'' \<or> d = CHR ''_'' then [BSL, d] else [d])"

fun my_read_body :: "string \<Rightarrow> (string \<times> string) option" where
  "my_read_body [] = None"
| "my_read_body [c] = (if c = SQ then Some ([], []) else None)"
| "my_read_body (c # d # t) =
     (if c = BSL then map_option (\<lambda>(s, r). (my_escape d @ s, r)) (my_read_body t)
      else if c \<noteq> SQ then map_option (\<lambda>(s, r). (c # s, r)) (my_read_body (d # t))
      else if d = SQ then map_option (\<lambda>(s, r). (SQ # s, r)) (my_read_body t)
      else Some ([], d # t))"

definition my_read_literal :: "string \<Rightarrow> (string \<times> string) option" where
  "my_read_literal s = (case s of [] \<Rightarrow> None | c # t \<Rightarrow> if c = SQ then my_read_body t else None)"

text \<open>A name of one or two parts joined by a dot.\<close>

definition read_path ::
    "(string \<Rightarrow> (string \<times> string) option) \<Rightarrow> string \<Rightarrow> (string list \<times> string) option" where
  "read_path read s =
     (case read s of
        None \<Rightarrow> None
      | Some (a, r) \<Rightarrow>
          (if r \<noteq> [] \<and> hd r = CHR ''.''
           then map_option (\<lambda>(b, r'). ([a, b], r')) (read (tl r))
           else Some ([a], r)))"

section \<open>The contract\<close>

locale quoted_token =
  fixes q :: char
    and quote :: "string \<Rightarrow> string"
    and read :: "string \<Rightarrow> (string \<times> string) option"
  assumes read_quote: "rest = [] \<or> hd rest \<noteq> q \<Longrightarrow> read (quote s @ rest) = Some (s, rest)"
begin

lemma read_quote_end: "read (quote s) = Some (s, [])"
  using read_quote [of "[]" s] by simp

lemma quote_inj: "quote s = quote t \<longleftrightarrow> s = t"
  by (metis option.inject prod.inject read_quote_end)

text \<open>No text inside a quoted token can move the end of the token.\<close>

lemma quote_delimits:
  assumes "rest = [] \<or> hd rest \<noteq> q" and "rest' = [] \<or> hd rest' \<noteq> q"
    and "quote s @ rest = quote t @ rest'"
  shows "s = t \<and> rest = rest'"
  by (metis assms option.inject prod.inject read_quote)

end

locale sql_dialect =
  ident: quoted_token iq QuoteIdent read_ident + lit: quoted_token lq QuoteLiteral read_literal
  for iq QuoteIdent read_ident lq QuoteLiteral read_literal +
  fixes Qualified :: "string \<Rightarrow> string \<Rightarrow> string"
    and bare :: "string \<Rightarrow> bool"
  assumes iq_not_dot: "iq \<noteq> CHR ''.''"
    and Qualified_parts:
      "Qualified s t = (if bare s then QuoteIdent t else QuoteIdent s @ ''.'' @ QuoteIdent t)"
begin

lemma read_Qualified:
  assumes "rest = [] \<or> hd rest \<noteq> iq \<and> hd rest \<noteq> CHR ''.''"
  shows "read_path read_ident (Qualified s t @ rest) = Some (if bare s then [t] else [s, t], rest)"
proof (cases "bare s")
  case True
  with assms show ?thesis
    by (auto simp: read_path_def Qualified_parts ident.read_quote ident.read_quote_end)
next
  case False
  have "read_ident (QuoteIdent s @ ''.'' @ QuoteIdent t @ rest) = Some (s, ''.'' @ QuoteIdent t @ rest)"
    using iq_not_dot by (intro ident.read_quote) simp
  with False assms show ?thesis
    by (auto simp: read_path_def Qualified_parts ident.read_quote ident.read_quote_end)
qed

end

section \<open>Quoting by doubling\<close>

definition double_quote :: "char \<Rightarrow> string \<Rightarrow> string" where
  "double_quote q s = q # ReplaceAll s [q] [q, q] @ [q]"

lemma read_body_doubled:
  "rest = [] \<or> hd rest \<noteq> q \<Longrightarrow>
     read_body q (concat (map (\<lambda>c. if c = q then [q, q] else [c]) s) @ q # rest) = Some (s, rest)"
proof (induction s)
  case Nil
  then show ?case by (cases rest) auto
next
  case (Cons c s)
  show ?case
  proof (cases "c = q")
    case True
    with Cons show ?thesis by simp
  next
    case False
    define t where "t = concat (map (\<lambda>c. if c = q then [q, q] else [c]) s) @ q # rest"
    have "t \<noteq> []" by (simp add: t_def)
    then obtain d u where t: "t = d # u" by (cases t) auto
    from Cons have "read_body q t = Some (s, rest)" by (simp add: t_def)
    then have "read_body q (c # t) = Some (c # s, rest)" using False by (simp add: t)
    with False show ?thesis by (simp add: t_def)
  qed
qed

lemma read_double_quote:
  "rest = [] \<or> hd rest \<noteq> q \<Longrightarrow> read_quoted q (double_quote q s @ rest) = Some (s, rest)"
  by (simp add: read_quoted_def double_quote_def ReplaceAll_char read_body_doubled)

lemma quoted_token_double_quote: "quoted_token q (double_quote q) (read_quoted q)"
  by unfold_locales (rule read_double_quote)

section \<open>Statement pieces shared by the engines\<close>

text \<open>Go's \<^verbatim>\<open>\u2026\<close> and \<^verbatim>\<open>\u2205\<close>, as UTF-8 bytes.\<close>

definition ellipsis :: string where "ellipsis = [CHR 0xE2, CHR 0x80, CHR 0xA6]"
definition null_mark :: string where "null_mark = [CHR 0xE2, CHR 0x88, CHR 0x85]"

text \<open>
  The row loop of every engine: take rows until 1000 are collected, and mark the result truncated
  if the driver has one more. A row that fails to decode ends the loop with its error.
\<close>

fun collect_rows :: "nat \<Rightarrow> (go_error + string list) list \<Rightarrow> go_error + (string list list \<times> bool)" where
  "collect_rows room [] = Inr ([], False)"
| "collect_rows 0 (_ # _) = Inr ([], True)"
| "collect_rows (Suc room) (Inl e # rows) = Inl e"
| "collect_rows (Suc room) (Inr r # rows) =
     (case collect_rows room rows of Inl e \<Rightarrow> Inl e | Inr (rs, tr) \<Rightarrow> Inr (r # rs, tr))"

lemma collect_rows_ok:
  "collect_rows room (map Inr rows) = Inr (take room rows, room < length rows)"
  by (induction room "map Inr rows :: (go_error + string list) list" arbitrary: rows
      rule: collect_rows.induct) auto

lemma collect_rows_bound: "collect_rows room rows = Inr (rs, tr) \<Longrightarrow> length rs \<le> room"
  by (induction room rows arbitrary: rs tr rule: collect_rows.induct) (auto split: sum.splits)

text \<open>
  The loop of the \<^verbatim>\<open>Schemas\<close> methods over the rows \<open>(schema, relation)\<close> of the catalogue: one group per
  schema in the order of first appearance; a row without a relation only opens the group.
\<close>

fun add_schema_row :: "db_schema list \<Rightarrow> string \<times> db_table option \<Rightarrow> db_schema list" where
  "add_schema_row [] (n, t) = [\<lparr>s_Name = n, s_Tables = (case t of None \<Rightarrow> [] | Some x \<Rightarrow> [x])\<rparr>]"
| "add_schema_row (s # ss) (n, t) =
     (if s_Name s = n
      then s\<lparr>s_Tables := s_Tables s @ (case t of None \<Rightarrow> [] | Some x \<Rightarrow> [x])\<rparr> # ss
      else s # add_schema_row ss (n, t))"

definition group_schemas :: "(string \<times> db_table option) list \<Rightarrow> db_schema list" where
  "group_schemas rows = foldl add_schema_row [] rows"

definition rows_of :: "string \<Rightarrow> (string \<times> db_table option) list \<Rightarrow> db_table list" where
  "rows_of n rows =
     concat (map (\<lambda>(m, t). if m = n then (case t of None \<Rightarrow> [] | Some x \<Rightarrow> [x]) else []) rows)"

lemma rows_of_append [simp]: "rows_of n (xs @ ys) = rows_of n xs @ rows_of n ys"
  by (simp add: rows_of_def)

lemma names_add_schema_row:
  "map s_Name (add_schema_row ss (n, t)) =
     (if n \<in> s_Name ` set ss then map s_Name ss else map s_Name ss @ [n])"
  by (induction ss) auto

lemma rows_of_single [simp]:
  "rows_of m [(n, t)] = (if n = m then (case t of None \<Rightarrow> [] | Some x \<Rightarrow> [x]) else [])"
  by (simp add: rows_of_def)

lemma tables_add_schema_row:
  assumes "distinct (map s_Name ss)" and "s \<in> set (add_schema_row ss (n, t))"
  shows "(\<exists>s0\<in>set ss. s_Name s0 = s_Name s \<and> s_Tables s = s_Tables s0 @ rows_of (s_Name s) [(n, t)])
     \<or> s_Name s = n \<and> n \<notin> s_Name ` set ss \<and> s_Tables s = rows_of n [(n, t)]"
  using assms
proof (induction ss)
  case Nil
  then show ?case by simp
next
  case (Cons a ss)
  show ?case
  proof (cases "s_Name a = n")
    case True
    with Cons.prems consider "s = a\<lparr>s_Tables := s_Tables a @ (case t of None \<Rightarrow> [] | Some x \<Rightarrow> [x])\<rparr>"
      | "s \<in> set ss" by auto
    then show ?thesis
    proof cases
      case 1
      with True show ?thesis by simp
    next
      case 2
      from Cons.prems True have "n \<notin> s_Name ` set ss" by simp
      with 2 have "s_Name s \<noteq> n" by blast
      with 2 show ?thesis by auto
    qed
  next
    case False
    with Cons.prems consider "s = a" | "s \<in> set (add_schema_row ss (n, t))" by auto
    then show ?thesis
    proof cases
      case 1
      with False show ?thesis by auto
    next
      case 2
      with Cons.prems have "distinct (map s_Name ss)" by simp
      from Cons.IH [OF this 2] False show ?thesis by auto
    qed
  qed
qed

lemma group_schemas_invariant:
  "distinct (map s_Name (group_schemas rows)) \<and>
   s_Name ` set (group_schemas rows) = fst ` set rows \<and>
   (\<forall>s\<in>set (group_schemas rows). s_Tables s = rows_of (s_Name s) rows)"
proof (induction rows rule: rev_induct)
  case Nil
  show ?case by (simp add: group_schemas_def)
next
  case (snoc row rows)
  obtain n t where row: "row = (n, t)" by force
  define ss where "ss = group_schemas rows"
  have step: "group_schemas (rows @ [row]) = add_schema_row ss (n, t)"
    by (simp add: group_schemas_def ss_def row)
  from snoc have d: "distinct (map s_Name ss)" and names: "s_Name ` set ss = fst ` set rows"
    and tabs: "\<And>s. s \<in> set ss \<Longrightarrow> s_Tables s = rows_of (s_Name s) rows"
    by (simp_all add: ss_def)
  have "n \<notin> fst ` set rows \<Longrightarrow> rows_of n rows = []"
    by (force simp: rows_of_def)
  then have "s_Tables s = rows_of (s_Name s) (rows @ [row])" if "s \<in> set (add_schema_row ss (n, t))" for s
    using tables_add_schema_row [OF d that] tabs names by (auto simp: row)
  moreover have "distinct (map s_Name (add_schema_row ss (n, t)))"
    using d by (simp add: names_add_schema_row)
  moreover have "s_Name ` set (add_schema_row ss (n, t)) = fst ` set (rows @ [row])"
    using names arg_cong [OF names_add_schema_row [of ss n t], of set] by (auto simp: row)
  ultimately show ?case by (simp add: step)
qed

end
