(* ===== verification/Driver.thy ===== *)
theory Driver
  imports Dialect
begin

text \<open>
  The database drivers as the engines see them. A server is a parameter of the model: a function
  from the commands already sent on the connection and the next command to its answer, so whatever
  is proved of the engines holds for every server. The engines return their result together with
  the commands they sent; a deferred call (\<^verbatim>\<open>defer conn.Release()\<close>, \<^verbatim>\<open>defer tx.Rollback()\<close>) is a
  command at the end. A deferred \<^verbatim>\<open>tx.Rollback()\<close> that runs after \<^verbatim>\<open>tx.Commit()\<close> sends nothing, whether
  the commit succeeded or failed: \<^verbatim>\<open>Commit\<close> closes the transaction first, in \<^verbatim>\<open>database/sql\<close> and in \<^verbatim>\<open>pgx\<close>,
  and \<^verbatim>\<open>Rollback\<close> on a closed one only returns \<^verbatim>\<open>ErrTxDone\<close> (\<^verbatim>\<open>ErrTxClosed\<close>). \<open>script_loop\<close>, \<open>rows_result\<close> and \<open>scan_rows\<close> are the three loops that the
  packages \<^verbatim>\<open>postgres\<close>, \<^verbatim>\<open>mysql\<close> and \<^verbatim>\<open>sqlite\<close> all contain.
\<close>

section \<open>Commands and answers\<close>

record db_error =
  de_server :: bool
  de_code :: string
  de_number :: int
  de_message :: string

text \<open>
  A value of a row: \<^verbatim>\<open>nil\<close>, bytes, a time (already in RFC 3339), a string, a value that implements
  \<^verbatim>\<open>driver.Valuer\<close> (with the scalar it yields, if any, and its \<^verbatim>\<open>%v\<close> text), or another value.
\<close>

datatype go_value =
    VNil
  | VBytes string
  | VTime string
  | VString string
  | VValuer "go_value option" string
  | VOther string

text \<open>\<open>SCatalog\<close> is a catalogue statement of the introspection methods with its bound arguments, sent on any
  pooled connection, outside a transaction and outside the read-only mode.\<close>

datatype sql_cmd =
    Acquire
  | Release
  | BeginTx bool
  | Commit
  | Rollback
  | SExec string
  | SQuery string
  | SSimple string
  | SCatalog string "string list"

type_synonym simple_stmt = "string list \<times> string option list list \<times> string \<times> int"

datatype sql_answer =
    AErr db_error
  | AOk int
  | ARows "string list result" "(go_error + go_value list) list" "go_error option" string int
  | ASimple "simple_stmt list" "go_error option"

type_synonym sql_server = "sql_cmd list \<Rightarrow> sql_cmd \<Rightarrow> sql_answer"
type_synonym sql_trace = "sql_cmd list"

section \<open>Row loops\<close>

definition empty_result :: db_result where
  "empty_result = \<lparr>r_Columns = [], r_Rows = [], r_IsSelect = False, r_RowsAffected = 0,
     r_Command = [], r_Truncated = False\<rparr>"

text \<open>
  A row set with at most 1000 rows. Go returns the rows read so far together with the error when
  the stream ends with one; the callers look at the error first.
\<close>

definition rows_result ::
    "string list \<Rightarrow> (go_error + string list) list \<Rightarrow> go_error option \<Rightarrow> db_result result" where
  "rows_result cols rows final =
     (case collect_rows 1000 rows of
        Inl e \<Rightarrow> Inl e
      | Inr (rs, tr) \<Rightarrow>
          (case final of
             Some e \<Rightarrow> Inl e
           | None \<Rightarrow> Inr (empty_result\<lparr>r_IsSelect := True, r_Columns := cols, r_Rows := rs,
                                        r_Truncated := tr\<rparr>)))"

lemma rows_result_bound: "rows_result cols rows final = Inr r \<Longrightarrow> length (r_Rows r) \<le> 1000"
  using collect_rows_bound [of 1000 rows]
  by (auto simp: rows_result_def split: sum.splits option.splits)

lemma rows_result_ok:
  "rows_result cols (map Inr rows) None = Inr (empty_result\<lparr>r_IsSelect := True, r_Columns := cols,
     r_Rows := take 1000 rows, r_Truncated := 1000 < length rows\<rparr>)"
  by (simp add: rows_result_def collect_rows_ok)

text \<open>
  The introspection methods: run a catalogue query, scan every row, convert it. \<open>rowset\<close> is the
  answer to the query: its error, or the rows (each scanned or a scan error) and \<^verbatim>\<open>rows.Err()\<close>.
\<close>

type_synonym 'r rowset = "go_error + ((go_error + 'r) list \<times> go_error option)"

fun scan_all :: "(go_error + 'r) list \<Rightarrow> go_error + 'r list" where
  "scan_all [] = Inr []"
| "scan_all (Inl e # rows) = Inl e"
| "scan_all (Inr r # rows) = (case scan_all rows of Inl e \<Rightarrow> Inl e | Inr rs \<Rightarrow> Inr (r # rs))"

definition scan_rows :: "('r \<Rightarrow> 'x) \<Rightarrow> 'r rowset \<Rightarrow> 'x list result" where
  "scan_rows conv answer =
     (case answer of
        Inl e \<Rightarrow> Inl e
      | Inr (rows, final) \<Rightarrow>
          (case scan_all rows of
             Inl e \<Rightarrow> Inl e
           | Inr rs \<Rightarrow> (case final of Some e \<Rightarrow> Inl e | None \<Rightarrow> Inr (map conv rs))))"

lemma scan_all_ok [simp]: "scan_all (map Inr rows) = Inr rows"
  by (induction rows) auto

lemma scan_all_Inr: "scan_all rows = Inr rs \<longleftrightarrow> rows = map Inr rs"
proof (induction rows arbitrary: rs)
  case Nil
  then show ?case by auto
next
  case (Cons a rows)
  then show ?case by (cases a) (auto split: sum.splits simp: Cons_eq_map_conv)
qed

lemma scan_rows_ok [simp]: "scan_rows conv (Inr (map Inr rows, None)) = Inr (map conv rows)"
  by (simp add: scan_rows_def)

lemma scan_rows_Inr:
  "scan_rows conv answer = Inr xs \<longleftrightarrow> (\<exists>rows. answer = Inr (map Inr rows, None) \<and> xs = map conv rows)"
  by (auto simp: scan_rows_def scan_all_Inr split: sum.splits option.splits)

section \<open>The statement loop of a transaction\<close>

definition truncateStmt :: "string \<Rightarrow> string" where
  "truncateStmt s =
     (let s = Join (Fields s) '' '' in if length s > 80 then take 80 s @ ellipsis else s)"

fun script_loop :: "sql_server \<Rightarrow> sql_trace \<Rightarrow> string list \<Rightarrow> go_error option \<times> sql_trace" where
  "script_loop srv tr [] = (None, tr)"
| "script_loop srv tr (s # stmts) =
     (let s = TrimSpace s in
      if s = [] then script_loop srv tr stmts
      else case srv tr (SExec s) of
             AErr e \<Rightarrow> (Some (truncateStmt s @ '': '' @ de_message e), tr @ [SExec s])
           | _ \<Rightarrow> script_loop srv (tr @ [SExec s]) stmts)"

definition script_commit :: "sql_server \<Rightarrow> sql_trace \<Rightarrow> unit result \<times> sql_trace" where
  "script_commit srv tr =
     ((case srv tr Commit of AErr e \<Rightarrow> Inl (de_message e) | _ \<Rightarrow> Inr ()), tr @ [Commit])"

text \<open>A transaction: begin, the fixed statements of the engine, the script, commit or roll back.\<close>

fun exec_all :: "sql_server \<Rightarrow> sql_trace \<Rightarrow> string list \<Rightarrow> db_error option \<times> sql_trace" where
  "exec_all srv tr [] = (None, tr)"
| "exec_all srv tr (c # cs) =
     (case srv tr (SExec c) of
        AErr e \<Rightarrow> (Some e, tr @ [SExec c])
      | _ \<Rightarrow> exec_all srv (tr @ [SExec c]) cs)"

definition exec_script :: "string list \<Rightarrow> sql_server \<Rightarrow> string list \<Rightarrow> unit result \<times> sql_trace" where
  "exec_script preamble srv stmts =
     (case srv [] (BeginTx False) of
        AErr e \<Rightarrow> (Inl (de_message e), [BeginTx False])
      | _ \<Rightarrow>
        (case exec_all srv [BeginTx False] preamble of
           (Some e, tr) \<Rightarrow> (Inl (de_message e), tr @ [Rollback])
         | (None, tr) \<Rightarrow>
           (case script_loop srv tr stmts of
              (Some e, tr) \<Rightarrow> (Inl e, tr @ [Rollback])
            | (None, tr) \<Rightarrow> script_commit srv tr)))"

section \<open>Specification of a script run\<close>

text \<open>The statements that a script amounts to: trimmed, blank entries dropped.\<close>

definition script_stmts :: "string list \<Rightarrow> string list" where
  "script_stmts stmts = filter (\<lambda>s. s \<noteq> []) (map TrimSpace stmts)"

definition refused :: "sql_answer \<Rightarrow> bool" where
  "refused a \<longleftrightarrow> (case a of AErr _ \<Rightarrow> True | _ \<Rightarrow> False)"

lemma refused_simps [simp]:
  "refused (AErr e)" "\<not> refused (AOk n)" "\<not> refused (ARows c r f t m)" "\<not> refused (ASimple s g)"
  by (simp_all add: refused_def)

lemma case_refused:
  "\<not> refused a \<Longrightarrow> (case a of AErr e \<Rightarrow> f e | AOk n \<Rightarrow> g | ARows c r fi t m \<Rightarrow> g | ASimple s h \<Rightarrow> g) = g"
  by (cases a) auto

lemma refusedE:
  assumes "refused a"
  obtains e where "a = AErr e"
  using assms by (cases a) auto

text \<open>The first of a list of commands, sent one after the other, that the server refuses: its position
  and the error; \<open>None\<close> if it accepts all of them.\<close>

fun first_refused :: "sql_server \<Rightarrow> sql_trace \<Rightarrow> sql_cmd list \<Rightarrow> (nat \<times> db_error) option" where
  "first_refused srv tr [] = None"
| "first_refused srv tr (c # cs) =
     (case srv tr c of
        AErr e \<Rightarrow> Some (0, e)
      | _ \<Rightarrow> map_option (\<lambda>(k, e). (Suc k, e)) (first_refused srv (tr @ [c]) cs))"

lemma first_refused_step:
  "\<not> refused (srv tr c) \<Longrightarrow>
   first_refused srv tr (c # cs) = map_option (\<lambda>(k, e). (Suc k, e)) (first_refused srv (tr @ [c]) cs)"
  by (simp add: case_refused)

lemma first_refused_bound: "first_refused srv tr cs = Some (k, e) \<Longrightarrow> k < length cs"
proof (induction cs arbitrary: tr k)
  case (Cons c cs)
  then show ?case by (cases "srv tr c") auto
qed simp

lemma first_refused_append:
  "first_refused srv tr (as @ bs) =
     (case first_refused srv tr as of
        Some r \<Rightarrow> Some r
      | None \<Rightarrow> map_option (\<lambda>(k, e). (length as + k, e)) (first_refused srv (tr @ as) bs))"
proof (induction as arbitrary: tr)
  case Nil
  then show ?case by (simp add: option.map_ident split_beta option.map_id0)
next
  case (Cons a as)
  show ?case
  proof (cases "refused (srv tr a)")
    case True
    then show ?thesis by (auto elim: refusedE)
  next
    case False
    show ?thesis unfolding append_Cons first_refused_step [of srv tr a, OF False] Cons.IH
      by (auto simp: option.map_comp comp_def case_prod_unfold split: option.split)
  qed
qed

text \<open>What the two loops send: everything, or all up to the first command that is refused.\<close>

lemma exec_all_exact:
  "exec_all srv tr cs =
     (case first_refused srv tr (map SExec cs) of
        None \<Rightarrow> (None, tr @ map SExec cs)
      | Some (k, e) \<Rightarrow> (Some e, tr @ map SExec (take (Suc k) cs)))"
proof (induction cs arbitrary: tr)
  case (Cons c cs)
  then show ?case
    by (cases "refused (srv tr (SExec c))") (auto simp: case_refused elim!: refusedE split: option.split)
qed simp

lemma exec_all_trace:
  "exec_all srv tr cs = (e, tr') \<Longrightarrow>
     \<exists>k\<le>length cs. tr' = tr @ map SExec (take k cs) \<and> (e = None \<longrightarrow> k = length cs)"
proof (cases "first_refused srv tr (map SExec cs)")
  case (Some x)
  assume "exec_all srv tr cs = (e, tr')"
  with Some show ?thesis using first_refused_bound [of srv tr "map SExec cs" "fst x" "snd x"]
    by (intro exI [of _ "Suc (fst x)"]) (auto simp: exec_all_exact split_beta)
qed (auto simp: exec_all_exact)

lemma script_stmts_simps [simp]:
  "script_stmts [] = []"
  "script_stmts (s # stmts) = (if TrimSpace s = [] then [] else [TrimSpace s]) @ script_stmts stmts"
  by (simp_all add: script_stmts_def)

lemma script_loop_exact:
  "script_loop srv tr stmts =
     (case first_refused srv tr (map SExec (script_stmts stmts)) of
        None \<Rightarrow> (None, tr @ map SExec (script_stmts stmts))
      | Some (k, e) \<Rightarrow> (Some (truncateStmt (script_stmts stmts ! k) @ '': '' @ de_message e),
                        tr @ map SExec (take (Suc k) (script_stmts stmts))))"
proof (induction stmts arbitrary: tr)
  case (Cons s stmts)
  show ?case
  proof (cases "TrimSpace s = []")
    case True
    then have "script_stmts (s # stmts) = script_stmts stmts" by simp
    with True Cons show ?thesis by (simp split: option.split)
  next
    case False
    with Cons show ?thesis
      by (cases "refused (srv tr (SExec (TrimSpace s)))") (auto simp: case_refused Let_def elim!: refusedE split: option.split)
  qed
qed simp

text \<open>
  The specification of a script: the transaction with all its commands, and the error text of a refusal
  at position \<open>k\<close> of them, which names the statement if it is one of the script.
\<close>

definition script_cmds :: "string list \<Rightarrow> string list \<Rightarrow> sql_cmd list" where
  "script_cmds pre stmts = BeginTx False # map SExec (pre @ script_stmts stmts) @ [Commit]"

definition script_error :: "string list \<Rightarrow> string list \<Rightarrow> nat \<Rightarrow> db_error \<Rightarrow> string" where
  "script_error pre stmts k e =
     (if length pre < k \<and> k \<le> length pre + length (script_stmts stmts)
      then truncateStmt (script_stmts stmts ! (k - 1 - length pre)) @ '': '' @ de_message e
      else de_message e)"

lemma exec_script_exact:
  "exec_script pre srv stmts =
     (case first_refused srv [] (script_cmds pre stmts) of
        None \<Rightarrow> (Inr (), script_cmds pre stmts)
      | Some (k, e) \<Rightarrow>
          (Inl (script_error pre stmts k e),
           take (Suc k) (script_cmds pre stmts)
             @ (if k = 0 \<or> Suc k = length (script_cmds pre stmts) then [] else [Rollback])))"
proof (cases "refused (srv [] (BeginTx False))")
  case True
  then show ?thesis by (auto simp: exec_script_def script_cmds_def script_error_def elim!: refusedE)
next
  case begun: False
  let ?b = "[BeginTx False]" and ?s = "script_stmts stmts"
  have fr: "first_refused srv [] (script_cmds pre stmts) =
      map_option (\<lambda>(k, e). (Suc k, e)) (first_refused srv ?b (map SExec pre @ map SExec ?s @ [Commit]))"
    using begun by (simp add: script_cmds_def case_refused)
  show ?thesis
  proof (cases "first_refused srv ?b (map SExec pre)")
    case (Some r)
    then obtain k e where r: "first_refused srv ?b (map SExec pre) = Some (k, e)" by (cases r) simp
    with first_refused_bound [OF r] begun show ?thesis
      by (simp add: fr first_refused_append exec_script_def exec_all_exact case_refused script_cmds_def script_error_def take_map)
  next
    case pre: None
    let ?b2 = "?b @ map SExec pre"
    show ?thesis
    proof (cases "first_refused srv ?b2 (map SExec ?s)")
      case (Some r)
      then obtain k e where r: "first_refused srv ?b2 (map SExec ?s) = Some (k, e)" by (cases r) simp
      with first_refused_bound [OF r] begun pre show ?thesis
        by (simp add: fr first_refused_append exec_script_def exec_all_exact script_loop_exact case_refused script_cmds_def
            script_error_def take_map)
    next
      case None
      with begun pre show ?thesis
        by (cases "srv (?b2 @ map SExec ?s) Commit")
           (simp_all add: fr first_refused_append exec_script_def exec_all_exact script_loop_exact script_commit_def
             case_refused script_cmds_def script_error_def)
    qed
  qed
qed

end
