(* ===== verification/Postgres.thy ===== *)
theory Postgres
  imports Driver
begin

text \<open>
  Package \<^verbatim>\<open>internal/postgres\<close> (\<^verbatim>\<open>postgres.go\<close>, \<^verbatim>\<open>ddl.go\<close>, \<^verbatim>\<open>engine.go\<close>): quoting, the SQL text builders, the
  form compiler, the code generators, the server-side screen, and the protocol that \<^verbatim>\<open>Query\<close> and
  \<^verbatim>\<open>ExecScript\<close> run on a pooled connection. The server is a parameter: a function from the commands
  already sent on the connection and the next command to its answer, so the lemmas on the protocol
  hold for every server. The rows that the catalogue queries return are arguments.
\<close>

section \<open>Quoting\<close>

definition pg_quoteIdent :: "string \<Rightarrow> string" where
  "pg_quoteIdent s = [DQ] @ ReplaceAll s [DQ] [DQ, DQ] @ [DQ]"

definition pg_QuoteLiteral :: "string \<Rightarrow> string" where
  "pg_QuoteLiteral s = [SQ] @ ReplaceAll s [SQ] [SQ, SQ] @ [SQ]"

definition pg_Qualified :: "string \<Rightarrow> string \<Rightarrow> string" where
  "pg_Qualified schema table = pg_quoteIdent schema @ ''.'' @ pg_quoteIdent table"

section \<open>Statement builders\<close>

definition pg_DropTableSQL :: "string \<Rightarrow> string \<Rightarrow> string" where
  "pg_DropTableSQL schema table = ''DROP TABLE '' @ pg_Qualified schema table"

definition pg_TruncateSQL :: "string \<Rightarrow> string \<Rightarrow> string" where
  "pg_TruncateSQL schema table = ''TRUNCATE TABLE '' @ pg_Qualified schema table"

definition pg_DropColumnSQL :: "string \<Rightarrow> string \<Rightarrow> string \<Rightarrow> string" where
  "pg_DropColumnSQL schema table column =
     ''ALTER TABLE '' @ pg_Qualified schema table @ '' DROP COLUMN '' @ pg_quoteIdent column"

definition pg_DropIndexSQL :: "string \<Rightarrow> string \<Rightarrow> string \<Rightarrow> string" where
  "pg_DropIndexSQL schema table name = ''DROP INDEX '' @ pg_Qualified schema name"

definition pg_DropSchemaSQL :: "string \<Rightarrow> bool \<Rightarrow> string" where
  "pg_DropSchemaSQL name cascade =
     (let s = ''DROP SCHEMA '' @ pg_quoteIdent name in if cascade then s @ '' CASCADE'' else s)"

definition pg_AlterSchemaSQL :: "string \<Rightarrow> string \<Rightarrow> string \<Rightarrow> string list" where
  "pg_AlterSchemaSQL name newName owner =
     (if owner \<noteq> [] then [''ALTER SCHEMA '' @ pg_quoteIdent name @ '' OWNER TO '' @ pg_quoteIdent owner]
      else []) @
     (if newName \<noteq> [] \<and> newName \<noteq> name
      then [''ALTER SCHEMA '' @ pg_quoteIdent name @ '' RENAME TO '' @ pg_quoteIdent newName] else [])"

definition role_flag :: "bool \<Rightarrow> bool \<Rightarrow> string \<Rightarrow> string \<Rightarrow> string" where
  "role_flag explicit on yes no = (if on then yes else if explicit then no else [])"

definition roleOptions :: "role_attrs \<Rightarrow> bool \<Rightarrow> string list" where
  "roleOptions a explicit =
     filter (\<lambda>opt. opt \<noteq> [])
       [role_flag explicit (ra_Login a) ''LOGIN'' ''NOLOGIN'',
        role_flag explicit (ra_Super a) ''SUPERUSER'' ''NOSUPERUSER'',
        role_flag explicit (ra_CreateDB a) ''CREATEDB'' ''NOCREATEDB'',
        role_flag explicit (ra_CreateRole a) ''CREATEROLE'' ''NOCREATEROLE''] @
     (if ra_Password a \<noteq> [] then [''PASSWORD '' @ pg_QuoteLiteral (ra_Password a)] else [])"

definition CreateRoleSQL :: "string \<Rightarrow> role_attrs \<Rightarrow> string" where
  "CreateRoleSQL name a =
     (let opts = roleOptions a False
      in if opts = [] then ''CREATE ROLE '' @ pg_quoteIdent name
         else ''CREATE ROLE '' @ pg_quoteIdent name @ '' WITH '' @ Join opts '' '')"

definition AlterRoleSQL :: "string \<Rightarrow> string \<Rightarrow> role_attrs \<Rightarrow> string list" where
  "AlterRoleSQL name newName a =
     (let opts = roleOptions a True
      in if opts \<noteq> [] then [''ALTER ROLE '' @ pg_quoteIdent name @ '' WITH '' @ Join opts '' ''] else []) @
     (if newName \<noteq> [] \<and> newName \<noteq> name
      then [''ALTER ROLE '' @ pg_quoteIdent name @ '' RENAME TO '' @ pg_quoteIdent newName] else [])"

definition DropRoleSQL :: "string \<Rightarrow> string" where
  "DropRoleSQL name = ''DROP ROLE '' @ pg_quoteIdent name"

definition pg_FormSQL :: "form_spec \<Rightarrow> (string list \<times> string) result" where
  "pg_FormSQL f =
     (let tbl = pg_Qualified (f_Schema f) (f_Table f) in
      if f_Kind f = ''add-column'' then
        (if f_Name f = [] \<or> f_Type f = [] then Inl ''column name and type are required''
         else Inr ([''ALTER TABLE '' @ tbl @ '' ADD COLUMN '' @ pg_quoteIdent (f_Name f) @ '' '' @ f_Type f
                    @ (if \<not> f_Nullable f then '' NOT NULL'' else [])
                    @ (if f_Default f \<noteq> [] then '' DEFAULT '' @ f_Default f else [])],
                   ''pg_ddl_add_column''))
      else if f_Kind f = ''modify-column'' then
        (if f_Type f = [] then Inl ''type is required''
         else let col = pg_quoteIdent (f_Column f);
                  parts = [''ALTER COLUMN '' @ col @ '' TYPE '' @ f_Type f,
                           (if f_Nullable f then ''ALTER COLUMN '' @ col @ '' DROP NOT NULL''
                            else ''ALTER COLUMN '' @ col @ '' SET NOT NULL''),
                           (if f_Default f \<noteq> [] then ''ALTER COLUMN '' @ col @ '' SET DEFAULT '' @ f_Default f
                            else ''ALTER COLUMN '' @ col @ '' DROP DEFAULT'')]
              in Inr ([''ALTER TABLE '' @ tbl @ '' '' @ Join parts '', ''], ''pg_ddl_modify_column''))
      else if f_Kind f = ''rename-table'' then
        (if f_Name f = [] then Inl ''new name is required''
         else Inr ([''ALTER TABLE '' @ tbl @ '' RENAME TO '' @ pg_quoteIdent (f_Name f)], ''pg_ddl_rename_table''))
      else if f_Kind f = ''new-schema'' then
        (if f_Name f = [] then Inl ''schema name is required''
         else Inr ([''CREATE SCHEMA '' @ pg_quoteIdent (f_Name f)
                    @ (if f_Owner f \<noteq> [] then '' AUTHORIZATION '' @ pg_quoteIdent (f_Owner f) else [])],
                   ''pg_ddl_create_schema''))
      else if f_Kind f = ''new-table'' then
        (if f_Name f = [] \<or> f_Columns f = [] then Inl ''table name and column definitions are required''
         else Inr ([''CREATE TABLE '' @ pg_Qualified (f_Schema f) (f_Name f) @ '' ('' @ [NL] @ f_Columns f @ [NL] @ '')''],
                   ''pg_ddl_create_table''))
      else if f_Kind f = ''new-index'' then
        (if f_Name f = [] \<or> f_Columns f = [] then Inl ''index name and columns are required''
         else Inr ([''CREATE '' @ (if f_Unique f then ''UNIQUE '' else []) @ ''INDEX '' @ pg_quoteIdent (f_Name f)
                    @ '' ON '' @ tbl @ '' ('' @ f_Columns f @ '')''], ''pg_ddl_create_index''))
      else if f_Kind f = ''create-user'' then
        (if f_Name f = [] then Inl ''role name is required''
         else Inr ([CreateRoleSQL (f_Name f) (f_Role f)], ''pg_ddl_create_role''))
      else Inl (''unknown form kind '' @ quoted_go (f_Kind f)))"

section \<open>The server-side screen\<close>

definition pg_server_words :: "string list" where
  "pg_server_words =
     [''pg_read_file'', ''pg_read_binary_file'', ''pg_ls_dir'', ''pg_stat_file'', ''pg_ls_logdir'',
      ''pg_ls_waldir'', ''lo_import'', ''lo_export'', ''pg_execute_server_program'',
      ''pg_read_server_files'', ''pg_write_server_files'']"

definition pg_reServerSide :: re where
  "pg_reServerSide =
     alts (seqs [WordB, lit_ci ''copy'', WordB, Star (notch CHR '';''), WordB, lit_ci ''program'', WordB]
           # map word_ci pg_server_words)"

definition pg_IsServerSideExec :: "string \<Rightarrow> bool" where
  "pg_IsServerSideExec sql = MatchString pg_reServerSide sql"

section \<open>Introspection helpers\<close>

definition index_from :: "string \<Rightarrow> char \<Rightarrow> nat option" where
  "index_from s c = (if c \<in> set s then Some (length (takeWhile (\<lambda>x. x \<noteq> c) s)) else None)"

definition last_index :: "string \<Rightarrow> char \<Rightarrow> nat option" where
  "last_index s c = map_option (\<lambda>i. length s - 1 - i) (index_from (rev s) c)"

definition parenContents :: "string \<Rightarrow> bool \<Rightarrow> string" where
  "parenContents s at_last =
     (case (if at_last then last_index s CHR ''('' else index_from s CHR ''('') of
        None \<Rightarrow> []
      | Some i \<Rightarrow>
          (case index_from (drop i s) CHR '')'' of
             None \<Rightarrow> []
           | Some rel \<Rightarrow> take (rel - 1) (drop (i + 1) s)))"

definition constraintType :: "string \<Rightarrow> string" where
  "constraintType c =
     (if c = ''p'' then ''primary'' else if c = ''f'' then ''foreign''
      else if c = ''u'' then ''unique'' else if c = ''c'' then ''check'' else c)"

definition pg_kind_row :: "string \<times> string option \<times> string option \<times> int option \<Rightarrow> string \<times> db_table option" where
  "pg_kind_row row =
     (case row of (schema, name, kind, est) \<Rightarrow>
       (schema, map_option (\<lambda>n. \<lparr>t_Schema = schema, t_Name = n,
                   t_Kind = (case kind of None \<Rightarrow> [] | Some k \<Rightarrow> k),
                   t_EstRows = (case est of None \<Rightarrow> 0 | Some e \<Rightarrow> e)\<rparr>) name))"

definition pg_Schemas :: "(string \<times> string option \<times> string option \<times> int option) rowset \<Rightarrow> db_schema list result" where
  "pg_Schemas answer = map_sum id group_schemas (scan_rows pg_kind_row answer)"

definition pg_Columns :: "(string \<times> string \<times> bool \<times> string \<times> bool \<times> bool) rowset \<Rightarrow> db_column list result" where
  "pg_Columns =
     scan_rows (\<lambda>(name, ty, notnull, dflt, pk, ident).
       \<lparr>c_Name = name, c_Type = ty, c_NotNull = notnull, c_Default = dflt, c_PK = pk,
        c_AutoInc = (ident \<or> HasPrefix (ToLower dflt) ''nextval'')\<rparr>)"

definition pg_Indexes :: "(string \<times> bool \<times> bool \<times> string) rowset \<Rightarrow> db_index list result" where
  "pg_Indexes =
     scan_rows (\<lambda>(name, unique, primary, def).
       \<lparr>ix_Name = name, ix_Unique = unique, ix_Primary = primary, ix_Def = def,
        ix_Cols = parenContents def True\<rparr>)"

definition pg_Keys :: "(string \<times> string \<times> string) rowset \<Rightarrow> db_key list result" where
  "pg_Keys =
     scan_rows (\<lambda>(name, t, def).
       \<lparr>k_Name = name, k_Type = constraintType t, k_Def = def, k_Cols = parenContents def False\<rparr>)"

definition pg_Roles ::
    "(string \<times> bool \<times> bool \<times> bool \<times> bool \<times> bool \<times> int \<times> string) rowset \<Rightarrow> db_role list result" where
  "pg_Roles =
     scan_rows (\<lambda>(name, super, createdb, createrole, login, repl, limit, valid).
       \<lparr>rl_Name = name, rl_Host = [], rl_Super = super, rl_CreateDB = createdb, rl_CreateRole = createrole,
        rl_CanLogin = login, rl_Replication = repl, rl_ConnLimit = limit, rl_ValidUntil = valid\<rparr>)"

definition pg_FindUsages :: "(string \<times> string \<times> string \<times> string) rowset \<Rightarrow> db_usage list result" where
  "pg_FindUsages =
     scan_rows (\<lambda>(schema, table, name, def).
       \<lparr>us_Schema = schema, us_Table = table, us_Name = name, us_Def = def\<rparr>)"

section \<open>Code generators\<close>

definition pg_GenSelect :: "db_column list result \<Rightarrow> string \<Rightarrow> string \<Rightarrow> string result" where
  "pg_GenSelect columns schema table =
     (case columns of
        Inl e \<Rightarrow> Inl e
      | Inr cols \<Rightarrow>
          (if cols = [] then Inr (''SELECT *'' @ [NL] @ ''FROM '' @ pg_Qualified schema table @ [NL] @ ''LIMIT 100;'')
           else Inr (''SELECT '' @ Join (map (\<lambda>c. pg_quoteIdent (c_Name c)) cols) '', '' @ [NL]
                     @ ''FROM '' @ pg_Qualified schema table @ [NL] @ ''LIMIT 100;'')))"

definition pg_GenInsert :: "db_column list result \<Rightarrow> string \<Rightarrow> string \<Rightarrow> string result" where
  "pg_GenInsert columns schema table =
     (case columns of
        Inl e \<Rightarrow> Inl e
      | Inr cols \<Rightarrow>
          Inr (''INSERT INTO '' @ pg_Qualified schema table @ '' (''
               @ Join (map (\<lambda>c. pg_quoteIdent (c_Name c)) cols) '', '' @ '')'' @ [NL]
               @ ''VALUES ('' @ Join (map (\<lambda>_. ''null'') cols) '', '' @ '');''))"

definition pg_GenUpdate :: "db_column list result \<Rightarrow> string \<Rightarrow> string \<Rightarrow> string result" where
  "pg_GenUpdate columns schema table =
     (case columns of
        Inl e \<Rightarrow> Inl e
      | Inr cols \<Rightarrow>
          Inr (''UPDATE '' @ pg_Qualified schema table @ [NL] @ ''SET ''
               @ Join (map (\<lambda>c. pg_quoteIdent (c_Name c) @ '' = null'') (filter (\<lambda>c. \<not> c_PK c) cols))
                   ('','' @ [NL] @ ''    '')
               @ [NL] @ ''WHERE <condition>;''))"

definition pg_column_line :: "db_column \<Rightarrow> string" where
  "pg_column_line c =
     ''    '' @ pg_quoteIdent (c_Name c) @ '' '' @ c_Type c
     @ (if c_NotNull c then '' NOT NULL'' else [])
     @ (if c_Default c \<noteq> [] then '' DEFAULT '' @ c_Default c else [])"

definition pg_CreateTableDDL ::
    "db_column list result \<Rightarrow> db_key list result \<Rightarrow> db_index list result \<Rightarrow> string \<Rightarrow> string \<Rightarrow> string result" where
  "pg_CreateTableDDL columns keys indexes schema table =
     (case columns of Inl e \<Rightarrow> Inl e | Inr cols \<Rightarrow>
      (case keys of Inl e \<Rightarrow> Inl e | Inr ks \<Rightarrow>
      (case indexes of Inl e \<Rightarrow> Inl e | Inr idx \<Rightarrow>
        let lines = map pg_column_line cols
              @ map (\<lambda>k. ''    CONSTRAINT '' @ pg_quoteIdent (k_Name k) @ '' '' @ k_Def k) ks
        in Inr (''CREATE TABLE '' @ pg_Qualified schema table @ '' ('' @ [NL] @ Join lines ('','' @ [NL]) @ [NL] @ '');''
                @ concat (map (\<lambda>ix. [NL, NL] @ ix_Def ix @ '';'')
                    (filter (\<lambda>ix. \<not> (ix_Name ix \<in> k_Name ` set ks \<or> ix_Primary ix)) idx))))))"

section \<open>The protocol on a pooled connection\<close>

fun pg_format :: "go_value \<Rightarrow> string" where
  "pg_format VNil = null_mark"
| "pg_format (VBytes b) = b"
| "pg_format (VTime t) = t"
| "pg_format (VString s) = s"
| "pg_format (VValuer None text) = text"
| "pg_format (VValuer (Some dv) text) = (if dv = VNil then text else pg_format dv)"
| "pg_format (VOther text) = text"

definition isMultiCommand :: "db_error \<Rightarrow> bool" where
  "isMultiCommand e \<longleftrightarrow> de_server e \<and> de_code e = ''42601'' \<and> Contains (de_message e) ''multiple commands''"

text \<open>One statement of a simple-protocol run, and the last of them.\<close>

definition simple_result :: "simple_stmt \<Rightarrow> db_result" where
  "simple_result x =
     (case x of (fds, rows, tag, affected) \<Rightarrow>
       if fds \<noteq> []
       then empty_result\<lparr>r_IsSelect := True, r_Columns := fds,
              r_Rows := take 1000 (map (map (\<lambda>v. case v of None \<Rightarrow> null_mark | Some s \<Rightarrow> s)) rows),
              r_Truncated := 1000 < length rows\<rparr>
       else empty_result\<lparr>r_Command := tag, r_RowsAffected := affected\<rparr>)"

definition querySimple :: "sql_server \<Rightarrow> sql_trace \<Rightarrow> string \<Rightarrow> db_result result \<times> sql_trace" where
  "querySimple srv tr sql =
     ((case srv tr (SSimple sql) of
         ASimple results None \<Rightarrow> Inr (if results = [] then empty_result else simple_result (last results))
       | ASimple results (Some e) \<Rightarrow> Inl e
       | AErr e \<Rightarrow> Inl (de_message e)
       | _ \<Rightarrow> Inr empty_result), tr @ [SSimple sql])"

definition multi_refused :: string where
  "multi_refused = ''multi-statement scripts are not allowed in read-only mode; run one statement at a time''"

definition pg_settings :: "bool \<Rightarrow> string \<Rightarrow> string list" where
  "pg_settings readOnly schema =
     [''SET statement_timeout = '' @ [SQ] @ ''30s'' @ [SQ],
      (if schema \<noteq> [] then ''SET search_path TO '' @ pg_quoteIdent schema @ '', public''
       else ''SET search_path TO DEFAULT''),
      (if readOnly then ''SET default_transaction_read_only = on''
       else ''SET default_transaction_read_only = off'')]"

text \<open>What a row set or a command gives; \<open>fds\<close> empty is a command.\<close>

definition pg_result ::
    "string list result \<Rightarrow> (go_error + go_value list) list \<Rightarrow> go_error option \<Rightarrow> string \<Rightarrow> int \<Rightarrow> db_result result" where
  "pg_result fds rows final tag affected =
     (case fds of
        Inl e \<Rightarrow> Inl e
      | Inr fds \<Rightarrow>
          (if fds = [] then
             (case final of
                Some e \<Rightarrow> Inl e
              | None \<Rightarrow> Inr (empty_result\<lparr>r_RowsAffected := affected, r_Command := tag\<rparr>))
           else rows_result fds (map (map_sum id (map pg_format)) rows) final))"

definition pg_run :: "sql_server \<Rightarrow> sql_trace \<Rightarrow> string \<Rightarrow> bool \<Rightarrow> db_result result \<times> sql_trace" where
  "pg_run srv tr sql readOnly =
     (case srv tr (SQuery sql) of
        AErr e \<Rightarrow>
          (if isMultiCommand e
           then (if readOnly then (Inl multi_refused, tr @ [SQuery sql])
                 else querySimple srv (tr @ [SQuery sql]) sql)
           else (Inl (de_message e), tr @ [SQuery sql]))
      | ARows fds rows final tag affected \<Rightarrow> (pg_result fds rows final tag affected, tr @ [SQuery sql])
      | _ \<Rightarrow> (Inr empty_result, tr @ [SQuery sql]))"

definition pg_Query :: "sql_server \<Rightarrow> string \<Rightarrow> bool \<Rightarrow> string \<Rightarrow> db_result result \<times> sql_trace" where
  "pg_Query srv sql readOnly schema =
     (case srv [] Acquire of
        AErr e \<Rightarrow> (Inl (de_message e), [Acquire])
      | _ \<Rightarrow>
        (let (r, tr) =
           (case exec_all srv [Acquire] (pg_settings readOnly schema) of
              (Some e, tr) \<Rightarrow> (Inl (de_message e), tr)
            | (None, tr) \<Rightarrow> pg_run srv tr sql readOnly)
         in (r, tr @ [Release])))"

definition pg_Exec :: "sql_server \<Rightarrow> string \<Rightarrow> db_result result \<times> sql_trace" where
  "pg_Exec srv sql = pg_Query srv sql False []"

definition pg_browse_sql :: "string \<Rightarrow> string \<Rightarrow> string \<Rightarrow> string \<Rightarrow> int \<Rightarrow> int \<Rightarrow> string" where
  "pg_browse_sql schema table whr order limit offset =
     (let limit = (if limit \<le> 0 \<or> limit > 1000 then 100 else limit)
      in ''SELECT * FROM '' @ pg_quoteIdent schema @ ''.'' @ pg_quoteIdent table
         @ (if TrimSpace whr \<noteq> [] then '' WHERE '' @ TrimSpace whr else [])
         @ (if TrimSpace order \<noteq> [] then '' ORDER BY '' @ TrimSpace order else [])
         @ '' LIMIT '' @ Itoa limit @ '' OFFSET '' @ Itoa offset)"

definition pg_BrowseWhere ::
    "sql_server \<Rightarrow> string \<Rightarrow> string \<Rightarrow> string \<Rightarrow> string \<Rightarrow> int \<Rightarrow> int \<Rightarrow> bool \<Rightarrow> db_result result \<times> sql_trace" where
  "pg_BrowseWhere srv schema table whr order limit offset readOnly =
     pg_Query srv (pg_browse_sql schema table whr order limit offset) readOnly []"

definition pg_ExecScript :: "sql_server \<Rightarrow> string list \<Rightarrow> unit result \<times> sql_trace" where
  "pg_ExecScript srv stmts =
     exec_script [''SET TRANSACTION READ WRITE'', ''SET statement_timeout = '' @ [SQ] @ ''30s'' @ [SQ]] srv stmts"

lemmas [sql_text] = pg_quoteIdent_def pg_QuoteLiteral_def pg_Qualified_def pg_DropTableSQL_def
  pg_TruncateSQL_def pg_DropColumnSQL_def pg_DropIndexSQL_def pg_DropSchemaSQL_def
  pg_AlterSchemaSQL_def role_flag_def roleOptions_def CreateRoleSQL_def AlterRoleSQL_def DropRoleSQL_def

section \<open>Lemmas\<close>

lemma pg_quoteIdent_double: "pg_quoteIdent = double_quote DQ"
  by (simp add: fun_eq_iff pg_quoteIdent_def double_quote_def)

lemma pg_QuoteLiteral_double: "pg_QuoteLiteral = double_quote SQ"
  by (simp add: fun_eq_iff pg_QuoteLiteral_def double_quote_def)

interpretation pg: sql_dialect DQ pg_quoteIdent "read_quoted DQ" SQ pg_QuoteLiteral "read_quoted SQ"
  pg_Qualified "\<lambda>_. False"
  unfolding sql_dialect_def sql_dialect_axioms_def pg_quoteIdent_double pg_QuoteLiteral_double
  by (simp add: quoted_token_double_quote pg_Qualified_def pg_quoteIdent_double)

lemma length_pg_settings [simp]: "length (pg_settings readOnly schema) = 3"
  by (simp add: pg_settings_def)

lemma querySimple_trace [simp]: "snd (querySimple srv tr sql) = tr @ [SSimple sql]"
  by (simp add: querySimple_def)

lemma pg_run_trace:
  "snd (pg_run srv tr sql readOnly) = tr @ [SQuery sql]
   \<or> \<not> readOnly \<and> snd (pg_run srv tr sql readOnly) = tr @ [SQuery sql, SSimple sql]"
  by (auto simp: pg_run_def split: sql_answer.splits)

text \<open>What \<^verbatim>\<open>Query\<close> sends: a prefix of the settings, or all of them followed by the statement.\<close>

lemma pg_Query_trace:
  assumes "snd (pg_Query srv sql readOnly schema) = tr"
  shows "tr = [Acquire]
     \<or> (\<exists>k\<le>3. tr = Acquire # map SExec (take k (pg_settings readOnly schema)) @ [Release])
     \<or> tr = Acquire # map SExec (pg_settings readOnly schema) @ [SQuery sql, Release]
     \<or> \<not> readOnly \<and> tr = Acquire # map SExec (pg_settings readOnly schema) @ [SQuery sql, SSimple sql, Release]"
proof (cases "refused (srv [] Acquire)")
  case True
  then show ?thesis using assms by (auto simp: pg_Query_def elim: refusedE)
next
  case acq: False
  obtain e tr1 where ex: "exec_all srv [Acquire] (pg_settings readOnly schema) = (e, tr1)" by force
  from exec_all_trace [OF ex] obtain k where k: "k \<le> 3"
    "tr1 = Acquire # map SExec (take k (pg_settings readOnly schema))" "e = None \<longrightarrow> k = 3" by auto
  show ?thesis
  proof (cases e)
    case None
    with k have tr1: "tr1 = Acquire # map SExec (pg_settings readOnly schema)" by simp
    have "tr = snd (pg_run srv tr1 sql readOnly) @ [Release]"
      using assms acq ex None by (auto simp: pg_Query_def case_refused split: prod.splits)
    then show ?thesis using pg_run_trace [of srv tr1 sql readOnly] tr1 by auto
  next
    case (Some x)
    then have "tr = tr1 @ [Release]" using assms acq ex by (auto simp: pg_Query_def case_refused)
    with k show ?thesis by auto
  qed
qed

end
