(* ===== verification/MySQL.thy ===== *)
theory MySQL
  imports Driver
begin

text \<open>
  Package \<^verbatim>\<open>internal/mysql\<close> (\<^verbatim>\<open>mysql.go\<close>, \<^verbatim>\<open>ddl.go\<close>): backtick and literal quoting, the statement and
  form builders, the screen of host file access, \<^verbatim>\<open>Query\<close> with its read-only transaction and the
  first-word dispatch of \<^verbatim>\<open>runStatement\<close>, \<^verbatim>\<open>ExecScript\<close>, and the conversions of the catalogue rows.
\<close>

section \<open>Quoting\<close>

definition my_quoteIdent :: "string \<Rightarrow> string" where
  "my_quoteIdent s = [BQ] @ ReplaceAll s [BQ] [BQ, BQ] @ [BQ]"

definition my_qualified :: "string \<Rightarrow> string \<Rightarrow> string" where
  "my_qualified schema table =
     (if schema = [] then my_quoteIdent table
      else my_quoteIdent schema @ ''.'' @ my_quoteIdent table)"

definition my_quoteLiteral :: "string \<Rightarrow> string" where
  "my_quoteLiteral s =
     (let s = ReplaceAll s [BSL] [BSL, BSL]; s = ReplaceAll s [SQ] [SQ, SQ] in [SQ] @ s @ [SQ])"

section \<open>Statement builders\<close>

definition my_DropTableSQL :: "string \<Rightarrow> string \<Rightarrow> string" where
  "my_DropTableSQL schema table = ''DROP TABLE '' @ my_qualified schema table"

definition my_TruncateSQL :: "string \<Rightarrow> string \<Rightarrow> string" where
  "my_TruncateSQL schema table = ''TRUNCATE TABLE '' @ my_qualified schema table"

definition my_DropColumnSQL :: "string \<Rightarrow> string \<Rightarrow> string \<Rightarrow> string" where
  "my_DropColumnSQL schema table column =
     ''ALTER TABLE '' @ my_qualified schema table @ '' DROP COLUMN '' @ my_quoteIdent column"

definition my_DropIndexSQL :: "string \<Rightarrow> string \<Rightarrow> string \<Rightarrow> string" where
  "my_DropIndexSQL schema table name =
     ''ALTER TABLE '' @ my_qualified schema table @ '' DROP INDEX '' @ my_quoteIdent name"

definition my_DropSchemaSQL :: "string \<Rightarrow> bool \<Rightarrow> string list" where
  "my_DropSchemaSQL name cascade = [''DROP DATABASE '' @ my_quoteIdent name]"

definition my_AlterSchemaSQL :: "string \<Rightarrow> string \<Rightarrow> string \<Rightarrow> string list" where
  "my_AlterSchemaSQL name newName owner = []"

definition userHost :: "string \<Rightarrow> string \<Rightarrow> string" where
  "userHost name host =
     my_quoteLiteral name @ ''@'' @ my_quoteLiteral (if host = [] then ''%'' else host)"

definition grantsFor :: "string \<Rightarrow> role_attrs \<Rightarrow> string list" where
  "grantsFor uh a =
     (if ra_Super a then [''GRANT SUPER ON *.* TO '' @ uh] else []) @
     (if ra_CreateDB a then [''GRANT CREATE ON *.* TO '' @ uh] else []) @
     (if ra_CreateRole a then [''GRANT CREATE USER ON *.* TO '' @ uh] else [])"

definition my_AlterUserSQL :: "string \<Rightarrow> string \<Rightarrow> role_attrs \<Rightarrow> string list" where
  "my_AlterUserSQL name newName a =
     (let uh = userHost name (ra_Host a);
          renamed = (newName \<noteq> [] \<and> newName \<noteq> name);
          nh = userHost newName (ra_Host a);
          uh' = (if renamed then nh else uh)
      in (if renamed then [''RENAME USER '' @ uh @ '' TO '' @ nh] else [])
         @ (if ra_Password a \<noteq> []
            then [''ALTER USER '' @ uh' @ '' IDENTIFIED BY '' @ my_quoteLiteral (ra_Password a)] else [])
         @ (if ra_Login a then [''ALTER USER '' @ uh' @ '' ACCOUNT UNLOCK'']
            else [''ALTER USER '' @ uh' @ '' ACCOUNT LOCK''])
         @ grantsFor uh' a)"

definition my_DropUserSQL :: "string \<Rightarrow> string \<Rightarrow> string list" where
  "my_DropUserSQL name host = [''DROP USER '' @ userHost name host]"

definition my_FormSQL :: "form_spec \<Rightarrow> (string list \<times> string) result" where
  "my_FormSQL f =
     (let tbl = my_qualified (f_Schema f) (f_Table f) in
      if f_Kind f = ''add-column'' then
        (if f_Name f = [] \<or> f_Type f = [] then Inl ''column name and type are required''
         else Inr ([''ALTER TABLE '' @ tbl @ '' ADD COLUMN '' @ my_quoteIdent (f_Name f) @ '' '' @ f_Type f
                    @ (if \<not> f_Nullable f then '' NOT NULL'' else [])
                    @ (if f_Default f \<noteq> [] then '' DEFAULT '' @ f_Default f else [])],
                   ''mysql_ddl_add_column''))
      else if f_Kind f = ''modify-column'' then
        (if f_Type f = [] then Inl ''type is required''
         else Inr ([''ALTER TABLE '' @ tbl @ '' MODIFY COLUMN '' @ my_quoteIdent (f_Column f) @ '' '' @ f_Type f
                    @ (if f_Nullable f then '' NULL'' else '' NOT NULL'')
                    @ (if f_Default f \<noteq> [] then '' DEFAULT '' @ f_Default f else [])],
                   ''mysql_ddl_modify_column''))
      else if f_Kind f = ''rename-table'' then
        (if f_Name f = [] then Inl ''new name is required''
         else Inr ([''ALTER TABLE '' @ tbl @ '' RENAME TO '' @ my_qualified (f_Schema f) (f_Name f)],
                   ''mysql_ddl_rename_table''))
      else if f_Kind f = ''new-schema'' then
        (if f_Name f = [] then Inl ''database name is required''
         else Inr ([''CREATE DATABASE '' @ my_quoteIdent (f_Name f)], ''mysql_ddl_create_schema''))
      else if f_Kind f = ''new-table'' then
        (if f_Name f = [] \<or> f_Columns f = [] then Inl ''table name and column definitions are required''
         else Inr ([''CREATE TABLE '' @ my_qualified (f_Schema f) (f_Name f) @ '' ('' @ [NL] @ f_Columns f @ [NL] @ '')''],
                   ''mysql_ddl_create_table''))
      else if f_Kind f = ''new-index'' then
        (if f_Name f = [] \<or> f_Columns f = [] then Inl ''index name and columns are required''
         else Inr ([''CREATE '' @ (if f_Unique f then ''UNIQUE '' else []) @ ''INDEX '' @ my_quoteIdent (f_Name f)
                    @ '' ON '' @ tbl @ '' ('' @ f_Columns f @ '')''], ''mysql_ddl_create_index''))
      else if f_Kind f = ''create-user'' then
        (if f_Name f = [] then Inl ''user name is required''
         else let uh = userHost (f_Name f) (ra_Host (f_Role f)) in
              Inr ([''CREATE USER '' @ uh
                    @ (if ra_Password (f_Role f) \<noteq> []
                       then '' IDENTIFIED BY '' @ my_quoteLiteral (ra_Password (f_Role f)) else [])]
                   @ (if \<not> ra_Login (f_Role f) then [''ALTER USER '' @ uh @ '' ACCOUNT LOCK''] else [])
                   @ grantsFor uh (f_Role f), ''mysql_ddl_create_user''))
      else Inl (''unknown form kind '' @ quoted_go (f_Kind f)))"

section \<open>The server-side screen\<close>

definition my_reServerSide :: re where
  "my_reServerSide =
     alts [seqs [WordB, lit_ci ''load'', plus ws, lit_ci ''data'', WordB, Star (notch CHR '';''), WordB,
                 lit_ci ''infile'', WordB],
           seqs [WordB, lit_ci ''into'', plus ws, lit_ci ''outfile'', WordB],
           seqs [WordB, lit_ci ''into'', plus ws, lit_ci ''dumpfile'', WordB],
           seqs [WordB, lit_ci ''load_file'', Star ws, ch CHR ''('']]"

definition my_IsServerSideExec :: "string \<Rightarrow> bool" where
  "my_IsServerSideExec sql = MatchString my_reServerSide sql"

section \<open>Running statements\<close>

definition my_word_end :: "char \<Rightarrow> bool" where
  "my_word_end r \<longleftrightarrow> r = CHR '' '' \<or> r = TAB \<or> r = NL \<or> r = CR \<or> r = CHR ''('' \<or> r = CHR '';''"

definition my_firstWord :: "string \<Rightarrow> string" where
  "my_firstWord s =
     (let s = TrimLeft s ('' '' @ [TAB, CR, NL, CHR ''(''])
      in ToUpper (takeWhile (\<lambda>r. \<not> my_word_end r) s))"

definition my_returnsRows :: "string \<Rightarrow> bool" where
  "my_returnsRows sqlText \<longleftrightarrow>
     my_firstWord sqlText \<in> set [''SELECT'', ''SHOW'', ''DESC'', ''DESCRIBE'', ''EXPLAIN'', ''WITH'', ''TABLE'',
       ''VALUES'', ''CALL'', ''ANALYZE'', ''CHECK'', ''HELP'']"

definition my_withMaxExecHint :: "string \<Rightarrow> string" where
  "my_withMaxExecHint sqlText =
     (let trimmed = TrimLeft sqlText ('' '' @ [TAB, CR, NL])
      in if my_firstWord trimmed \<noteq> ''SELECT'' then sqlText
         else ''SELECT '' @ ''/*+ MAX_EXECUTION_TIME('' @ Itoa 30000 @ '') */ ''
              @ drop (length ''SELECT'') trimmed)"

definition my_commandTag :: "string \<Rightarrow> string" where
  "my_commandTag sqlText = (let w = my_firstWord sqlText in if w = [] then ''OK'' else w)"

text \<open>The text that scanning a value into \<^verbatim>\<open>sql.RawBytes\<close> gives, with the NULL mark for \<^verbatim>\<open>nil\<close>.\<close>

fun raw_text :: "go_value \<Rightarrow> string" where
  "raw_text VNil = null_mark"
| "raw_text (VBytes b) = b"
| "raw_text (VTime t) = t"
| "raw_text (VString s) = s"
| "raw_text (VValuer _ text) = text"
| "raw_text (VOther text) = text"

definition my_runStatement :: "sql_server \<Rightarrow> sql_trace \<Rightarrow> string \<Rightarrow> db_result result \<times> sql_trace" where
  "my_runStatement srv tr sqlText =
     (if \<not> my_returnsRows sqlText then
        ((case srv tr (SExec sqlText) of
            AErr e \<Rightarrow> Inl (de_message e)
          | AOk aff \<Rightarrow> Inr (empty_result\<lparr>r_RowsAffected := aff, r_Command := my_commandTag sqlText\<rparr>)
          | _ \<Rightarrow> Inr (empty_result\<lparr>r_Command := my_commandTag sqlText\<rparr>)), tr @ [SExec sqlText])
      else
        ((case srv tr (SQuery (my_withMaxExecHint sqlText)) of
            AErr e \<Rightarrow> Inl (de_message e)
          | ARows (Inl e) _ _ _ _ \<Rightarrow> Inl e
          | ARows (Inr cols) rows final _ _ \<Rightarrow> rows_result cols (map (map_sum id (map raw_text)) rows) final
          | _ \<Rightarrow> Inr (empty_result\<lparr>r_IsSelect := True\<rparr>)), tr @ [SQuery (my_withMaxExecHint sqlText)]))"

definition my_Query :: "sql_server \<Rightarrow> string \<Rightarrow> bool \<Rightarrow> string \<Rightarrow> db_result result \<times> sql_trace" where
  "my_Query srv sqlText readOnly schema =
     (if readOnly then
        (case srv [] (BeginTx True) of
           AErr e \<Rightarrow> (Inl (de_message e), [BeginTx True])
         | _ \<Rightarrow> (let (r, tr) = my_runStatement srv [BeginTx True] sqlText in (r, tr @ [Rollback])))
      else my_runStatement srv [] sqlText)"

definition my_Exec :: "sql_server \<Rightarrow> string \<Rightarrow> db_result result \<times> sql_trace" where
  "my_Exec srv sqlText = my_Query srv sqlText False []"

definition my_browse_sql :: "string \<Rightarrow> string \<Rightarrow> string \<Rightarrow> string \<Rightarrow> int \<Rightarrow> int \<Rightarrow> string" where
  "my_browse_sql schema table whr order limit offset =
     (let limit = (if limit \<le> 0 \<or> limit > 1000 then 100 else limit)
      in ''SELECT * FROM '' @ my_qualified schema table
         @ (if TrimSpace whr \<noteq> [] then '' WHERE '' @ TrimSpace whr else [])
         @ (if TrimSpace order \<noteq> [] then '' ORDER BY '' @ TrimSpace order else [])
         @ '' LIMIT '' @ Itoa limit @ '' OFFSET '' @ Itoa offset)"

definition my_BrowseWhere ::
    "sql_server \<Rightarrow> string \<Rightarrow> string \<Rightarrow> string \<Rightarrow> string \<Rightarrow> int \<Rightarrow> int \<Rightarrow> bool \<Rightarrow> db_result result \<times> sql_trace" where
  "my_BrowseWhere srv schema table whr order limit offset readOnly =
     my_Query srv (my_browse_sql schema table whr order limit offset) readOnly []"

definition my_ExecScript :: "sql_server \<Rightarrow> string list \<Rightarrow> unit result \<times> sql_trace" where
  "my_ExecScript srv stmts = exec_script [] srv stmts"

section \<open>Introspection\<close>

definition null_string :: "string option \<Rightarrow> string" where
  "null_string s = (case s of None \<Rightarrow> [] | Some x \<Rightarrow> x)"

definition my_Schemas :: "(string \<times> string option \<times> string option \<times> int option) rowset \<Rightarrow> db_schema list result" where
  "my_Schemas answer =
     map_sum id group_schemas
       (scan_rows (\<lambda>(schema, name, kind, est).
          (schema, map_option (\<lambda>n. \<lparr>t_Schema = schema, t_Name = n, t_Kind = null_string kind,
                      t_EstRows = (case est of None \<Rightarrow> 0 | Some e \<Rightarrow> e)\<rparr>) name)) answer)"

definition my_Columns :: "(string \<times> string \<times> bool \<times> string \<times> bool \<times> bool) rowset \<Rightarrow> db_column list result" where
  "my_Columns =
     scan_rows (\<lambda>(name, ty, notnull, dflt, pk, auto).
       \<lparr>c_Name = name, c_Type = ty, c_NotNull = notnull, c_Default = dflt, c_PK = pk, c_AutoInc = auto\<rparr>)"

definition my_reconstructIndexDef :: "string \<Rightarrow> db_index \<Rightarrow> string" where
  "my_reconstructIndexDef table ix =
     (if ix_Primary ix then ''PRIMARY KEY ('' @ ix_Cols ix @ '')''
      else ''CREATE '' @ (if ix_Unique ix then ''UNIQUE '' else []) @ ''INDEX '' @ my_quoteIdent (ix_Name ix)
           @ '' ON '' @ my_quoteIdent table @ '' ('' @ ix_Cols ix @ '')'')"

definition my_Indexes :: "string \<Rightarrow> (string \<times> bool \<times> bool \<times> string option) rowset \<Rightarrow> db_index list result" where
  "my_Indexes table =
     scan_rows (\<lambda>(name, unique, primary, cols).
       (let ix = \<lparr>ix_Name = name, ix_Unique = unique, ix_Primary = primary, ix_Def = [],
                  ix_Cols = null_string cols\<rparr>
        in ix\<lparr>ix_Def := my_reconstructIndexDef table ix\<rparr>))"

definition my_foreignKeyDefs ::
    "(string \<times> string \<times> string \<times> string \<times> string \<times> string) rowset \<Rightarrow> (string \<times> string) list result" where
  "my_foreignKeyDefs =
     scan_rows (\<lambda>(name, cols, refTable, refCols, upd, del).
       (name, ''FOREIGN KEY ('' @ cols @ '') REFERENCES '' @ my_quoteIdent refTable @ '' ('' @ refCols
              @ '') ON UPDATE '' @ upd @ '' ON DELETE '' @ del))"

text \<open>
  The map that the loop over the constraints fills: the last row with a name wins, and \<open>order\<close>
  lists the names as the rows come.
\<close>

definition my_key :: "(string \<times> string) list \<Rightarrow> string \<times> string \<times> string \<Rightarrow> db_key" where
  "my_key fkDefs k =
     (case k of (name, ctype, cols) \<Rightarrow>
       if ctype = ''PRIMARY KEY'' then
         \<lparr>k_Name = name, k_Type = ''primary'', k_Def = ''PRIMARY KEY ('' @ cols @ '')'', k_Cols = cols\<rparr>
       else if ctype = ''UNIQUE'' then
         \<lparr>k_Name = name, k_Type = ''unique'', k_Def = ''UNIQUE ('' @ cols @ '')'', k_Cols = cols\<rparr>
       else if ctype = ''FOREIGN KEY'' then
         \<lparr>k_Name = name, k_Type = ''foreign'',
          k_Def = (case map_of (rev fkDefs) name of Some d \<Rightarrow> d | None \<Rightarrow> ''FOREIGN KEY ('' @ cols @ '')''),
          k_Cols = cols\<rparr>
       else \<lparr>k_Name = name, k_Type = ''other'', k_Def = [], k_Cols = cols\<rparr>)"

definition my_Keys ::
    "(string \<times> string \<times> string option) rowset \<Rightarrow>
     (string \<times> string \<times> string \<times> string \<times> string \<times> string) rowset \<Rightarrow> db_key list result" where
  "my_Keys constraints fks =
     (case scan_rows (\<lambda>(name, ctype, cols). (name, ctype, null_string cols)) constraints of
        Inl e \<Rightarrow> Inl e
      | Inr rows \<Rightarrow>
          (case my_foreignKeyDefs fks of
             Inl e \<Rightarrow> Inl e
           | Inr fkDefs \<Rightarrow>
               (let keys = map_of (rev rows)
                in Inr (map (\<lambda>(name, _). case keys name of
                                 Some k \<Rightarrow> my_key fkDefs (name, k)
                               | None \<Rightarrow> my_key fkDefs (name, [], [])) rows))))"

definition my_FindUsages :: "string \<Rightarrow> (string \<times> string \<times> string \<times> string \<times> string) rowset \<Rightarrow> db_usage list result" where
  "my_FindUsages table =
     scan_rows (\<lambda>(schema, tbl, name, cols, refCols).
       \<lparr>us_Schema = schema, us_Table = tbl, us_Name = name,
        us_Def = ''FOREIGN KEY ('' @ cols @ '') REFERENCES '' @ my_quoteIdent table @ '' ('' @ refCols @ '')''\<rparr>)"

text \<open>\<^verbatim>\<open>Roles\<close>: the error is the server's, so that denied access to \<^verbatim>\<open>mysql.user\<close> is an empty list.\<close>

definition my_Roles ::
    "db_error + ((go_error + (string \<times> string \<times> string \<times> string \<times> string)) list \<times> go_error option)
     \<Rightarrow> db_role list result" where
  "my_Roles answer =
     (case answer of
        Inl e \<Rightarrow> (if de_server e \<and> (de_number e = 1142 \<or> de_number e = 1227) then Inr [] else Inl (de_message e))
      | Inr rows \<Rightarrow>
          scan_rows (\<lambda>(name, host, super, createPriv, createUser).
            \<lparr>rl_Name = name, rl_Host = host, rl_Super = (super = ''Y''), rl_CreateDB = (createPriv = ''Y''),
             rl_CreateRole = (createUser = ''Y''), rl_CanLogin = True, rl_Replication = False,
             rl_ConnLimit = 0, rl_ValidUntil = []\<rparr>) (Inr rows))"

definition my_GenSelect :: "db_column list result \<Rightarrow> string \<Rightarrow> string \<Rightarrow> string result" where
  "my_GenSelect columns schema table =
     (case columns of
        Inl e \<Rightarrow> Inl e
      | Inr cols \<Rightarrow>
          (if cols = [] then Inr (''SELECT *'' @ [NL] @ ''FROM '' @ my_qualified schema table @ [NL] @ ''LIMIT 100;'')
           else Inr (''SELECT '' @ Join (map (\<lambda>c. my_quoteIdent (c_Name c)) cols) '', '' @ [NL]
                     @ ''FROM '' @ my_qualified schema table @ [NL] @ ''LIMIT 100;'')))"

definition my_GenInsert :: "db_column list result \<Rightarrow> string \<Rightarrow> string \<Rightarrow> string result" where
  "my_GenInsert columns schema table =
     (case columns of
        Inl e \<Rightarrow> Inl e
      | Inr cols \<Rightarrow>
          Inr (''INSERT INTO '' @ my_qualified schema table @ '' (''
               @ Join (map (\<lambda>c. my_quoteIdent (c_Name c)) cols) '', '' @ '')'' @ [NL]
               @ ''VALUES ('' @ Join (map (\<lambda>_. ''null'') cols) '', '' @ '');''))"

definition my_GenUpdate :: "db_column list result \<Rightarrow> string \<Rightarrow> string \<Rightarrow> string result" where
  "my_GenUpdate columns schema table =
     (case columns of
        Inl e \<Rightarrow> Inl e
      | Inr cols \<Rightarrow>
          Inr (''UPDATE '' @ my_qualified schema table @ [NL] @ ''SET ''
               @ Join (map (\<lambda>c. my_quoteIdent (c_Name c) @ '' = null'') (filter (\<lambda>c. \<not> c_PK c) cols))
                   ('','' @ [NL] @ ''    '')
               @ [NL] @ ''WHERE <condition>;''))"

lemmas [sql_text] = my_quoteIdent_def my_qualified_def my_quoteLiteral_def my_DropTableSQL_def
  my_TruncateSQL_def my_DropColumnSQL_def my_DropIndexSQL_def my_DropSchemaSQL_def userHost_def
  grantsFor_def my_AlterUserSQL_def my_DropUserSQL_def

section \<open>Lemmas\<close>

lemma my_quoteIdent_double: "my_quoteIdent = double_quote BQ"
  by (simp add: fun_eq_iff my_quoteIdent_def double_quote_def)

definition my_lit_byte :: "char \<Rightarrow> string" where
  "my_lit_byte c = (if c = BSL then [BSL, BSL] else if c = SQ then [SQ, SQ] else [c])"

lemma my_quoteLiteral_bytes: "my_quoteLiteral s = SQ # concat (map my_lit_byte s) @ [SQ]"
proof -
  have "concat (map (\<lambda>c. if c = SQ then [SQ, SQ] else [c]) (concat (map (\<lambda>c. if c = BSL then [BSL, BSL] else [c]) s)))
      = concat (map my_lit_byte s)"
    by (induction s) (auto simp: my_lit_byte_def)
  then show ?thesis by (simp add: my_quoteLiteral_def ReplaceAll_char)
qed

lemma my_read_body_plain:
  "c \<noteq> BSL \<Longrightarrow> c \<noteq> SQ \<Longrightarrow> t \<noteq> [] \<Longrightarrow> my_read_body (c # t) = map_option (\<lambda>(s, r). (c # s, r)) (my_read_body t)"
  by (cases t) auto

lemma my_read_body_quoted:
  "rest = [] \<or> hd rest \<noteq> SQ \<Longrightarrow>
     my_read_body (concat (map my_lit_byte s) @ SQ # rest) = Some (s, rest)"
proof (induction s)
  case Nil
  then show ?case by (cases rest) auto
next
  case (Cons c s)
  consider "c = BSL" | "c = SQ" | "c \<noteq> BSL" "c \<noteq> SQ" by blast
  then show ?case
  proof cases
    case 1
    with Cons show ?thesis by (simp add: my_lit_byte_def my_escape_def)
  next
    case 2
    with Cons show ?thesis by (simp add: my_lit_byte_def)
  next
    case 3
    with Cons show ?thesis by (simp add: my_lit_byte_def my_read_body_plain)
  qed
qed

lemma my_read_quoteLiteral:
  "rest = [] \<or> hd rest \<noteq> SQ \<Longrightarrow> my_read_literal (my_quoteLiteral s @ rest) = Some (s, rest)"
  by (simp add: my_read_literal_def my_quoteLiteral_bytes my_read_body_quoted)

lemma my_quoteLiteral_token: "quoted_token SQ my_quoteLiteral my_read_literal"
  by unfold_locales (rule my_read_quoteLiteral)

interpretation my: sql_dialect BQ my_quoteIdent "read_quoted BQ" SQ my_quoteLiteral my_read_literal
  my_qualified "\<lambda>s. s = []"
  unfolding sql_dialect_def sql_dialect_axioms_def my_quoteIdent_double
  by (simp add: quoted_token_double_quote my_qualified_def my_quoteIdent_double
      my_quoteLiteral_token)

lemma my_runStatement_trace:
  "snd (my_runStatement srv tr sqlText) = tr @ [if my_returnsRows sqlText
     then SQuery (my_withMaxExecHint sqlText) else SExec sqlText]"
  by (simp add: my_runStatement_def)

lemma my_Query_trace:
  "snd (my_Query srv sqlText readOnly schema) =
     (let stmt = (if my_returnsRows sqlText then SQuery (my_withMaxExecHint sqlText) else SExec sqlText)
      in if \<not> readOnly then [stmt]
         else if refused (srv [] (BeginTx True)) then [BeginTx True]
         else [BeginTx True, stmt, Rollback])"
  by (cases "refused (srv [] (BeginTx True))")
     (auto simp: my_Query_def my_runStatement_trace case_refused Let_def split: prod.splits elim!: refusedE
       dest: arg_cong [of _ _ snd])

text \<open>The hint goes in only after the word SELECT: what follows the word is kept byte for byte.\<close>

lemma my_withMaxExecHint_select:
  assumes "ToUpper w = ''SELECT''" and "t = [] \<or> my_word_end (hd t)"
  shows "my_withMaxExecHint (w @ t) = ''SELECT /*+ MAX_EXECUTION_TIME(30000) */ '' @ t"
proof -
  have len: "length w = 6" using arg_cong [OF assms(1), of length] by (simp add: ToUpper_def)
  obtain c w' where w: "w = c # w'" using len by (cases w) auto
  have not_sep: "\<not> my_word_end d \<and> d \<notin> set ('' '' @ [TAB, CR, NL, CHR ''(''])" if "d \<in> set w" for d
  proof -
    have "upper_char d \<in> set (ToUpper w)" using that by (simp add: ToUpper_def)
    then have "upper_char d \<in> set ''SELECT''" by (simp only: assms(1))
    have "d \<notin> set ('';('' @ [CHR '' '', TAB, CR, NL])"
    proof
      assume d: "d \<in> set ('';('' @ [CHR '' '', TAB, CR, NL])"
      then have "upper_char d = d" by (auto simp: upper_char_def is_lower_def code_def)
      with \<open>upper_char d \<in> set ''SELECT''\<close> have "d \<in> set ''SELECT''" by (simp only:)
      with d show False by (simp, elim disjE, simp_all)
    qed
    then show ?thesis by (simp add: my_word_end_def)
  qed
  have trim: "TrimLeft (w @ t) ('' '' @ [TAB, CR, NL]) = w @ t"
    "TrimLeft (w @ t) ('' '' @ [TAB, CR, NL, CHR ''('']) = w @ t"
    using not_sep [of c] by (auto simp: TrimLeft_def w)
  have "takeWhile (\<lambda>r. \<not> my_word_end r) (w @ t) = w"
    using not_sep assms(2) by (cases t) (auto simp: takeWhile_append)
  then have "my_firstWord (w @ t) = ''SELECT''"
    by (simp only: my_firstWord_def Let_def trim assms(1))
  moreover have "Itoa 30000 = ''30000''"
    by (simp add: Itoa_def nat_digits.simps digit_chars)
  ultimately show ?thesis
    unfolding my_withMaxExecHint_def Let_def trim by (simp add: len)
qed

end
