(* ===== verification/SQLite.thy ===== *)
theory SQLite
  imports Driver
begin

text \<open>
  Package \<^verbatim>\<open>internal/sqlite\<close> (\<^verbatim>\<open>sqlite.go\<close>, \<^verbatim>\<open>ddl.go\<close>): quoting with the one namespace \<^verbatim>\<open>main\<close> left
  bare, the statement and form builders, the file-access screen, \<^verbatim>\<open>Query\<close> with its \<^verbatim>\<open>query_only\<close>
  toggle on a pinned connection, \<^verbatim>\<open>ExecScript\<close>, and the grouping of the pragma rows into indexes,
  keys and usages. The rows of the pragmas are arguments.
\<close>

section \<open>Quoting and statement builders\<close>

definition mainSchema :: string where "mainSchema = ''main''"

definition lite_quoteIdent :: "string \<Rightarrow> string" where
  "lite_quoteIdent s = [DQ] @ ReplaceAll s [DQ] [DQ, DQ] @ [DQ]"

definition lite_qualified :: "string \<Rightarrow> string \<Rightarrow> string" where
  "lite_qualified schema table =
     (if schema = [] \<or> schema = mainSchema then lite_quoteIdent table
      else lite_quoteIdent schema @ ''.'' @ lite_quoteIdent table)"

definition lite_quoteLiteral :: "string \<Rightarrow> string" where
  "lite_quoteLiteral s = [SQ] @ ReplaceAll s [SQ] [SQ, SQ] @ [SQ]"

definition lite_DropTableSQL :: "string \<Rightarrow> string \<Rightarrow> string" where
  "lite_DropTableSQL schema table = ''DROP TABLE '' @ lite_qualified schema table"

definition lite_TruncateSQL :: "string \<Rightarrow> string \<Rightarrow> string" where
  "lite_TruncateSQL schema table = ''DELETE FROM '' @ lite_qualified schema table"

definition lite_DropColumnSQL :: "string \<Rightarrow> string \<Rightarrow> string \<Rightarrow> string" where
  "lite_DropColumnSQL schema table column =
     ''ALTER TABLE '' @ lite_qualified schema table @ '' DROP COLUMN '' @ lite_quoteIdent column"

definition lite_DropIndexSQL :: "string \<Rightarrow> string \<Rightarrow> string \<Rightarrow> string" where
  "lite_DropIndexSQL schema table name = ''DROP INDEX '' @ lite_qualified schema name"

definition lite_DropSchemaSQL :: "string \<Rightarrow> bool \<Rightarrow> string list" where
  "lite_DropSchemaSQL name cascade = []"

definition lite_AlterSchemaSQL :: "string \<Rightarrow> string \<Rightarrow> string \<Rightarrow> string list" where
  "lite_AlterSchemaSQL name newName owner = []"

definition lite_AlterUserSQL :: "string \<Rightarrow> string \<Rightarrow> role_attrs \<Rightarrow> string list" where
  "lite_AlterUserSQL name newName a = []"

definition lite_DropUserSQL :: "string \<Rightarrow> string \<Rightarrow> string list" where
  "lite_DropUserSQL name host = []"

definition lite_FormSQL :: "form_spec \<Rightarrow> (string list \<times> string) result" where
  "lite_FormSQL f =
     (let tbl = lite_qualified (f_Schema f) (f_Table f) in
      if f_Kind f = ''add-column'' then
        (if f_Name f = [] \<or> f_Type f = [] then Inl ''column name and type are required''
         else Inr ([''ALTER TABLE '' @ tbl @ '' ADD COLUMN '' @ lite_quoteIdent (f_Name f) @ '' '' @ f_Type f
                    @ (if \<not> f_Nullable f then '' NOT NULL'' else [])
                    @ (if f_Default f \<noteq> [] then '' DEFAULT '' @ f_Default f else [])],
                   ''sqlite_ddl_add_column''))
      else if f_Kind f = ''rename-table'' then
        (if f_Name f = [] then Inl ''new name is required''
         else Inr ([''ALTER TABLE '' @ tbl @ '' RENAME TO '' @ lite_qualified (f_Schema f) (f_Name f)],
                   ''sqlite_ddl_rename_table''))
      else if f_Kind f = ''new-table'' then
        (if f_Name f = [] \<or> f_Columns f = [] then Inl ''table name and column definitions are required''
         else Inr ([''CREATE TABLE '' @ lite_qualified (f_Schema f) (f_Name f) @ '' ('' @ [NL] @ f_Columns f @ [NL] @ '')''],
                   ''sqlite_ddl_create_table''))
      else if f_Kind f = ''new-index'' then
        (if f_Name f = [] \<or> f_Columns f = [] then Inl ''index name and columns are required''
         else Inr ([''CREATE '' @ (if f_Unique f then ''UNIQUE '' else []) @ ''INDEX '' @ lite_quoteIdent (f_Name f)
                    @ '' ON '' @ tbl @ '' ('' @ f_Columns f @ '')''], ''sqlite_ddl_create_index''))
      else if f_Kind f = ''modify-column'' then
        Inl ''SQLite cannot modify a column in place; recreate the table to change its type''
      else if f_Kind f = ''new-schema'' then
        Inl ''SQLite has a single namespace and does not support creating schemas''
      else if f_Kind f = ''create-user'' then Inl ''SQLite has no users or roles''
      else Inl (''unknown form kind '' @ quoted_go (f_Kind f)))"

section \<open>The server-side screen\<close>

definition lite_reServerSide :: re where
  "lite_reServerSide =
     alts [word_ci ''attach'',
           seqs [WordB, lit_ci ''load_extension'', Star ws, ch CHR ''(''],
           seqs [WordB, lit_ci ''vacuum'', WordB, Star (notch CHR '';''), WordB, lit_ci ''into'', WordB],
           seqs [WordB, lit_ci ''writefile'', Star ws, ch CHR ''(''],
           seqs [WordB, lit_ci ''readfile'', Star ws, ch CHR ''('']]"

definition lite_IsServerSideExec :: "string \<Rightarrow> bool" where
  "lite_IsServerSideExec sql = MatchString lite_reServerSide sql"

section \<open>Running statements\<close>

definition lite_word_end :: "char \<Rightarrow> bool" where
  "lite_word_end r \<longleftrightarrow> r = CHR '' '' \<or> r = TAB \<or> r = NL \<or> r = CR \<or> r = CHR ''('' \<or> r = CHR '';''"

definition lite_firstWord :: "string \<Rightarrow> string" where
  "lite_firstWord s =
     (let s = TrimLeft s ('' '' @ [TAB, CR, NL, CHR ''(''])
      in ToUpper (takeWhile (\<lambda>r. \<not> lite_word_end r) s))"

definition lite_returnsRows :: "string \<Rightarrow> bool" where
  "lite_returnsRows sqlText \<longleftrightarrow>
     lite_firstWord sqlText \<in> set [''SELECT'', ''WITH'', ''VALUES'', ''PRAGMA'', ''EXPLAIN'']"

definition lite_commandTag :: "string \<Rightarrow> string" where
  "lite_commandTag sqlText = (let w = lite_firstWord sqlText in if w = [] then ''OK'' else w)"

text \<open>The text that scanning a value into \<^verbatim>\<open>sql.RawBytes\<close> gives, with the NULL mark for \<^verbatim>\<open>nil\<close>.\<close>

fun lite_raw_text :: "go_value \<Rightarrow> string" where
  "lite_raw_text VNil = null_mark"
| "lite_raw_text (VBytes b) = b"
| "lite_raw_text (VTime t) = t"
| "lite_raw_text (VString s) = s"
| "lite_raw_text (VValuer _ text) = text"
| "lite_raw_text (VOther text) = text"

definition lite_runStatement :: "sql_server \<Rightarrow> sql_trace \<Rightarrow> string \<Rightarrow> db_result result \<times> sql_trace" where
  "lite_runStatement srv tr sqlText =
     (if \<not> lite_returnsRows sqlText then
        ((case srv tr (SExec sqlText) of
            AErr e \<Rightarrow> Inl (de_message e)
          | AOk aff \<Rightarrow> Inr (empty_result\<lparr>r_RowsAffected := aff, r_Command := lite_commandTag sqlText\<rparr>)
          | _ \<Rightarrow> Inr (empty_result\<lparr>r_Command := lite_commandTag sqlText\<rparr>)), tr @ [SExec sqlText])
      else
        ((case srv tr (SQuery sqlText) of
            AErr e \<Rightarrow> Inl (de_message e)
          | ARows (Inl e) _ _ _ _ \<Rightarrow> Inl e
          | ARows (Inr cols) rows final _ _ \<Rightarrow> rows_result cols (map (map_sum id (map lite_raw_text)) rows) final
          | _ \<Rightarrow> Inr (empty_result\<lparr>r_IsSelect := True\<rparr>)), tr @ [SQuery sqlText]))"

definition lite_Query :: "sql_server \<Rightarrow> string \<Rightarrow> bool \<Rightarrow> string \<Rightarrow> db_result result \<times> sql_trace" where
  "lite_Query srv sqlText readOnly schema =
     (if \<not> readOnly then lite_runStatement srv [] sqlText
      else case srv [] Acquire of
             AErr e \<Rightarrow> (Inl (de_message e), [Acquire])
           | _ \<Rightarrow>
             (let (r, tr) =
                (case srv [Acquire] (SExec ''PRAGMA query_only=ON'') of
                   AErr e \<Rightarrow> (Inl (de_message e), [Acquire, SExec ''PRAGMA query_only=ON''])
                 | _ \<Rightarrow> lite_runStatement srv [Acquire, SExec ''PRAGMA query_only=ON''] sqlText)
              in (r, tr @ [SExec ''PRAGMA query_only=OFF'', Release])))"

definition lite_Exec :: "sql_server \<Rightarrow> string \<Rightarrow> db_result result \<times> sql_trace" where
  "lite_Exec srv sqlText = lite_Query srv sqlText False []"

definition lite_browse_sql :: "string \<Rightarrow> string \<Rightarrow> string \<Rightarrow> string \<Rightarrow> int \<Rightarrow> int \<Rightarrow> string" where
  "lite_browse_sql schema table whr order limit offset =
     (let limit = (if limit \<le> 0 \<or> limit > 1000 then 100 else limit)
      in ''SELECT * FROM '' @ lite_qualified schema table
         @ (if TrimSpace whr \<noteq> [] then '' WHERE '' @ TrimSpace whr else [])
         @ (if TrimSpace order \<noteq> [] then '' ORDER BY '' @ TrimSpace order else [])
         @ '' LIMIT '' @ Itoa limit @ '' OFFSET '' @ Itoa offset)"

definition lite_BrowseWhere ::
    "sql_server \<Rightarrow> string \<Rightarrow> string \<Rightarrow> string \<Rightarrow> string \<Rightarrow> int \<Rightarrow> int \<Rightarrow> bool \<Rightarrow> db_result result \<times> sql_trace" where
  "lite_BrowseWhere srv schema table whr order limit offset readOnly =
     lite_Query srv (lite_browse_sql schema table whr order limit offset) readOnly []"

definition lite_ExecScript :: "sql_server \<Rightarrow> string list \<Rightarrow> unit result \<times> sql_trace" where
  "lite_ExecScript srv stmts = exec_script [] srv stmts"

section \<open>Introspection\<close>

definition lite_Schemas :: "(string \<times> string) rowset \<Rightarrow> db_schema list result" where
  "lite_Schemas answer =
     map_sum id (\<lambda>ts. [\<lparr>s_Name = mainSchema, s_Tables = ts\<rparr>])
       (scan_rows (\<lambda>(name, kind). \<lparr>t_Schema = mainSchema, t_Name = name, t_Kind = kind, t_EstRows = 0\<rparr>) answer)"

definition lite_Columns :: "(string \<times> string \<times> int \<times> string \<times> int) rowset \<Rightarrow> db_column list result" where
  "lite_Columns =
     scan_rows (\<lambda>(name, ty, notnull, dflt, pk).
       \<lparr>c_Name = name, c_Type = ty, c_NotNull = (notnull \<noteq> 0), c_Default = dflt, c_PK = (pk \<noteq> 0),
        c_AutoInc = (pk \<noteq> 0 \<and> Contains (ToUpper ty) ''INT'')\<rparr>)"

definition lite_reconstructIndexDef :: "string \<Rightarrow> db_index \<Rightarrow> string" where
  "lite_reconstructIndexDef table ix =
     (if ix_Primary ix then ''PRIMARY KEY ('' @ ix_Cols ix @ '')''
      else ''CREATE '' @ (if ix_Unique ix then ''UNIQUE '' else []) @ ''INDEX '' @ lite_quoteIdent (ix_Name ix)
           @ '' ON '' @ lite_quoteIdent table @ '' ('' @ ix_Cols ix @ '')'')"

definition lite_indexColumns :: "string option rowset \<Rightarrow> string result" where
  "lite_indexColumns answer =
     map_sum id (\<lambda>ns. Join (map the (filter (\<lambda>n. n \<noteq> None) ns)) '', '') (scan_rows id answer)"

text \<open>\<^verbatim>\<open>indexDef\<close>: the stored text; \<^const>\<open>None\<close> for an error, a NULL or an empty text.\<close>

definition lite_indexDef :: "string option result \<Rightarrow> string option" where
  "lite_indexDef answer =
     (case answer of Inr (Some def) \<Rightarrow> if def = [] then None else Some def | _ \<Rightarrow> None)"

fun lite_index_loop ::
    "(string \<Rightarrow> string option rowset) \<Rightarrow> (string \<Rightarrow> string option result) \<Rightarrow> string \<Rightarrow>
     (string \<times> bool \<times> string) list \<Rightarrow> db_index list result" where
  "lite_index_loop info master table [] = Inr []"
| "lite_index_loop info master table ((name, unique, origin) # list) =
     (case lite_indexColumns (info name) of
        Inl e \<Rightarrow> Inl e
      | Inr cols \<Rightarrow>
          (let idx = \<lparr>ix_Name = name, ix_Unique = unique, ix_Primary = (origin = ''pk''), ix_Def = [], ix_Cols = cols\<rparr>;
               def = (case lite_indexDef (master name) of
                        Some d \<Rightarrow> d
                      | None \<Rightarrow> lite_reconstructIndexDef table idx)
           in map_sum id (\<lambda>out. idx\<lparr>ix_Def := def\<rparr> # out) (lite_index_loop info master table list)))"

definition lite_Indexes ::
    "(string \<times> int \<times> string) rowset \<Rightarrow> (string \<Rightarrow> string option rowset) \<Rightarrow> (string \<Rightarrow> string option result) \<Rightarrow>
     string \<Rightarrow> db_index list result" where
  "lite_Indexes index_list info master table =
     (case scan_rows (\<lambda>(name, uniq, origin). (name, uniq \<noteq> 0, origin)) index_list of
        Inl e \<Rightarrow> Inl e
      | Inr list \<Rightarrow> lite_index_loop info master table list)"

definition appendCol :: "string \<Rightarrow> string \<Rightarrow> string" where
  "appendCol acc col = (if acc = [] then col else acc @ '', '' @ col)"

text \<open>
  The loop that groups the rows of \<^verbatim>\<open>pragma_foreign_key_list\<close>: one accumulator per key, in the
  order of first appearance; the first row of a key fixes its payload.
\<close>

fun add_fk :: "('k \<times> 'a \<times> string \<times> string) list \<Rightarrow> 'k \<times> 'a \<times> string \<times> string \<Rightarrow> ('k \<times> 'a \<times> string \<times> string) list" where
  "add_fk [] (k, a, col, ref) = [(k, a, appendCol [] col, appendCol [] ref)]"
| "add_fk ((k', a', cols, refs) # gs) (k, a, col, ref) =
     (if k' = k then (k', a', appendCol cols col, appendCol refs ref) # gs
      else (k', a', cols, refs) # add_fk gs (k, a, col, ref))"

definition group_fks :: "('k \<times> 'a \<times> string \<times> string) list \<Rightarrow> ('k \<times> 'a \<times> string \<times> string) list" where
  "group_fks rows = foldl add_fk [] rows"

fun lite_unique_keys :: "(string \<Rightarrow> string option rowset) \<Rightarrow> string list \<Rightarrow> db_key list result" where
  "lite_unique_keys info [] = Inr []"
| "lite_unique_keys info (name # names) =
     (case lite_indexColumns (info name) of
        Inl e \<Rightarrow> Inl e
      | Inr cols \<Rightarrow>
          map_sum id (\<lambda>out. \<lparr>k_Name = name, k_Type = ''unique'', k_Def = ''UNIQUE ('' @ cols @ '')'',
                             k_Cols = cols\<rparr> # out) (lite_unique_keys info names))"

definition lite_fk_key :: "string \<Rightarrow> int \<times> string \<times> string \<times> string \<Rightarrow> db_key" where
  "lite_fk_key table g =
     (case g of (fid, refTable, cols, refCols) \<Rightarrow>
       \<lparr>k_Name = ''fk_'' @ table @ ''_'' @ Itoa fid, k_Type = ''foreign'',
        k_Def = ''FOREIGN KEY ('' @ cols @ '') REFERENCES '' @ lite_quoteIdent refTable @ '' ('' @ refCols @ '')'',
        k_Cols = cols\<rparr>)"

definition lite_Keys ::
    "string rowset \<Rightarrow> string rowset \<Rightarrow> (string \<Rightarrow> string option rowset) \<Rightarrow>
     (int \<times> string \<times> string \<times> string) rowset \<Rightarrow> string \<Rightarrow> db_key list result" where
  "lite_Keys pk_rows unique_rows info fk_rows table =
     (case scan_rows id pk_rows of Inl e \<Rightarrow> Inl e | Inr pkCols \<Rightarrow>
      (case scan_rows id unique_rows of Inl e \<Rightarrow> Inl e | Inr uniques \<Rightarrow>
      (case lite_unique_keys info uniques of Inl e \<Rightarrow> Inl e | Inr ukeys \<Rightarrow>
      (case scan_rows (\<lambda>(fid, from, refTable, to). (fid, refTable, from, to)) fk_rows of Inl e \<Rightarrow> Inl e | Inr fks \<Rightarrow>
         let cols = Join pkCols '', '' in
         Inr ((if pkCols \<noteq> []
               then [\<lparr>k_Name = ''PRIMARY'', k_Type = ''primary'', k_Def = ''PRIMARY KEY ('' @ cols @ '')'', k_Cols = cols\<rparr>]
               else [])
              @ ukeys @ map (lite_fk_key table) (group_fks fks))))))"

definition lite_FindUsages :: "(string \<times> int \<times> string \<times> string) rowset \<Rightarrow> string \<Rightarrow> db_usage list result" where
  "lite_FindUsages answer table =
     map_sum id
       (\<lambda>rows. map (\<lambda>(key, child, cols, refCols).
          \<lparr>us_Schema = mainSchema, us_Table = child, us_Name = key,
           us_Def = ''FOREIGN KEY ('' @ cols @ '') REFERENCES '' @ lite_quoteIdent table @ '' ('' @ refCols @ '')''\<rparr>)
          (group_fks rows))
       (scan_rows (\<lambda>(child, fkid, col, refCol). (child @ ''/'' @ Itoa fkid, child, col, refCol)) answer)"

text \<open>\<^verbatim>\<open>CreateTableDDL\<close>: the answer is no row, an error, or the (possibly NULL) stored text.\<close>

definition lite_CreateTableDDL :: "go_error + string option option \<Rightarrow> string \<Rightarrow> string result" where
  "lite_CreateTableDDL answer table =
     (case answer of
        Inl e \<Rightarrow> Inl e
      | Inr None \<Rightarrow> Inl (''relation '' @ quoted_go table @ '' not found'')
      | Inr (Some None) \<Rightarrow> Inr []
      | Inr (Some (Some ddl)) \<Rightarrow> Inr (ddl @ '';''))"

definition lite_GenSelect :: "db_column list result \<Rightarrow> string \<Rightarrow> string \<Rightarrow> string result" where
  "lite_GenSelect columns schema table =
     (case columns of
        Inl e \<Rightarrow> Inl e
      | Inr cols \<Rightarrow>
          (if cols = [] then Inr (''SELECT *'' @ [NL] @ ''FROM '' @ lite_qualified schema table @ [NL] @ ''LIMIT 100;'')
           else Inr (''SELECT '' @ Join (map (\<lambda>c. lite_quoteIdent (c_Name c)) cols) '', '' @ [NL]
                     @ ''FROM '' @ lite_qualified schema table @ [NL] @ ''LIMIT 100;'')))"

definition lite_GenInsert :: "db_column list result \<Rightarrow> string \<Rightarrow> string \<Rightarrow> string result" where
  "lite_GenInsert columns schema table =
     (case columns of
        Inl e \<Rightarrow> Inl e
      | Inr cols \<Rightarrow>
          Inr (''INSERT INTO '' @ lite_qualified schema table @ '' (''
               @ Join (map (\<lambda>c. lite_quoteIdent (c_Name c)) cols) '', '' @ '')'' @ [NL]
               @ ''VALUES ('' @ Join (map (\<lambda>_. ''null'') cols) '', '' @ '');''))"

definition lite_GenUpdate :: "db_column list result \<Rightarrow> string \<Rightarrow> string \<Rightarrow> string result" where
  "lite_GenUpdate columns schema table =
     (case columns of
        Inl e \<Rightarrow> Inl e
      | Inr cols \<Rightarrow>
          Inr (''UPDATE '' @ lite_qualified schema table @ [NL] @ ''SET ''
               @ Join (map (\<lambda>c. lite_quoteIdent (c_Name c) @ '' = null'') (filter (\<lambda>c. \<not> c_PK c) cols))
                   ('','' @ [NL] @ ''    '')
               @ [NL] @ ''WHERE <condition>;''))"

lemmas [sql_text] = lite_quoteIdent_def lite_qualified_def lite_quoteLiteral_def lite_DropTableSQL_def
  lite_TruncateSQL_def lite_DropColumnSQL_def lite_DropIndexSQL_def lite_DropSchemaSQL_def

section \<open>Lemmas\<close>

lemma lite_quoteIdent_double: "lite_quoteIdent = double_quote DQ"
  by (simp add: fun_eq_iff lite_quoteIdent_def double_quote_def)

lemma lite_quoteLiteral_double: "lite_quoteLiteral = double_quote SQ"
  by (simp add: fun_eq_iff lite_quoteLiteral_def double_quote_def)

interpretation lite: sql_dialect DQ lite_quoteIdent "read_quoted DQ" SQ lite_quoteLiteral "read_quoted SQ"
  lite_qualified "\<lambda>s. s = [] \<or> s = mainSchema"
  unfolding sql_dialect_def sql_dialect_axioms_def lite_quoteIdent_double lite_quoteLiteral_double
  by (simp add: quoted_token_double_quote lite_qualified_def lite_quoteIdent_double)

lemma lite_runStatement_trace:
  "snd (lite_runStatement srv tr sqlText) =
     tr @ [if lite_returnsRows sqlText then SQuery sqlText else SExec sqlText]"
  by (simp add: lite_runStatement_def)

lemma lite_Query_trace:
  "snd (lite_Query srv sqlText readOnly schema) =
     (let stmt = (if lite_returnsRows sqlText then SQuery sqlText else SExec sqlText);
          on = SExec ''PRAGMA query_only=ON'';
          off = SExec ''PRAGMA query_only=OFF''
      in if \<not> readOnly then [stmt]
         else if refused (srv [] Acquire) then [Acquire]
         else if refused (srv [Acquire] on) then [Acquire, on, off, Release]
         else [Acquire, on, stmt, off, Release])"
proof (cases "refused (srv [] Acquire)")
  case True
  then show ?thesis by (auto simp: lite_Query_def lite_runStatement_trace Let_def elim!: refusedE)
next
  case acq: False
  show ?thesis
  proof (cases "refused (srv [Acquire] (SExec ''PRAGMA query_only=ON''))")
    case True
    then obtain e where "srv [Acquire] (SExec ''PRAGMA query_only=ON'') = AErr e" by (rule refusedE)
    with acq show ?thesis by (simp add: lite_Query_def lite_runStatement_trace Let_def case_refused)
  next
    case False
    with acq show ?thesis
      by (simp add: lite_Query_def lite_runStatement_trace Let_def case_refused split_beta)
  qed
qed

text \<open>The columns of a grouped key are the columns of its rows, in row order, joined by commas.\<close>

definition fk_rows_of :: "'k \<Rightarrow> ('k \<times> 'a \<times> string \<times> string) list \<Rightarrow> ('k \<times> 'a \<times> string \<times> string) list" where
  "fk_rows_of k rows = filter (\<lambda>r. fst r = k) rows"

lemma Join_snoc: "xs \<noteq> [] \<Longrightarrow> Join (xs @ [x]) sep = Join xs sep @ sep @ x"
  by (induction xs sep rule: Join.induct) (auto simp: Join_Cons)

lemma Join_not_Nil: "xs \<noteq> [] \<Longrightarrow> [] \<notin> set xs \<Longrightarrow> Join xs sep \<noteq> []"
  by (induction xs sep rule: Join.induct) auto

lemma appendCol_Join:
  "[] \<notin> set xs \<Longrightarrow> appendCol (Join xs '', '') x = Join (xs @ [x]) '', ''"
  using Join_not_Nil [of xs "'', ''"] Join_snoc [of xs x "'', ''"]
  by (cases "xs = []") (simp_all add: appendCol_def)

lemma keys_add_fk:
  "map fst (add_fk gs (k, a, col, ref)) = (if k \<in> fst ` set gs then map fst gs else map fst gs @ [k])"
proof (induction gs)
  case Nil
  show ?case by simp
next
  case (Cons g gs)
  obtain k' a' c r where "g = (k', a', c, r)" by (cases g) auto
  with Cons show ?case by (cases "k' = k") simp_all
qed

lemma add_fk_member:
  assumes "distinct (map fst gs)" and "(k', a', cols, refs) \<in> set (add_fk gs (k, a, col, ref))"
  shows "if k' \<noteq> k then (k', a', cols, refs) \<in> set gs
     else k \<notin> fst ` set gs \<and> a' = a \<and> cols = col \<and> refs = ref
        \<or> (\<exists>c r. (k, a', c, r) \<in> set gs \<and> cols = appendCol c col \<and> refs = appendCol r ref)"
  using assms
proof (induction gs)
  case Nil
  then show ?case by (simp add: appendCol_def)
next
  case (Cons g gs)
  obtain k0 a0 c0 r0 where g: "g = (k0, a0, c0, r0)" by (cases g) auto
  show ?case
  proof (cases "k0 = k")
    case True
    from Cons.prems True g have "k \<notin> fst ` set gs" by simp
    then have "k' \<noteq> k" if "(k', a', cols, refs) \<in> set gs" using that by (metis fst_conv image_eqI)
    with Cons.prems True g consider "(k', a', cols, refs) = (k, a0, appendCol c0 col, appendCol r0 ref)"
      | "(k', a', cols, refs) \<in> set gs" "k' \<noteq> k" by auto
    then show ?thesis
    proof cases
      case 1
      then show ?thesis by (auto simp: True g)
    next
      case 2
      then show ?thesis by simp
    qed
  next
    case False
    from Cons.prems False g consider "(k', a', cols, refs) = g"
      | "(k', a', cols, refs) \<in> set (add_fk gs (k, a, col, ref))" by auto
    then show ?thesis
    proof cases
      case 1
      with False g show ?thesis by auto
    next
      case 2
      have "distinct (map fst gs)" using Cons.prems by simp
      from Cons.IH [OF this 2] False g show ?thesis by (auto split: if_splits)
    qed
  qed
qed

lemma group_fks_invariant:
  assumes "\<forall>r\<in>set rows. fst (snd (snd r)) \<noteq> [] \<and> snd (snd (snd r)) \<noteq> []"
  shows "distinct (map fst (group_fks rows)) \<and> fst ` set (group_fks rows) = fst ` set rows \<and>
    (\<forall>(k, a, cols, refs)\<in>set (group_fks rows).
       cols = Join (map (\<lambda>r. fst (snd (snd r))) (fk_rows_of k rows)) '', '' \<and>
       refs = Join (map (\<lambda>r. snd (snd (snd r))) (fk_rows_of k rows)) '', '')"
  using assms
proof (induction rows rule: rev_induct)
  case Nil
  show ?case by (simp add: group_fks_def)
next
  case (snoc row rows)
  obtain k a col ref where row: "row = (k, a, col, ref)" by (cases row) auto
  define gs where "gs = group_fks rows"
  have step: "group_fks (rows @ [row]) = add_fk gs (k, a, col, ref)" by (simp add: group_fks_def gs_def row)
  from snoc have d: "distinct (map fst gs)" and keys: "fst ` set gs = fst ` set rows"
    and cols: "\<And>k a c r. (k, a, c, r) \<in> set gs \<Longrightarrow>
       c = Join (map (\<lambda>r. fst (snd (snd r))) (fk_rows_of k rows)) '', '' \<and>
       r = Join (map (\<lambda>r. snd (snd (snd r))) (fk_rows_of k rows)) '', ''"
    by (auto simp: gs_def)
  have ne: "[] \<notin> set (map (\<lambda>r. fst (snd (snd r))) (fk_rows_of k rows))"
    "[] \<notin> set (map (\<lambda>r. snd (snd (snd r))) (fk_rows_of k rows))"
    using snoc.prems by (auto simp: fk_rows_of_def)
  have none: "k \<notin> fst ` set rows \<Longrightarrow> fk_rows_of k rows = []"
    by (auto simp: fk_rows_of_def filter_empty_conv)
  have snoc_rows: "fk_rows_of k' (rows @ [row]) = fk_rows_of k' rows @ (if k = k' then [row] else [])" for k'
    by (simp add: fk_rows_of_def row)
  have "c = Join (map (\<lambda>r. fst (snd (snd r))) (fk_rows_of k' (rows @ [row]))) '', '' \<and>
     r = Join (map (\<lambda>r. snd (snd (snd r))) (fk_rows_of k' (rows @ [row]))) '', ''"
    if m: "(k', a', c, r) \<in> set (add_fk gs (k, a, col, ref))" for k' a' c r
  proof (cases "k' = k")
    case False
    with add_fk_member [OF d m] cols show ?thesis unfolding snoc_rows by simp
  next
    case True
    with add_fk_member [OF d m] consider "k \<notin> fst ` set gs" "c = col" "r = ref"
      | c0 r0 where "(k, a', c0, r0) \<in> set gs" "c = appendCol c0 col" "r = appendCol r0 ref" by auto
    then show ?thesis
    proof cases
      case 1
      with True none keys show ?thesis unfolding snoc_rows by (simp add: row)
    next
      case 2
      with cols [OF 2(1)] True ne show ?thesis unfolding snoc_rows by (simp add: row appendCol_Join)
    qed
  qed
  moreover have "distinct (map fst (add_fk gs (k, a, col, ref)))" using d by (simp add: keys_add_fk)
  moreover have "fst ` set (add_fk gs (k, a, col, ref)) = fst ` set (rows @ [row])"
    using keys arg_cong [OF keys_add_fk [of gs k a col ref], of set] by (auto simp: row)
  ultimately show ?case by (auto simp: step)
qed

end
