(* ===== verification/Security.thy ===== *)
theory Security
  imports Auth Store Postgres MySQL SQLite
begin

text \<open>
  \<^verbatim>\<open>internal/web/security.go\<close>, \<^verbatim>\<open>access.go\<close>, \<^verbatim>\<open>handlers_db.go\<close> and the two helpers of \<^verbatim>\<open>handlers_export.go\<close>: the
  access policy, the screen of host primitives, the redaction of audit lines with its five patterns,
  the response headers, and the export helpers.
\<close>

section \<open>Access\<close>

record conn_access =
  ca_Read :: bool
  ca_Write :: bool

definition ResolveConnAccess :: "user \<Rightarrow> grant option \<Rightarrow> bool \<Rightarrow> conn_access" where
  "ResolveConnAccess u g scoped =
     (if \<not> scoped \<or> u_Admin u then \<lparr>ca_Read = u_Read u, ca_Write = u_Write u\<rparr>
      else case g of
             None \<Rightarrow> \<lparr>ca_Read = False, ca_Write = False\<rparr>
           | Some gr \<Rightarrow> \<lparr>ca_Read = u_Read u, ca_Write = (if g_Level gr = GrantWrite then u_Write u else False)\<rparr>)"

text \<open>\<^verbatim>\<open>access\<close> ignores the error of the lookup: a failing one gives no grant.\<close>

definition access :: "config \<Rightarrow> fault \<Rightarrow> store \<Rightarrow> user \<Rightarrow> connection \<Rightarrow> conn_access" where
  "access cfg f st u c =
     (let scoped = cfg_ScopedAccess cfg;
          g = (if scoped \<and> \<not> u_Admin u
               then (case GrantForSubjects f st (cn_ID c) (Subjects u) of Inl _ \<Rightarrow> None | Inr g \<Rightarrow> g) else None)
      in ResolveConnAccess u g scoped)"

section \<open>The screen of host primitives\<close>

definition serverSideBlockedMsg :: string where
  "serverSideBlockedMsg =
     ''blocked: server-side program execution / file access is restricted to admins see SECURITY.md''"

definition serverSideBlocked :: "user \<Rightarrow> string \<Rightarrow> string list \<Rightarrow> bool" where
  "serverSideBlocked u kind fragments =
     (if u_Admin u then False
      else let joined = Join fragments [NL] in
        if Family kind = FamilyMySQL then my_IsServerSideExec joined
        else if Family kind = FamilySQLite then lite_IsServerSideExec joined
        else pg_IsServerSideExec joined)"

text \<open>The engine's own screen, by the family of the kind.\<close>

definition IsServerSideExec :: "string \<Rightarrow> string \<Rightarrow> bool" where
  "IsServerSideExec kind sql =
     (if Family kind = FamilyMySQL then my_IsServerSideExec sql
      else if Family kind = FamilySQLite then lite_IsServerSideExec sql
      else pg_IsServerSideExec sql)"

definition sessionKey :: "user option \<Rightarrow> string \<Rightarrow> string" where
  "sessionKey u ip =
     (case u of
        Some u \<Rightarrow> (if u_Email u \<noteq> [] then ''u:'' @ u_Email u else ''ip:'' @ ip)
      | None \<Rightarrow> ''ip:'' @ ip)"

section \<open>Audit redaction\<close>

definition re_pw_words :: re where
  "re_pw_words = Alt (lit_ci ''password'') (lit_ci ''identified by'')"

definition reSQLPassword :: re where
  "reSQLPassword =
     seqs [WordB, Group 1 re_pw_words, Group 2 (plus ws), ch SQ,
           Star (Alt (notch SQ) (Seq (ch SQ) (ch SQ))), ch SQ]"

definition re_tag :: re where
  "re_tag = Star (Chr is_word)"

definition reSQLPasswordDollar :: re where
  "reSQLPasswordDollar =
     seqs [WordB, Group 1 re_pw_words, Group 2 (plus ws), ch CHR ''$'', re_tag, ch CHR ''$'',
           LazyStar any, ch CHR ''$'', re_tag, ch CHR ''$'']"

definition reJSONPassword :: re where
  "reJSONPassword =
     seqs [Group 1 (seqs [opt (ch DQ), Alt (lit_ci ''pwd'') (lit_ci ''password''), opt (ch DQ), Star ws, ch CHR '':'', Star ws]),
           ch DQ, Star (Alt (Chr (\<lambda>c. c \<noteq> DQ \<and> c \<noteq> BSL)) (Seq (ch BSL) (notch NL))), ch DQ]"

definition reRedisRequirepass :: re where
  "reRedisRequirepass = seqs [WordB, Group 1 (lit_ci ''requirepass''), Group 2 (plus ws), plus nonws]"

definition reRedisAuth :: re where
  "reRedisAuth = seqs [BeginLine, Group 1 (Seq (Star ws) (lit_ci ''auth'')), Group 2 (plus ws), plus nonws]"

definition truncate :: "string \<Rightarrow> nat \<Rightarrow> string" where
  "truncate s n = (if length s \<le> n then s else take n s @ ellipsis)"

definition stars_quoted :: string where "stars_quoted = [SQ] @ ''***'' @ [SQ]"

definition auditDetail :: "string \<Rightarrow> string" where
  "auditDetail s =
     (let s = ReplaceAllString reSQLPassword s (\<lambda>m. cap m 1 @ cap m 2 @ stars_quoted);
          s = ReplaceAllString reSQLPasswordDollar s (\<lambda>m. cap m 1 @ cap m 2 @ stars_quoted);
          s = ReplaceAllString reJSONPassword s (\<lambda>m. cap m 1 @ [DQ] @ ''***'' @ [DQ]);
          s = ReplaceAllString reRedisRequirepass s (\<lambda>m. cap m 1 @ cap m 2 @ ''***'');
          s = ReplaceAllString reRedisAuth s (\<lambda>m. cap m 1 @ cap m 2 @ ''***'')
      in truncate s 500)"

section \<open>Response headers\<close>

text \<open>\<open>origin\<close> is \<^verbatim>\<open>originOf(cfg.OIDCIssuer)\<close>, the scheme and host that \<^verbatim>\<open>url.Parse\<close> finds.\<close>

definition csp :: "string \<Rightarrow> string" where
  "csp origin =
     (let q = (\<lambda>s. [SQ] @ s @ [SQ]);
          formAction = (if origin \<noteq> [] then q ''self'' @ '' '' @ origin else q ''self'')
      in Join [''default-src '' @ q ''self'', ''script-src '' @ q ''self'',
               ''style-src '' @ q ''self'' @ '' '' @ q ''unsafe-inline'' @ '' https://fonts.googleapis.com'',
               ''font-src '' @ q ''self'' @ '' https://fonts.gstatic.com'', ''img-src '' @ q ''self'' @ '' data:'',
               ''connect-src '' @ q ''self'', ''object-src '' @ q ''none'', ''base-uri '' @ q ''self'',
               ''form-action '' @ formAction, ''frame-ancestors '' @ q ''none''] ''; '')"

definition securityHeaders :: "config \<Rightarrow> string \<Rightarrow> (string \<times> string) list" where
  "securityHeaders cfg origin =
     [(''X-Frame-Options'', ''DENY''), (''X-Content-Type-Options'', ''nosniff''),
      (''Referrer-Policy'', ''no-referrer''), (''Content-Security-Policy'', csp origin)]
     @ (if take 5 (cfg_BaseURL cfg) = ''https''
        then [(''Strict-Transport-Security'', ''max-age=63072000; includeSubDomains'')] else [])"

section \<open>Export helpers\<close>

definition csvSafe :: "string \<Rightarrow> string" where
  "csvSafe s =
     (if s = [] then s
      else if hd s \<in> set (''=+-@'' @ [TAB, CR]) then SQ # s
      else s)"

text \<open>The number of bytes of the first rune of a text; an invalid byte is a rune of its own.\<close>

definition cont_byte :: "string \<Rightarrow> nat \<Rightarrow> bool" where
  "cont_byte s i \<longleftrightarrow> i < length s \<and> 128 \<le> code (s ! i) \<and> code (s ! i) \<le> 191"

definition rune_len :: "string \<Rightarrow> nat" where
  "rune_len s =
     (case s of
        [] \<Rightarrow> 0
      | c # _ \<Rightarrow>
          (let b = code c; second = (if 1 < length s then code (s ! 1) else 0) in
           if 194 \<le> b \<and> b \<le> 223 \<and> cont_byte s 1 then 2
           else if (b = 224 \<and> 160 \<le> second \<or> 225 \<le> b \<and> b \<le> 239 \<and> (b = 237 \<longrightarrow> second \<le> 159))
                   \<and> cont_byte s 1 \<and> cont_byte s 2 then 3
           else if (b = 240 \<and> 144 \<le> second \<or> 241 \<le> b \<and> b \<le> 243 \<or> b = 244 \<and> second \<le> 143)
                   \<and> cont_byte s 1 \<and> cont_byte s 2 \<and> cont_byte s 3 then 4
           else 1))"

lemma rune_len_pos: "s \<noteq> [] \<Longrightarrow> 0 < rune_len s"
  by (cases s) (simp_all add: rune_len_def Let_def)

definition file_char :: "char \<Rightarrow> bool" where
  "file_char c \<longleftrightarrow> is_lower c \<or> is_upper c \<or> is_digit c \<or> c = CHR ''_'' \<or> c = CHR ''-''"

function sanitizeFilename :: "string \<Rightarrow> string" where
  "sanitizeFilename s =
     (case s of
        [] \<Rightarrow> []
      | c # _ \<Rightarrow> (if file_char c then c else CHR ''_'') # sanitizeFilename (drop (rune_len s) s))"
  by pat_completeness auto
termination
proof (relation "measure length")
  fix s c t
  assume "s = c # (t :: string)"
  then show "(drop (rune_len s) s, s) \<in> measure length" using rune_len_pos [of s] by simp
qed simp

declare sanitizeFilename.simps [simp del]

definition browseLimit :: int where "browseLimit = 100"

definition redisReadAllow :: "string list" where
  "redisReadAllow =
     [''get'', ''mget'', ''type'', ''ttl'', ''pttl'', ''scan'', ''hget'', ''hgetall'', ''hkeys'', ''hlen'', ''lrange'',
      ''llen'', ''smembers'', ''scard'', ''zrange'', ''zcard'', ''exists'', ''strlen'', ''info'', ''dbsize'', ''ping'',
      ''memory'', ''object'']"

definition orStar :: "string \<Rightarrow> string" where
  "orStar s = (if s = [] then ''*'' else s)"

lemmas [go_strings] = re_pw_words_def reSQLPassword_def re_tag_def reSQLPasswordDollar_def reJSONPassword_def
  reRedisRequirepass_def reRedisAuth_def stars_quoted_def auditDetail_def truncate_def

section \<open>Properties\<close>

text \<open>
  C12: the effective access to a connection is exactly the global capability cut down by the grants:
  reading needs the global read capability and, in scoped mode for a user who is not an admin, some
  grant on this connection to one of the user's subjects; writing needs the global write capability and
  then a write grant. If the lookup of the grants fails, a scoped user who is not an admin gets none.
\<close>

theorem access_exact:
  "ca_Read (access cfg None st u c) = (u_Read u \<and> (\<not> cfg_ScopedAccess cfg \<or> u_Admin u \<or>
      (\<exists>g\<in>set (st_grants st). g_ConnID g = cn_ID c \<and> g_Subject g \<in> set (Subjects u))))
   \<and> ca_Write (access cfg None st u c) = (u_Write u \<and> (\<not> cfg_ScopedAccess cfg \<or> u_Admin u \<or>
      (\<exists>g\<in>set (st_grants st). g_ConnID g = cn_ID c \<and> g_Subject g \<in> set (Subjects u) \<and> g_Level g = GrantWrite)))
   \<and> access cfg (Some e) st u c =
        (if cfg_ScopedAccess cfg \<and> \<not> u_Admin u then \<lparr>ca_Read = False, ca_Write = False\<rparr>
         else \<lparr>ca_Read = u_Read u, ca_Write = u_Write u\<rparr>)"
proof -
  have "access cfg (Some e) st u c =
        (if cfg_ScopedAccess cfg \<and> \<not> u_Admin u then \<lparr>ca_Read = False, ca_Write = False\<rparr>
         else \<lparr>ca_Read = u_Read u, ca_Write = u_Write u\<rparr>)"
    by (simp add: access_def ResolveConnAccess_def GrantForSubjects_def)
  moreover note GrantForSubjects_highest [of st "cn_ID c" "Subjects u"]
  ultimately show ?thesis
    by (cases "cfg_ScopedAccess cfg \<and> \<not> u_Admin u")
      (auto simp: access_def ResolveConnAccess_def split: sum.splits option.splits)
qed

definition scoped_cfg :: config where
  "scoped_cfg = (read_config (\<lambda>_. []))\<lparr>cfg_ScopedAccess := True\<rparr>"

definition team_user :: user where
  "team_user = no_user\<lparr>u_Groups := [''team''], u_Read := True, u_Write := True\<rparr>"

definition team_store :: store where
  "team_store = demo_store\<lparr>st_grants := [\<lparr>g_ID = 1, g_ConnID = 0, g_Subject = ''team'', g_Level = ''read'',
     g_CreatedBy = [], g_CreatedAt = 0\<rparr>]\<rparr>"

theorem access_exact_witness:
  "ca_Read (access scoped_cfg None team_store team_user demo_conn)
   \<and> ca_Write (access scoped_cfg None team_store team_user demo_conn) = False"
proof -
  have "Subjects team_user = [''team'']" by code_simp
  then show ?thesis
    using access_exact [of scoped_cfg team_store team_user demo_conn "[]"]
    by (simp add: scoped_cfg_def team_user_def team_store_def demo_conn_def GrantWrite_def no_user_def)
qed

lemma no_anchor_screens: "no_anchor pg_reServerSide" "no_anchor my_reServerSide" "no_anchor lite_reServerSide"
  by (auto simp: pg_reServerSide_def my_reServerSide_def lite_reServerSide_def no_anchor_alts list_all_iff
      plus_def ws_def ch_def notch_def ci_def)

text \<open>
  The screen of host primitives sees every fragment: if the engine's own screen reports one of the
  fragments of a request, the request of a user who is not an admin is blocked, whatever the others are.
\<close>

lemma blocked_fragment:
  assumes "\<not> u_Admin u" and "f \<in> set fragments" and "IsServerSideExec kind f"
  shows "serverSideBlocked u kind fragments"
  using assms MatchString_Join [of _ f fragments]
  by (auto simp: serverSideBlocked_def IsServerSideExec_def pg_IsServerSideExec_def my_IsServerSideExec_def
      lite_IsServerSideExec_def no_anchor_screens split: if_splits)

lemma sanitizeFilename_chars: "c \<in> set (sanitizeFilename s) \<Longrightarrow> file_char c"
proof (induction s rule: sanitizeFilename.induct)
  case (1 s)
  show ?case
  proof (cases s)
    case Nil
    then show ?thesis using 1(2) by (simp add: sanitizeFilename.simps)
  next
    case (Cons d t)
    then show ?thesis using 1 sanitizeFilename.simps [of s]
      by (auto simp: file_char_def split: if_splits)
  qed
qed

lemma sanitizeFilename_id: "list_all file_char s \<Longrightarrow> sanitizeFilename s = s"
proof (induction s)
  case (Cons c t)
  then have c: "file_char c" by simp
  then have "code c < 128"
    by (auto simp: file_char_def is_lower_def is_upper_def is_digit_def code_def)
  then have "rune_len (c # t) = 1" by (simp add: rune_len_def Let_def)
  with Cons c show ?case by (simp add: sanitizeFilename.simps [of "c # t"])
qed (simp add: sanitizeFilename.simps)

text \<open>
  A file name for a download consists of letters, digits, underscores and hyphens only (so no path
  separator, quote or line break reaches the header), is left as it is when it already does, and the
  sanitiser is idempotent; a CSV field never starts with a character that a spreadsheet takes for a
  formula, and the original field can be read back from it.
\<close>

theorem export_helpers_safe:
  "list_all file_char (sanitizeFilename s)
   \<and> sanitizeFilename (sanitizeFilename s) = sanitizeFilename s
   \<and> (csvSafe s = [] \<or> hd (csvSafe s) \<notin> {CHR ''='', CHR ''+'', CHR ''-'', CHR ''@'', TAB, CR})
   \<and> (csvSafe s = s \<or> csvSafe s = SQ # s)"
proof -
  have "list_all file_char (sanitizeFilename s)"
    using sanitizeFilename_chars [of _ s] by (auto simp: list_all_iff)
  then show ?thesis
    using sanitizeFilename_id [of "sanitizeFilename s"] by (auto simp: csvSafe_def)
qed

text \<open>
  Whatever the statement, its audit line is no longer than 500 bytes and the mark of the cut.
\<close>

theorem auditDetail_bounded: "length (auditDetail s) \<le> 503"
  by (simp add: auditDetail_def truncate_def Let_def ellipsis_def)

end
