(* ===== verification/Redact.thy ===== *)
theory Redact
  imports Security
begin

text \<open>
  What the redaction of \<^verbatim>\<open>security.go\<close> keeps out of the audit log. The first half says which match the
  leftmost-first matcher reports on a text of a known shape (\<open>takes\<close>); the second half follows
  \<^verbatim>\<open>reSQLPassword\<close> over a statement that holds a quoted password and shows that the audit line does not
  depend on the password, then instantiates it on the statements that the engines build.
\<close>

section \<open>The reported match\<close>

definition takes :: "re \<Rightarrow> position \<Rightarrow> captures \<Rightarrow> position \<Rightarrow> captures \<Rightarrow> bool" where
  "takes r q cs q' cs' \<longleftrightarrow> (\<exists>ms. rmatch r q cs = (q', cs') # ms)"

lemma takes_Chr: "p c \<Longrightarrow> takes (Chr p) (pre, c # t) cs (c # pre, t) cs"
  by (simp add: takes_def)

lemma takes_ch: "takes (ch c) (pre, c # t) cs (c # pre, t) cs"
  by (simp add: ch_def takes_Chr)

lemma takes_WordB: "word_at pre \<noteq> word_at post \<Longrightarrow> takes WordB (pre, post) cs (pre, post) cs"
  by (simp add: takes_def)

lemma takes_Seq: "takes r1 q cs q1 cs1 \<Longrightarrow> takes r2 q1 cs1 q2 cs2 \<Longrightarrow> takes (Seq r1 r2) q cs q2 cs2"
  unfolding takes_def by (cases q) auto

lemma takes_Alt1: "takes r1 q cs q1 cs1 \<Longrightarrow> takes (Alt r1 r2) q cs q1 cs1"
  unfolding takes_def by (cases q) auto

lemma takes_Alt2: "rmatch r1 q cs = [] \<Longrightarrow> takes r2 q cs q1 cs1 \<Longrightarrow> takes (Alt r1 r2) q cs q1 cs1"
  unfolding takes_def by (cases q) auto

lemma takes_Group:
  "takes r (pre, post) cs (pre', post') cs' \<Longrightarrow>
     takes (Group n r) (pre, post) cs (pre', post') ((n, between pre pre') # cs')"
  unfolding takes_def by auto

lemma takes_Star_stop: "rmatch r q cs = [] \<Longrightarrow> takes (Star r) q cs q cs"
  by (simp add: takes_def rmatch.simps(8))

lemma takes_Star_step:
  "takes r q cs q1 cs1 \<Longrightarrow> length (snd q1) < length (snd q) \<Longrightarrow> takes (Star r) q1 cs1 q2 cs2 \<Longrightarrow>
     takes (Star r) q cs q2 cs2"
  unfolding takes_def by (auto simp: rmatch.simps(8) [of r q])

lemma takes_Star_Chr:
  "list_all p u \<Longrightarrow> t = [] \<or> \<not> p (hd t) \<Longrightarrow> takes (Star (Chr p)) (pre, u @ t) cs (rev u @ pre, t) cs"
proof (induction u arbitrary: pre)
  case Nil
  then show ?case by (cases t) (auto intro: takes_Star_stop)
next
  case (Cons c u)
  then show ?case using takes_Star_step [OF takes_Chr [of p c pre "u @ t" cs]] by simp
qed

lemma takes_plus_Chr:
  "u \<noteq> [] \<Longrightarrow> list_all p u \<Longrightarrow> t = [] \<or> \<not> p (hd t) \<Longrightarrow>
     takes (plus (Chr p)) (pre, u @ t) cs (rev u @ pre, t) cs"
  unfolding plus_def
proof (cases u)
  case (Cons c v)
  assume u: "list_all p u" "t = [] \<or> \<not> p (hd t)"
  from u Cons have "takes (Chr p) (pre, c # v @ t) cs (c # pre, v @ t) cs" by (simp add: takes_Chr)
  from takes_Seq [OF this takes_Star_Chr [of p v t]] u Cons
  show "takes (Seq (Chr p) (Star (Chr p))) (pre, u @ t) cs (rev u @ pre, t) cs" by simp
qed simp

lemma takes_lit_ci: "ToLower u = w \<Longrightarrow> takes (lit_ci w) (pre, u @ t) cs (rev u @ pre, t) cs"
proof (induction w arbitrary: u pre rule: lit_ci.induct)
  case 1
  then have "u = []" by (simp add: ToLower_def)
  moreover have "rmatch (Chr (\<lambda>_. False)) (pre, t) cs = []" by (cases t) auto
  ultimately show ?case by (simp add: eps_def takes_Star_stop)
next
  case (2 c)
  then obtain d where "u = [d]" "lower_char d = c" by (auto simp: ToLower_def)
  then show ?case by (simp add: ci_def takes_Chr)
next
  case (3 c d s)
  then obtain x v where u: "u = x # v" "lower_char x = c" "ToLower v = d # s"
    by (auto simp: ToLower_eq_Cons)
  have "takes (ci c) (pre, x # v @ t) cs (x # pre, v @ t) cs"
    using u(2) by (simp add: ci_def takes_Chr)
  from takes_Seq [OF this "3.IH" [OF u(3), of "x # pre"]] show ?case by (simp add: u)
qed

lemma replace_from_takes:
  "takes r (pre, post) [] (pre', post') cs \<Longrightarrow> length post' < length post \<Longrightarrow>
     replace_from r tmpl pre post = tmpl cs @ replace_from r tmpl pre' post'"
  unfolding takes_def using replace_from_hit by blast

section \<open>The quoted password\<close>

text \<open>The inside of a quoted literal: every quote is doubled.\<close>

fun doubled :: "string \<Rightarrow> bool" where
  "doubled [] = True"
| "doubled [c] = (c \<noteq> SQ)"
| "doubled (c # d # t) = (if c = SQ then d = SQ \<and> doubled t else doubled (d # t))"

definition pw_word :: "string \<Rightarrow> bool" where
  "pw_word k \<longleftrightarrow> ToLower k \<in> {''password'', ''identified by''}"

definition rePasswordHead :: re where
  "rePasswordHead = seqs [re_pw_words, plus ws, ch SQ]"

text \<open>No keyword that announces a quoted password.\<close>

definition pw_clean :: "string \<Rightarrow> bool" where
  "pw_clean s \<longleftrightarrow> \<not> MatchString rePasswordHead s"

definition re_pw_body :: re where
  "re_pw_body = Star (Alt (notch SQ) (Seq (ch SQ) (ch SQ)))"

lemma takes_pw_body:
  assumes "doubled b" and "post = [] \<or> hd post \<noteq> SQ"
  shows "takes re_pw_body (pre, b @ SQ # post) cs (rev b @ pre, SQ # post) cs"
  using assms(1)
proof (induction b arbitrary: pre rule: doubled.induct)
  case 1
  have "rmatch (Alt (notch SQ) (Seq (ch SQ) (ch SQ))) (pre, SQ # post) cs = []"
    using assms(2) by (cases post) (auto simp: notch_def ch_def)
  then show ?case by (simp add: re_pw_body_def takes_Star_stop)
next
  case (2 c)
  then have "takes (Alt (notch SQ) (Seq (ch SQ) (ch SQ))) (pre, c # SQ # post) cs (c # pre, SQ # post) cs"
    by (intro takes_Alt1) (simp add: notch_def takes_Chr)
  moreover have "rmatch (Alt (notch SQ) (Seq (ch SQ) (ch SQ))) (c # pre, SQ # post) cs = []"
    using assms(2) by (cases post) (auto simp: notch_def ch_def)
  then have "takes re_pw_body (c # pre, SQ # post) cs (c # pre, SQ # post) cs"
    by (simp add: re_pw_body_def takes_Star_stop)
  ultimately show ?case unfolding re_pw_body_def by (auto intro: takes_Star_step)
next
  case (3 c d t)
  show ?case
  proof (cases "c = SQ")
    case True
    with 3 have d: "d = SQ" and t: "doubled t" by auto
    have "takes (Alt (notch SQ) (Seq (ch SQ) (ch SQ))) (pre, SQ # SQ # t @ SQ # post) cs
        (SQ # SQ # pre, t @ SQ # post) cs"
      by (intro takes_Alt2 takes_Seq [OF takes_ch takes_ch]) (simp add: notch_def)
    with "3.IH"(1) [OF True t, of "SQ # SQ # pre"] show ?thesis
      unfolding re_pw_body_def by (auto simp: True d intro: takes_Star_step)
  next
    case False
    with 3 have t: "doubled (d # t)" by simp
    have "takes (Alt (notch SQ) (Seq (ch SQ) (ch SQ))) (pre, c # (d # t) @ SQ # post) cs
        (c # pre, (d # t) @ SQ # post) cs"
      using False by (intro takes_Alt1) (simp add: notch_def takes_Chr)
    with "3.IH"(2) [OF False t, of "c # pre"] show ?thesis
      unfolding re_pw_body_def by (auto intro: takes_Star_step)
  qed
qed

lemma pw_word_first: "pw_word k \<Longrightarrow> word_at (k @ t)"
proof -
  assume "pw_word k"
  then obtain c v where k: "k = c # v" and "lower_char c = CHR ''p'' \<or> lower_char c = CHR ''i''"
    by (cases k) (auto simp: pw_word_def ToLower_def)
  then have "is_word (lower_char c)" by (auto simp: is_word_code code_def)
  then show ?thesis by (simp add: k)
qed

lemma takes_pw_words:
  assumes "pw_word k"
  shows "takes re_pw_words (pre, k @ t) cs (rev k @ pre, t) cs"
proof (cases "ToLower k = ''password''")
  case True
  then show ?thesis unfolding re_pw_words_def by (intro takes_Alt1 takes_lit_ci)
next
  case False
  with assms have id: "ToLower k = ''identified by''" by (simp add: pw_word_def)
  have "rmatch (lit_ci ''password'') (pre, k @ t) cs = []"
  proof -
    have "k @ t = u @ v \<Longrightarrow> ToLower u \<noteq> ''password''" for u v
      using id by (cases k; cases u) (auto simp: ToLower_def)
    then show ?thesis unfolding rmatch_Nil_iff rmatches_lit_ci by blast
  qed
  with id show ?thesis unfolding re_pw_words_def by (intro takes_Alt2 takes_lit_ci)
qed

lemma reSQLPassword_body:
  "reSQLPassword = seqs [WordB, Group 1 re_pw_words, Group 2 (plus ws), ch SQ, re_pw_body, ch SQ]"
  by (simp add: reSQLPassword_def re_pw_body_def)

lemma between_rev [simp]: "between pre (rev u @ pre) = u"
  by (simp add: between_def)

lemma takes_reSQLPassword:
  assumes "pw_word k" and "sp \<noteq> []" and "list_all re_space sp" and "doubled b"
    and "post = [] \<or> hd post \<noteq> SQ" and "\<not> word_at pre"
  shows "takes reSQLPassword (pre, k @ sp @ SQ # b @ SQ # post) []
     (SQ # rev b @ SQ # rev sp @ rev k @ pre, post) [(2, sp), (1, k)]"
proof -
  have 1: "takes WordB (pre, k @ sp @ SQ # b @ SQ # post) [] (pre, k @ sp @ SQ # b @ SQ # post) []"
    using assms(6) pw_word_first [OF assms(1)] by (simp add: takes_WordB)
  have 2: "takes (Group 1 re_pw_words) (pre, k @ sp @ SQ # b @ SQ # post) []
      (rev k @ pre, sp @ SQ # b @ SQ # post) [(1, k)]"
    using takes_Group [OF takes_pw_words [OF assms(1)], of 1] by simp
  have "\<not> re_space SQ" by (simp add: re_space_def is_space_def)
  with assms(2,3) have "takes (plus ws) (rev k @ pre, sp @ SQ # b @ SQ # post) [(1, k)]
      (rev sp @ rev k @ pre, SQ # b @ SQ # post) [(1, k)]"
    unfolding ws_def by (intro takes_plus_Chr) auto
  from takes_Group [OF this, of 2]
  have 3: "takes (Group 2 (plus ws)) (rev k @ pre, sp @ SQ # b @ SQ # post) [(1, k)]
      (rev sp @ rev k @ pre, SQ # b @ SQ # post) [(2, sp), (1, k)]" by simp
  show ?thesis
    unfolding reSQLPassword_body seqs.simps
    by (rule takes_Seq [OF 1 takes_Seq [OF 2 takes_Seq [OF 3 takes_Seq [OF takes_ch
          takes_Seq [OF takes_pw_body [OF assms(4,5)] takes_ch]]]]])
qed

section \<open>Matches of the pattern\<close>

lemma rmatches_pw_words [simp]: "rmatches re_pw_words pre u post \<longleftrightarrow> pw_word u"
  unfolding re_pw_words_def rmatches_Alt rmatches_lit_ci pw_word_def by blast

lemma reSQLPassword_match:
  assumes "rmatches reSQLPassword pre u post"
  shows "\<exists>k sp w. u = k @ sp @ SQ # w \<and> pw_word k \<and> sp \<noteq> [] \<and> list_all re_space sp"
  using assms unfolding reSQLPassword_body seqs.simps
  by (auto simp: rmatches_Seq rmatches_WordB rmatches_Group)

lemma head_match:
  "rmatches rePasswordHead pre u post \<longleftrightarrow>
     (\<exists>k sp. u = k @ sp @ [SQ] \<and> pw_word k \<and> sp \<noteq> [] \<and> list_all re_space sp)"
  unfolding rePasswordHead_def seqs.simps by (auto simp: rmatches_Seq)

lemma pw_clean_iff:
  "pw_clean s \<longleftrightarrow>
     (\<nexists>x k sp y. s = x @ k @ sp @ SQ # y \<and> pw_word k \<and> sp \<noteq> [] \<and> list_all re_space sp)"
proof -
  have "MatchString rePasswordHead s \<longleftrightarrow>
      (\<exists>x u y k sp. s = x @ u @ y \<and> u = k @ sp @ [SQ] \<and> pw_word k \<and> sp \<noteq> [] \<and> list_all re_space sp)"
    unfolding MatchString_iff head_match by blast
  also have "\<dots> \<longleftrightarrow> (\<exists>x k sp y. s = x @ k @ sp @ SQ # y \<and> pw_word k \<and> sp \<noteq> [] \<and> list_all re_space sp)"
    by (metis append.assoc append_Cons append_Nil)
  finally show ?thesis unfolding pw_clean_def by blast
qed

lemma lower_SQ: "lower_char SQ = SQ"
  by (simp add: lower_char_def is_upper_def code_def)

lemma pw_word_shape:
  "pw_word k \<Longrightarrow> k \<noteq> [] \<and> SQ \<notin> set k \<and> \<not> re_space (hd k) \<and> \<not> re_space (last k)"
proof -
  assume k: "pw_word k"
  then have "k \<noteq> []" by (auto simp: pw_word_def ToLower_def)
  moreover have "SQ \<notin> set k"
  proof
    assume "SQ \<in> set k"
    then have "SQ \<in> set (ToLower k)"
      using image_eqI [of SQ lower_char SQ "set k"] by (simp add: ToLower_def lower_SQ)
    with k show False by (auto simp: pw_word_def)
  qed
  moreover have "\<not> re_space (hd k) \<and> \<not> re_space (last k)"
  proof -
    from k have "lower_char (hd k) \<in> {CHR ''p'', CHR ''i''}" "lower_char (last k) \<in> {CHR ''d'', CHR ''y''}"
      using \<open>k \<noteq> []\<close> hd_map [of k lower_char] last_map [of k lower_char]
      by (auto simp: pw_word_def ToLower_def)
    moreover have "is_word CHR ''p''" "is_word CHR ''i''" "is_word CHR ''d''" "is_word CHR ''y''"
      by (simp_all add: is_word_code code_def)
    ultimately have "is_word (hd k)" "is_word (last k)"
      by (metis empty_iff insert_iff is_word_lower_char)+
    moreover have "re_space c \<Longrightarrow> \<not> is_word c" for c
      by (auto simp: re_space_def is_space_def is_word_code code_def)
    ultimately show ?thesis by blast
  qed
  ultimately show ?thesis by blast
qed

text \<open>Neither keyword is a proper ending of a keyword.\<close>

lemma pw_word_suffix:
  assumes "pw_word (y @ k)" and "pw_word k"
  shows "y = []"
proof (rule ccontr)
  assume "y \<noteq> []"
  then have "length (ToLower k) < length (ToLower (y @ k))" by simp
  with assms have k: "ToLower k = ''password''" and yk: "ToLower (y @ k) = ''identified by''"
    by (auto simp: pw_word_def simp del: ToLower_append length_ToLower)
  have "rev (ToLower (y @ k)) = rev (ToLower k) @ rev (ToLower y)" by simp
  with k yk show False by simp
qed

lemma spaces_unique:
  assumes "x @ sp = y @ sp'" and "list_all P sp" and "list_all P sp'"
    and "x \<noteq> []" and "\<not> P (last x)" and "y \<noteq> []" and "\<not> P (last y)"
  shows "x = y \<and> sp = sp'"
proof -
  have "takeWhile P (rev (z @ s)) = rev s" if "list_all P s" "z \<noteq> []" "\<not> P (last z)" for z s
  proof -
    have "takeWhile P (rev z) = []" using that by (cases z rule: rev_cases) auto
    then show ?thesis using that by (simp add: takeWhile_append list_all_iff)
  qed
  then have "rev sp = rev sp'" using assms by metis
  with assms(1) show ?thesis by simp
qed

lemma first_split: "c \<notin> set x \<Longrightarrow> c \<notin> set y \<Longrightarrow> x @ c # s = y @ c # t \<Longrightarrow> x = y \<and> s = t"
proof (induction x arbitrary: y)
  case Nil
  then show ?case by (cases y) auto
next
  case (Cons d x)
  then show ?case by (cases y) auto
qed

lemma no_match_before:
  assumes clean: "pw_clean a" and k: "pw_word k" and sp: "sp \<noteq> []" "list_all re_space sp"
    and y: "a = x @ y" "y \<noteq> []"
  shows "rmatch reSQLPassword (rev x @ pre, y @ k @ sp @ SQ # t) [] = []"
proof (rule ccontr)
  assume "rmatch reSQLPassword (rev x @ pre, y @ k @ sp @ SQ # t) [] \<noteq> []"
  then obtain u v where uv: "y @ k @ sp @ SQ # t = u @ v" "rmatches reSQLPassword (rev x @ pre) u v"
    unfolding rmatch_Nil_iff by blast
  from reSQLPassword_match [OF uv(2)] obtain k' sp' w where
    u: "u = k' @ sp' @ SQ # w" and k': "pw_word k'" and sp': "sp' \<noteq> []" "list_all re_space sp'" by blast
  have nsq: "SQ \<notin> set s" if "list_all re_space s" for s
    using that by (auto simp: list_all_iff re_space_def is_space_def)
  have eq: "(y @ k @ sp) @ SQ # t = (k' @ sp') @ SQ # (w @ v)" using uv(1) u by simp
  show False
  proof (cases "SQ \<in> set y")
    case True
    then obtain y1 y2 where y12: "y = y1 @ SQ # y2" "SQ \<notin> set y1" by (meson split_list_first)
    with eq have "y1 @ SQ # (y2 @ k @ sp @ SQ # t) = (k' @ sp') @ SQ # (w @ v)" by simp
    then have "y1 = k' @ sp'"
      using y12(2) pw_word_shape [OF k'] nsq [OF sp'(2)]
        first_split [of SQ y1 "k' @ sp'" "y2 @ k @ sp @ SQ # t" "w @ v"] by simp
    with y y12 have "a = x @ k' @ sp' @ SQ # y2" by simp
    with clean k' sp' show False unfolding pw_clean_iff by blast
  next
    case False
    then have "(y @ k) @ sp = k' @ sp'"
      using eq pw_word_shape [OF k] pw_word_shape [OF k'] nsq [OF sp(2)] nsq [OF sp'(2)]
        first_split [of SQ "y @ k @ sp" "k' @ sp'" t "w @ v"] by simp
    then have "y @ k = k'"
      using spaces_unique [of "y @ k" sp k' sp' re_space] sp sp' pw_word_shape [OF k] pw_word_shape [OF k']
      by simp
    with k k' pw_word_suffix y show False by blast
  qed
qed

lemma replace_clean: "pw_clean s \<Longrightarrow> replace_from reSQLPassword tmpl pre s = s"
proof (rule replace_from_none)
  assume c: "pw_clean s"
  show "\<nexists>x u y. s = x @ u @ y \<and> rmatches reSQLPassword (rev x @ pre) u y"
  proof
    assume "\<exists>x u y. s = x @ u @ y \<and> rmatches reSQLPassword (rev x @ pre) u y"
    then obtain x u y where s: "s = x @ u @ y" "rmatches reSQLPassword (rev x @ pre) u y" by blast
    from reSQLPassword_match [OF s(2)] obtain k sp w where
      "u = k @ sp @ SQ # w" "pw_word k" "sp \<noteq> []" "list_all re_space sp" by blast
    with s(1) have "s = x @ k @ sp @ SQ # (w @ y)" by simp
    with c \<open>pw_word k\<close> \<open>sp \<noteq> []\<close> \<open>list_all re_space sp\<close> show False unfolding pw_clean_iff by blast
  qed
qed

lemma redact_statement:
  assumes "pw_clean a" and "\<not> word_at (rev a)" and "pw_word k" and "sp \<noteq> []" and "list_all re_space sp"
    and "doubled b" and "post = [] \<or> hd post \<noteq> SQ" and "pw_clean post"
  shows "ReplaceAllString reSQLPassword (a @ k @ sp @ SQ # b @ SQ # post) (\<lambda>m. cap m 1 @ cap m 2 @ stars_quoted)
     = a @ k @ sp @ stars_quoted @ post"
proof -
  have "replace_from reSQLPassword tmpl [] (a @ k @ sp @ SQ # b @ SQ # post)
      = a @ replace_from reSQLPassword tmpl (rev a) (k @ sp @ SQ # b @ SQ # post)" for tmpl
    using replace_from_skips [of a reSQLPassword "[]" "k @ sp @ SQ # b @ SQ # post" tmpl]
      no_match_before [OF assms(1,3,4,5), of _ _ "[]" "b @ SQ # post"] by simp
  moreover have "replace_from reSQLPassword tmpl (rev a) (k @ sp @ SQ # b @ SQ # post)
      = tmpl [(2, sp), (1, k)] @ post" for tmpl
    using replace_from_takes [OF takes_reSQLPassword [OF assms(3-7,2)]] replace_clean [OF assms(8)] by simp
  ultimately show ?thesis unfolding ReplaceAllString_def by (simp add: cap_def)
qed

section \<open>Audit lines do not depend on a quoted password\<close>

lemma auditDetail_stages:
  "ReplaceAllString reSQLPassword s (\<lambda>m. cap m 1 @ cap m 2 @ stars_quoted)
     = ReplaceAllString reSQLPassword t (\<lambda>m. cap m 1 @ cap m 2 @ stars_quoted) \<Longrightarrow> auditDetail s = auditDetail t"
  by (simp add: auditDetail_def)

lemma auditDetail_same:
  assumes "pw_clean a" and "\<not> word_at (rev a)" and "pw_word k" and "sp \<noteq> []" and "list_all re_space sp"
    and "doubled b" and "doubled b'" and "post = [] \<or> hd post \<noteq> SQ" and "pw_clean post"
  shows "auditDetail (a @ k @ sp @ SQ # b @ SQ # post) = auditDetail (a @ k @ sp @ SQ # b' @ SQ # post)"
  by (rule auditDetail_stages) (simp only: redact_statement [OF assms(1-6,8-9)]
      redact_statement [OF assms(1-5,7-9)])

lemma doubled_append: "doubled s \<Longrightarrow> doubled t \<Longrightarrow> doubled (s @ t)"
proof (induction s rule: doubled.induct)
  case (2 c)
  then show ?case by (cases t) auto
qed auto

lemma doubled_concat: "(\<And>c. doubled (f c)) \<Longrightarrow> doubled (concat (map f s))"
  by (induction s) (auto intro: doubled_append)

lemma pg_literal_body: "\<exists>b. doubled b \<and> pg_QuoteLiteral pw = SQ # b @ [SQ]"
  by (intro exI [of _ "concat (map (\<lambda>c. if c = SQ then [SQ, SQ] else [c]) pw)"])
    (auto simp: pg_QuoteLiteral_def ReplaceAll_char intro: doubled_concat)

lemma my_literal_body: "\<exists>b. doubled b \<and> my_quoteLiteral pw = SQ # b @ [SQ]"
  by (intro exI [of _ "concat (map my_lit_byte pw)"])
    (auto simp: my_quoteLiteral_bytes my_lit_byte_def intro!: doubled_concat)

text \<open>
  C37: a statement that carries a password as a literal quoted for Postgres or for MySQL after
  \<^verbatim>\<open>PASSWORD\<close> or \<^verbatim>\<open>IDENTIFIED BY\<close> (in any case, with any white space) has an audit line that does not depend on
  the password: the lines for any two passwords are equal. The text around it must not itself
  announce a quoted password, and the keyword must start a word.
\<close>

theorem auditDetail_hides_password:
  assumes "pw_clean a" and "\<not> word_at (rev a)" and "pw_word k" and "sp \<noteq> []" and "list_all re_space sp"
    and "post = [] \<or> hd post \<noteq> SQ" and "pw_clean post"
  shows "auditDetail (a @ k @ sp @ pg_QuoteLiteral pw @ post) = auditDetail (a @ k @ sp @ pg_QuoteLiteral pw' @ post)
    \<and> auditDetail (a @ k @ sp @ my_quoteLiteral pw @ post) = auditDetail (a @ k @ sp @ my_quoteLiteral pw' @ post)"
proof
  obtain b b' where "doubled b" "pg_QuoteLiteral pw = SQ # b @ [SQ]" "doubled b'" "pg_QuoteLiteral pw' = SQ # b' @ [SQ]"
    using pg_literal_body by blast
  then show "auditDetail (a @ k @ sp @ pg_QuoteLiteral pw @ post) = auditDetail (a @ k @ sp @ pg_QuoteLiteral pw' @ post)"
    using auditDetail_same [OF assms(1-5) _ _ assms(6,7), of b b'] by simp
  obtain c c' where "doubled c" "my_quoteLiteral pw = SQ # c @ [SQ]" "doubled c'" "my_quoteLiteral pw' = SQ # c' @ [SQ]"
    using my_literal_body by blast
  then show "auditDetail (a @ k @ sp @ my_quoteLiteral pw @ post) = auditDetail (a @ k @ sp @ my_quoteLiteral pw' @ post)"
    using auditDetail_same [OF assms(1-5) _ _ assms(6,7), of c c'] by simp
qed

theorem auditDetail_hides_password_witness:
  "pw_clean ''ALTER USER x '' \<and> \<not> word_at (rev ''ALTER USER x '') \<and> pw_word ''IDENTIFIED BY'' \<and> list_all re_space '' ''
   \<and> pw_clean '' ACCOUNT LOCK''
   \<and> auditDetail (''ALTER USER x '' @ ''IDENTIFIED BY'' @ '' '' @ pg_QuoteLiteral ''a'' @ '' ACCOUNT LOCK'')
     = auditDetail (''ALTER USER x '' @ ''IDENTIFIED BY'' @ '' '' @ pg_QuoteLiteral ''it'' @ '' ACCOUNT LOCK'')
   \<and> auditDetail (''ALTER USER x '' @ ''IDENTIFIED BY'' @ '' '' @ my_quoteLiteral ''a'' @ '' ACCOUNT LOCK'')
     = auditDetail (''ALTER USER x '' @ ''IDENTIFIED BY'' @ '' '' @ my_quoteLiteral ''it'' @ '' ACCOUNT LOCK'')"
proof -
  have 1: "pw_clean ''ALTER USER x ''" by code_simp
  have 2: "\<not> word_at (rev ''ALTER USER x '')" by code_simp
  have 3: "pw_word ''IDENTIFIED BY''" by code_simp
  have 4: "list_all re_space '' ''" by code_simp
  have 5: "pw_clean '' ACCOUNT LOCK''" by code_simp
  show ?thesis
    using auditDetail_hides_password [OF 1 2 3 _ 4 _ 5] 1 2 3 4 5 by simp
qed

text \<open>The statements of the Postgres engine.\<close>

lemma pw_clean_no_quote: "SQ \<notin> set s \<Longrightarrow> pw_clean s"
  unfolding pw_clean_iff by auto

lemma Join_append:
  "xs \<noteq> [] \<Longrightarrow> ys \<noteq> [] \<Longrightarrow> Join (xs @ ys) sep = Join xs sep @ sep @ Join ys sep"
proof (induction xs)
  case (Cons x xs)
  then show ?case by (cases "xs = []") (auto simp: Join_Cons)
qed simp

lemma role_password_last:
  assumes "ra_Password a \<noteq> []"
  shows "\<exists>flags. SQ \<notin> set flags \<and> (flags = [] \<or> last flags = CHR '' '')
     \<and> (\<forall>pw. pw \<noteq> [] \<longrightarrow> Join (roleOptions (a\<lparr>ra_Password := pw\<rparr>) e) '' '' = flags @ ''PASSWORD'' @ '' '' @ pg_QuoteLiteral pw)"
proof -
  define fs where "fs = filter (\<lambda>opt. opt \<noteq> [])
       [role_flag e (ra_Login a) ''LOGIN'' ''NOLOGIN'',
        role_flag e (ra_Super a) ''SUPERUSER'' ''NOSUPERUSER'',
        role_flag e (ra_CreateDB a) ''CREATEDB'' ''NOCREATEDB'',
        role_flag e (ra_CreateRole a) ''CREATEROLE'' ''NOCREATEROLE'']"
  have opts: "pw \<noteq> [] \<Longrightarrow> roleOptions (a\<lparr>ra_Password := pw\<rparr>) e = fs @ [''PASSWORD '' @ pg_QuoteLiteral pw]" for pw
    by (simp add: roleOptions_def fs_def)
  have noq: "\<forall>f\<in>set fs. SQ \<notin> set f"
    unfolding fs_def role_flag_def by simp
  have "SQ \<notin> set (Join fs '' '')"
    using noq
  proof (induction fs)
    case (Cons f fs)
    then show ?case by (cases "fs = []") (auto simp: Join_Cons)
  qed simp
  with opts show ?thesis
    by (cases "fs = []")
      (auto simp: Join_append intro!: exI [of _ "if fs = [] then [] else Join fs '' '' @ '' ''"])
qed

lemma audit_role_text:
  assumes "ra_Password a \<noteq> []" and "pw \<noteq> []" and "pw' \<noteq> []" and "SQ \<notin> set pre" and "pre \<noteq> []"
    and "last pre = CHR '' ''" and "SQ \<notin> set post"
  shows "auditDetail (pre @ Join (roleOptions (a\<lparr>ra_Password := pw\<rparr>) e) '' '' @ post)
     = auditDetail (pre @ Join (roleOptions (a\<lparr>ra_Password := pw'\<rparr>) e) '' '' @ post)"
proof -
  obtain flags where f: "SQ \<notin> set flags" "flags = [] \<or> last flags = CHR '' ''"
    "\<And>pw. pw \<noteq> [] \<Longrightarrow> Join (roleOptions (a\<lparr>ra_Password := pw\<rparr>) e) '' '' = flags @ ''PASSWORD'' @ '' '' @ pg_QuoteLiteral pw"
    using role_password_last [OF assms(1)] by blast
  obtain b where b: "doubled b" "pg_QuoteLiteral pw = SQ # b @ [SQ]" using pg_literal_body by blast
  obtain b' where b': "doubled b'" "pg_QuoteLiteral pw' = SQ # b' @ [SQ]" using pg_literal_body by blast
  have sp: "\<not> is_word CHR '' ''" by (simp add: is_word_code code_def)
  have last: "\<not> word_at (rev (pre @ flags))"
    using assms(5,6) f(2) sp by (cases flags rule: rev_cases; cases pre rule: rev_cases) auto
  have pw: "pw_word ''PASSWORD''" by code_simp
  have ws: "list_all re_space '' ''" by code_simp
  have hd: "post = [] \<or> hd post \<noteq> SQ" using assms(7) by (cases post) auto
  have cl: "pw_clean (pre @ flags)" "pw_clean post"
    using assms(4,7) f(1) by (auto intro: pw_clean_no_quote)
  from auditDetail_same [OF cl(1) last pw _ ws b(1) b'(1) hd cl(2)]
  show ?thesis using assms(2,3) by (simp add: f(3) b b')
qed

text \<open>
  The audit line of creating or altering a Postgres role does not depend on the new password,
  whatever the password is (quotes, keywords or \<^verbatim>\<open>***\<close> inside it included), for role names without a
  single quote. The lines are those of \<^verbatim>\<open>execScriptAudit\<close>: the statements joined by a semicolon.
\<close>

theorem role_password_not_audited:
  assumes "SQ \<notin> set name" and "SQ \<notin> set newName" and "ra_Password a \<noteq> []" and "pw' \<noteq> []"
  shows "auditDetail (CreateRoleSQL name a) = auditDetail (CreateRoleSQL name (a\<lparr>ra_Password := pw'\<rparr>))
    \<and> auditDetail (Join (AlterRoleSQL name newName a) ''; '')
      = auditDetail (Join (AlterRoleSQL name newName (a\<lparr>ra_Password := pw'\<rparr>)) ''; '')"
proof
  have ne: "pw \<noteq> [] \<Longrightarrow> roleOptions (a\<lparr>ra_Password := pw\<rparr>) e \<noteq> []" for pw e by (simp add: roleOptions_def)
  have a: "a = a\<lparr>ra_Password := ra_Password a\<rparr>" by simp
  have q: "SQ \<notin> set (pg_quoteIdent n)" if "SQ \<notin> set n" for n
    using that by (auto simp: pg_quoteIdent_def ReplaceAll_char)
  have cr: "pw \<noteq> [] \<Longrightarrow> CreateRoleSQL name (a\<lparr>ra_Password := pw\<rparr>) = (''CREATE ROLE '' @ pg_quoteIdent name @ '' WITH '')
      @ Join (roleOptions (a\<lparr>ra_Password := pw\<rparr>) False) '' '' @ []" for pw
    using ne by (simp add: CreateRoleSQL_def)
  show "auditDetail (CreateRoleSQL name a) = auditDetail (CreateRoleSQL name (a\<lparr>ra_Password := pw'\<rparr>))"
    using audit_role_text [OF assms(3) assms(3) assms(4), of "''CREATE ROLE '' @ pg_quoteIdent name @ '' WITH ''" "[]" False]
      cr [OF assms(3)] cr [OF assms(4)] q [OF assms(1)] by simp
  define post where "post = (if newName \<noteq> [] \<and> newName \<noteq> name
      then ''; ALTER ROLE '' @ pg_quoteIdent name @ '' RENAME TO '' @ pg_quoteIdent newName else [])"
  have al: "pw \<noteq> [] \<Longrightarrow> Join (AlterRoleSQL name newName (a\<lparr>ra_Password := pw\<rparr>)) ''; ''
      = (''ALTER ROLE '' @ pg_quoteIdent name @ '' WITH '') @ Join (roleOptions (a\<lparr>ra_Password := pw\<rparr>) True) '' '' @ post" for pw
    using ne by (simp add: AlterRoleSQL_def post_def Join_Cons)
  show "auditDetail (Join (AlterRoleSQL name newName a) ''; '')
      = auditDetail (Join (AlterRoleSQL name newName (a\<lparr>ra_Password := pw'\<rparr>)) ''; '')"
    using audit_role_text [OF assms(3) assms(3) assms(4), of "''ALTER ROLE '' @ pg_quoteIdent name @ '' WITH ''" post True]
      al [OF assms(3)] al [OF assms(4)] q [OF assms(1)] q [OF assms(2)] by (simp add: post_def)
qed

definition demo_role :: role_attrs where
  "demo_role = \<lparr>ra_Login = True, ra_Super = False, ra_CreateDB = False, ra_CreateRole = False,
     ra_Password = [CHR ''s'', SQ, CHR ''x''], ra_Host = []\<rparr>"

theorem role_password_not_audited_witness:
  "auditDetail (CreateRoleSQL ''bob'' demo_role) = auditDetail (CreateRoleSQL ''bob'' (demo_role\<lparr>ra_Password := ''***''\<rparr>))
   \<and> auditDetail (Join (AlterRoleSQL ''bob'' ''rob'' demo_role) ''; '')
     = auditDetail (Join (AlterRoleSQL ''bob'' ''rob'' (demo_role\<lparr>ra_Password := ''***''\<rparr>)) ''; '')"
  by (rule role_password_not_audited) (simp_all add: demo_role_def)

end
