(* ===== verification/Engines.thy ===== *)
theory Engines
  imports Postgres MySQL SQLite Store
begin

text \<open>
  The interface \<^verbatim>\<open>dbsql.Engine\<close> with its three implementations. Go dispatches through an interface value;
  here the engine is a datatype with one constructor per implementing package and each method is a
  function by cases. The properties of this theory hold of every engine: quoting, the objects that
  generated statements name, the transaction of \<^verbatim>\<open>ExecScript\<close>, the guard of a read-only \<^verbatim>\<open>Query\<close>, the row cap.
\<close>

section \<open>Dispatch\<close>

datatype engine = PostgresE | MySQLE | SQLiteE

fun eng_QuoteIdent :: "engine \<Rightarrow> string \<Rightarrow> string" where
  "eng_QuoteIdent PostgresE = pg_quoteIdent"
| "eng_QuoteIdent MySQLE = my_quoteIdent"
| "eng_QuoteIdent SQLiteE = lite_quoteIdent"

fun eng_QuoteLiteral :: "engine \<Rightarrow> string \<Rightarrow> string" where
  "eng_QuoteLiteral PostgresE = pg_QuoteLiteral"
| "eng_QuoteLiteral MySQLE = my_quoteLiteral"
| "eng_QuoteLiteral SQLiteE = lite_quoteLiteral"

fun eng_Qualified :: "engine \<Rightarrow> string \<Rightarrow> string \<Rightarrow> string" where
  "eng_Qualified PostgresE = pg_Qualified"
| "eng_Qualified MySQLE = my_qualified"
| "eng_Qualified SQLiteE = lite_qualified"

fun eng_IsServerSideExec :: "engine \<Rightarrow> string \<Rightarrow> bool" where
  "eng_IsServerSideExec PostgresE = pg_IsServerSideExec"
| "eng_IsServerSideExec MySQLE = my_IsServerSideExec"
| "eng_IsServerSideExec SQLiteE = lite_IsServerSideExec"

fun eng_DropTableSQL :: "engine \<Rightarrow> string \<Rightarrow> string \<Rightarrow> string" where
  "eng_DropTableSQL PostgresE = pg_DropTableSQL"
| "eng_DropTableSQL MySQLE = my_DropTableSQL"
| "eng_DropTableSQL SQLiteE = lite_DropTableSQL"

fun eng_TruncateSQL :: "engine \<Rightarrow> string \<Rightarrow> string \<Rightarrow> string" where
  "eng_TruncateSQL PostgresE = pg_TruncateSQL"
| "eng_TruncateSQL MySQLE = my_TruncateSQL"
| "eng_TruncateSQL SQLiteE = lite_TruncateSQL"

fun eng_DropColumnSQL :: "engine \<Rightarrow> string \<Rightarrow> string \<Rightarrow> string \<Rightarrow> string" where
  "eng_DropColumnSQL PostgresE = pg_DropColumnSQL"
| "eng_DropColumnSQL MySQLE = my_DropColumnSQL"
| "eng_DropColumnSQL SQLiteE = lite_DropColumnSQL"

fun eng_DropIndexSQL :: "engine \<Rightarrow> string \<Rightarrow> string \<Rightarrow> string \<Rightarrow> string" where
  "eng_DropIndexSQL PostgresE = pg_DropIndexSQL"
| "eng_DropIndexSQL MySQLE = my_DropIndexSQL"
| "eng_DropIndexSQL SQLiteE = lite_DropIndexSQL"

fun eng_DropSchemaSQL :: "engine \<Rightarrow> string \<Rightarrow> bool \<Rightarrow> string list" where
  "eng_DropSchemaSQL PostgresE name cascade = [pg_DropSchemaSQL name cascade]"
| "eng_DropSchemaSQL MySQLE name cascade = my_DropSchemaSQL name cascade"
| "eng_DropSchemaSQL SQLiteE name cascade = lite_DropSchemaSQL name cascade"

fun eng_AlterSchemaSQL :: "engine \<Rightarrow> string \<Rightarrow> string \<Rightarrow> string \<Rightarrow> string list" where
  "eng_AlterSchemaSQL PostgresE = pg_AlterSchemaSQL"
| "eng_AlterSchemaSQL MySQLE = my_AlterSchemaSQL"
| "eng_AlterSchemaSQL SQLiteE = lite_AlterSchemaSQL"

fun eng_AlterUserSQL :: "engine \<Rightarrow> string \<Rightarrow> string \<Rightarrow> role_attrs \<Rightarrow> string list" where
  "eng_AlterUserSQL PostgresE = AlterRoleSQL"
| "eng_AlterUserSQL MySQLE = my_AlterUserSQL"
| "eng_AlterUserSQL SQLiteE = lite_AlterUserSQL"

fun eng_DropUserSQL :: "engine \<Rightarrow> string \<Rightarrow> string \<Rightarrow> string list" where
  "eng_DropUserSQL PostgresE name host = [DropRoleSQL name]"
| "eng_DropUserSQL MySQLE name host = my_DropUserSQL name host"
| "eng_DropUserSQL SQLiteE name host = lite_DropUserSQL name host"

fun eng_FormSQL :: "engine \<Rightarrow> form_spec \<Rightarrow> (string list \<times> string) result" where
  "eng_FormSQL PostgresE = pg_FormSQL"
| "eng_FormSQL MySQLE = my_FormSQL"
| "eng_FormSQL SQLiteE = lite_FormSQL"

fun eng_Query :: "engine \<Rightarrow> sql_server \<Rightarrow> string \<Rightarrow> bool \<Rightarrow> string \<Rightarrow> db_result result \<times> sql_trace" where
  "eng_Query PostgresE = pg_Query"
| "eng_Query MySQLE = my_Query"
| "eng_Query SQLiteE = lite_Query"

fun eng_browse_sql :: "engine \<Rightarrow> string \<Rightarrow> string \<Rightarrow> string \<Rightarrow> string \<Rightarrow> int \<Rightarrow> int \<Rightarrow> string" where
  "eng_browse_sql PostgresE = pg_browse_sql"
| "eng_browse_sql MySQLE = my_browse_sql"
| "eng_browse_sql SQLiteE = lite_browse_sql"

fun eng_BrowseWhere ::
    "engine \<Rightarrow> sql_server \<Rightarrow> string \<Rightarrow> string \<Rightarrow> string \<Rightarrow> string \<Rightarrow> int \<Rightarrow> int \<Rightarrow> bool \<Rightarrow> db_result result \<times> sql_trace" where
  "eng_BrowseWhere PostgresE = pg_BrowseWhere"
| "eng_BrowseWhere MySQLE = my_BrowseWhere"
| "eng_BrowseWhere SQLiteE = lite_BrowseWhere"

fun eng_Exec :: "engine \<Rightarrow> sql_server \<Rightarrow> string \<Rightarrow> db_result result \<times> sql_trace" where
  "eng_Exec PostgresE = pg_Exec"
| "eng_Exec MySQLE = my_Exec"
| "eng_Exec SQLiteE = lite_Exec"

fun eng_ExecScript :: "engine \<Rightarrow> sql_server \<Rightarrow> string list \<Rightarrow> unit result \<times> sql_trace" where
  "eng_ExecScript PostgresE = pg_ExecScript"
| "eng_ExecScript MySQLE = my_ExecScript"
| "eng_ExecScript SQLiteE = lite_ExecScript"

text \<open>The choice of the engine by the family of the connection, as in \<^verbatim>\<open>Registry.Engine\<close>.\<close>

definition engine_of :: "connection \<Rightarrow> engine" where
  "engine_of c =
     (if Store.Engine c = FamilyMySQL then MySQLE
      else if Store.Engine c = FamilySQLite then SQLiteE
      else PostgresE)"

section \<open>Quoting\<close>

fun eng_iq :: "engine \<Rightarrow> char" where
  "eng_iq MySQLE = BQ"
| "eng_iq _ = DQ"

fun eng_read_ident :: "engine \<Rightarrow> string \<Rightarrow> (string \<times> string) option" where
  "eng_read_ident e s = read_quoted (eng_iq e) s"

fun eng_read_literal :: "engine \<Rightarrow> string \<Rightarrow> (string \<times> string) option" where
  "eng_read_literal MySQLE s = my_read_literal s"
| "eng_read_literal _ s = read_quoted SQ s"

fun eng_bare :: "engine \<Rightarrow> string \<Rightarrow> bool" where
  "eng_bare PostgresE s = False"
| "eng_bare MySQLE s = (s = [])"
| "eng_bare SQLiteE s = (s = [] \<or> s = mainSchema)"

lemma eng_dialect:
  "sql_dialect (eng_iq e) (eng_QuoteIdent e) (eng_read_ident e) SQ (eng_QuoteLiteral e) (eng_read_literal e)
     (eng_Qualified e) (eng_bare e)"
proof (cases e)
  case PostgresE
  have "eng_read_ident PostgresE = read_quoted DQ" "eng_read_literal PostgresE = read_quoted SQ"
    "eng_bare PostgresE = (\<lambda>_. False)" by (simp_all add: fun_eq_iff)
  then show ?thesis using pg.sql_dialect_axioms PostgresE by simp
next
  case MySQLE
  have "eng_read_ident MySQLE = read_quoted BQ" "eng_read_literal MySQLE = my_read_literal"
    "eng_bare MySQLE = (\<lambda>s. s = [])" by (simp_all add: fun_eq_iff)
  then show ?thesis using my.sql_dialect_axioms MySQLE by simp
next
  case SQLiteE
  have "eng_read_ident SQLiteE = read_quoted DQ" "eng_read_literal SQLiteE = read_quoted SQ"
    "eng_bare SQLiteE = (\<lambda>s. s = [] \<or> s = mainSchema)" by (simp_all add: fun_eq_iff)
  then show ?thesis using lite.sql_dialect_axioms SQLiteE by simp
qed

interpretation eng: sql_dialect "eng_iq e" "eng_QuoteIdent e" "eng_read_ident e" SQ "eng_QuoteLiteral e"
  "eng_read_literal e" "eng_Qualified e" "eng_bare e" for e
  by (rule eng_dialect)

text \<open>
  C15: quoting cannot be escaped, for every engine: whatever text is quoted as an identifier, a literal or a
  qualified name, the SQL reader takes back exactly that text and stops exactly at the end of the
  token, as long as the text that follows does not start with a quote or a dot.
\<close>

theorem quoting_is_injection_free:
  assumes "rest = [] \<or> hd rest \<notin> {DQ, BQ, SQ, CHR ''.''}"
  shows "eng_read_ident e (eng_QuoteIdent e s @ rest) = Some (s, rest)
    \<and> eng_read_literal e (eng_QuoteLiteral e s @ rest) = Some (s, rest)
    \<and> read_path (eng_read_ident e) (eng_Qualified e s t @ rest) = Some (if eng_bare e s then [t] else [s, t], rest)"
proof -
  have "rest = [] \<or> hd rest \<noteq> eng_iq e" using assms by (cases e) auto
  then show ?thesis
    using assms eng.ident.read_quote [of rest e s] eng.lit.read_quote [of rest e s] eng.read_Qualified [of rest e s t]
    by (simp only: insert_iff) blast
qed

theorem quoting_is_injection_free_witness:
  "eng_read_literal MySQLE (eng_QuoteLiteral MySQLE [BSL, SQ] @ '' OR 1=1'') = Some ([BSL, SQ], '' OR 1=1'')
   \<and> eng_read_ident PostgresE (eng_QuoteIdent PostgresE [DQ, CHR '';''] @ '' OR 1=1'') = Some ([DQ, CHR '';''], '' OR 1=1'')"
  using quoting_is_injection_free [of "'' OR 1=1''" MySQLE "[BSL, SQ]" "[]"]
    quoting_is_injection_free [of "'' OR 1=1''" PostgresE "[DQ, CHR '';'']" "[]"] by simp

section \<open>The objects that generated statements name\<close>

lemma eng_DropTableSQL_shape: "eng_DropTableSQL e s t = ''DROP TABLE '' @ eng_Qualified e s t"
  by (cases e) (simp_all add: pg_DropTableSQL_def my_DropTableSQL_def lite_DropTableSQL_def)

lemma eng_TruncateSQL_shape:
  "eng_TruncateSQL e s t = (if e = SQLiteE then ''DELETE FROM '' else ''TRUNCATE TABLE '') @ eng_Qualified e s t"
  by (cases e) (simp_all add: pg_TruncateSQL_def my_TruncateSQL_def lite_TruncateSQL_def)

lemma eng_DropColumnSQL_shape:
  "eng_DropColumnSQL e s t c = ''ALTER TABLE '' @ eng_Qualified e s t @ '' DROP COLUMN '' @ eng_QuoteIdent e c"
  by (cases e) (simp_all add: pg_DropColumnSQL_def my_DropColumnSQL_def lite_DropColumnSQL_def)

text \<open>
  The destructive statements that the handlers generate name exactly the object of the request, in
  every engine and for arbitrary names: after the fixed words, the reader finds the schema and the
  table (and then the column) and nothing else.
\<close>

theorem generated_ddl_names_its_object:
  "(\<exists>q. eng_DropTableSQL e s t = ''DROP TABLE '' @ q
       \<and> read_path (eng_read_ident e) q = Some (if eng_bare e s then [t] else [s, t], []))
   \<and> (\<exists>q. eng_TruncateSQL e s t = (if e = SQLiteE then ''DELETE FROM '' else ''TRUNCATE TABLE '') @ q
       \<and> read_path (eng_read_ident e) q = Some (if eng_bare e s then [t] else [s, t], []))
   \<and> (\<exists>q q'. eng_DropColumnSQL e s t c = ''ALTER TABLE '' @ q
       \<and> read_path (eng_read_ident e) q = Some (if eng_bare e s then [t] else [s, t], '' DROP COLUMN '' @ q')
       \<and> eng_read_ident e q' = Some (c, []))"
proof (intro conjI)
  have q: "read_path (eng_read_ident e) (eng_Qualified e s t) = Some (if eng_bare e s then [t] else [s, t], [])"
    using eng.read_Qualified [of "[]" e s t] by simp
  show "\<exists>q. eng_DropTableSQL e s t = ''DROP TABLE '' @ q
       \<and> read_path (eng_read_ident e) q = Some (if eng_bare e s then [t] else [s, t], [])"
    using q eng_DropTableSQL_shape by blast
  show "\<exists>q. eng_TruncateSQL e s t = (if e = SQLiteE then ''DELETE FROM '' else ''TRUNCATE TABLE '') @ q
       \<and> read_path (eng_read_ident e) q = Some (if eng_bare e s then [t] else [s, t], [])"
    using q eng_TruncateSQL_shape by blast
  have "CHR '' '' \<noteq> eng_iq e" by (cases e) auto
  then have "read_path (eng_read_ident e) (eng_Qualified e s t @ '' DROP COLUMN '' @ eng_QuoteIdent e c)
      = Some (if eng_bare e s then [t] else [s, t], '' DROP COLUMN '' @ eng_QuoteIdent e c)"
    using eng.read_Qualified [of "'' DROP COLUMN '' @ eng_QuoteIdent e c" e s t] by simp
  then show "\<exists>q q'. eng_DropColumnSQL e s t c = ''ALTER TABLE '' @ q
       \<and> read_path (eng_read_ident e) q = Some (if eng_bare e s then [t] else [s, t], '' DROP COLUMN '' @ q')
       \<and> eng_read_ident e q' = Some (c, [])"
    using eng_DropColumnSQL_shape eng.ident.read_quote_end [of e c] by blast
qed

section \<open>Scripts\<close>

definition script_settings :: "engine \<Rightarrow> string list" where
  "script_settings e =
     (if e = PostgresE then [''SET TRANSACTION READ WRITE'', ''SET statement_timeout = '' @ [SQ] @ ''30s'' @ [SQ]] else [])"

lemma eng_ExecScript_shape: "eng_ExecScript e srv stmts = exec_script (script_settings e) srv stmts"
  by (cases e) (simp_all add: pg_ExecScript_def my_ExecScript_def lite_ExecScript_def script_settings_def)

text \<open>
  C21: a script runs as one transaction, in every engine and against every server. It reports success
  exactly when the server accepted the begin, the engine's settings, every non-blank statement and the
  commit, in this order, and then it sent nothing else. Otherwise the first refused command is the last
  one sent, followed by a rollback (none is needed if the begin or the commit itself was refused), so
  that a commit is only ever sent after every statement was accepted; and the error is the server's,
  with the statement in front if a statement of the script was refused.
\<close>

theorem ExecScript_all_or_rollback:
  "eng_ExecScript e srv stmts =
     (let cmds = BeginTx False # map SExec (script_settings e @ script_stmts stmts) @ [Commit]
      in case first_refused srv [] cmds of
           None \<Rightarrow> (Inr (), cmds)
         | Some (k, err) \<Rightarrow>
             (Inl (script_error (script_settings e) stmts k err),
              take (Suc k) cmds @ (if k = 0 \<or> Suc k = length cmds then [] else [Rollback])))"
  unfolding eng_ExecScript_shape exec_script_exact script_cmds_def Let_def ..

section \<open>Read-only statements\<close>

fun ro_guard :: "engine \<Rightarrow> sql_cmd" where
  "ro_guard PostgresE = SExec ''SET default_transaction_read_only = on''"
| "ro_guard MySQLE = BeginTx True"
| "ro_guard SQLiteE = SExec ''PRAGMA query_only=ON''"

fun ro_before :: "engine \<Rightarrow> string \<Rightarrow> sql_trace" where
  "ro_before PostgresE schema = Acquire # map SExec (take 2 (pg_settings True schema))"
| "ro_before MySQLE schema = []"
| "ro_before SQLiteE schema = [Acquire]"

fun ro_after :: "engine \<Rightarrow> sql_trace" where
  "ro_after PostgresE = [Release]"
| "ro_after MySQLE = [Rollback]"
| "ro_after SQLiteE = [SExec ''PRAGMA query_only=OFF'', Release]"

fun ro_stmt :: "engine \<Rightarrow> string \<Rightarrow> sql_cmd" where
  "ro_stmt PostgresE sql = SQuery sql"
| "ro_stmt MySQLE sql = (if my_returnsRows sql then SQuery (my_withMaxExecHint sql) else SExec sql)"
| "ro_stmt SQLiteE sql = (if lite_returnsRows sql then SQuery sql else SExec sql)"

text \<open>The commands of the guard alone.\<close>

definition ro_overhead :: "engine \<Rightarrow> string \<Rightarrow> sql_cmd set" where
  "ro_overhead e schema = set (ro_before e schema @ [ro_guard e] @ ro_after e)"

lemma pg_settings_ro: "pg_settings True schema = take 2 (pg_settings True schema) @ [''SET default_transaction_read_only = on'']"
  by (simp add: pg_settings_def)

lemma eng_Query_guarded:
  "snd (eng_Query e srv sql True schema) = ro_before e schema @ [ro_guard e, ro_stmt e sql] @ ro_after e
   \<or> set (snd (eng_Query e srv sql True schema)) \<subseteq> ro_overhead e schema"
proof (cases e)
  case PostgresE
  have set: "pg_settings True schema = [a, b, ''SET default_transaction_read_only = on''] \<Longrightarrow>
    set (map SExec (take k (pg_settings True schema))) \<subseteq> ro_overhead PostgresE schema" for a b k
    using set_take_subset [of k "pg_settings True schema"] by (auto simp: ro_overhead_def)
  from pg_Query_trace [OF refl, of srv sql True schema] show ?thesis
  proof (elim disjE conjE exE)
    fix k
    assume "snd (pg_Query srv sql True schema) = Acquire # map SExec (take k (pg_settings True schema)) @ [Release]"
    then show ?thesis using PostgresE set [of _ _ k] by (simp add: pg_settings_def ro_overhead_def)
  qed (simp_all add: PostgresE ro_overhead_def pg_settings_def)
next
  case MySQLE
  then show ?thesis by (simp add: my_Query_trace Let_def ro_overhead_def)
next
  case SQLiteE
  then show ?thesis by (simp add: lite_Query_trace Let_def ro_overhead_def)
qed

lemma eng_BrowseWhere_query:
  "eng_BrowseWhere e srv schema table whr order limit offset ro
     = eng_Query e srv (eng_browse_sql e schema table whr order limit offset) ro []"
  by (cases e) (simp_all add: pg_BrowseWhere_def my_BrowseWhere_def lite_BrowseWhere_def)

text \<open>
  C31: a read-only \<^verbatim>\<open>Query\<close> sends the user's statement exactly when the server accepted the settings and the
  engine's read-only guard (a read-only transaction, the read-only session default, or the query-only
  pragma), once, directly after the guard on the same connection, and ends by rolling back, releasing
  the connection or resetting the pragma. If one of them is refused, the query fails, the statement is
  not sent, and the connection is cleaned up all the same. This holds against every server.
\<close>

theorem read_only_query_is_guarded:
  "let guard = ro_before e schema @ [ro_guard e];
       (r, tr) = eng_Query e srv sql True schema
   in case first_refused srv [] guard of
        None \<Rightarrow> tr = guard @ [ro_stmt e sql] @ ro_after e
      | Some (k, err) \<Rightarrow> r = Inl (de_message err) \<and> tr = take (Suc k) guard @ (if k = 0 then [] else ro_after e)"
proof (cases e)
  case PostgresE
  show ?thesis
  proof (cases "refused (srv [] Acquire)")
    case True
    then show ?thesis using PostgresE by (auto simp: pg_Query_def elim!: refusedE)
  next
    case acq: False
    have guard: "ro_before e schema @ [ro_guard e] = Acquire # map SExec (pg_settings True schema)"
      using PostgresE by (simp add: pg_settings_def)
    have run: "pg_run srv tr sql True = (fst (pg_run srv tr sql True), tr @ [SQuery sql])" for tr
      using pg_run_trace [of srv tr sql True] by (simp add: prod_eq_iff)
    show ?thesis
    proof (cases "first_refused srv [Acquire] (map SExec (pg_settings True schema))")
      case None
      let ?tr = "Acquire # map SExec (pg_settings True schema)"
      have "eng_Query e srv sql True schema = (fst (pg_run srv ?tr sql True), ?tr @ [SQuery sql, Release])"
        using None acq PostgresE run [of ?tr]
        by (cases "pg_run srv ?tr sql True") (simp add: pg_Query_def exec_all_exact case_refused)
      then show ?thesis unfolding guard using None acq PostgresE by (simp add: case_refused)
    next
      case (Some x)
      with acq PostgresE show ?thesis unfolding guard
        by (cases x) (simp add: pg_Query_def exec_all_exact case_refused Let_def take_map)
    qed
  qed
next
  case MySQLE
  then show ?thesis
    using my_Query_trace [of srv sql True schema]
    by (cases "refused (srv [] (BeginTx True))")
       (auto simp: my_Query_def case_refused Let_def elim!: refusedE split: prod.splits)
next
  case SQLiteE
  then show ?thesis
    using lite_Query_trace [of srv sql True schema]
    by (cases "refused (srv [] Acquire)"; cases "refused (srv [Acquire] (SExec ''PRAGMA query_only=ON''))")
       (auto simp: lite_Query_def case_refused Let_def elim!: refusedE split: prod.splits)
qed

section \<open>The row cap\<close>

lemma simple_result_bound: "length (r_Rows (simple_result x)) \<le> 1000"
  by (cases x) (simp add: simple_result_def empty_result_def)

lemma empty_result_rows [simp]: "r_Rows empty_result = []"
  by (simp add: empty_result_def)

lemma pg_result_bound: "pg_result fds rows final tag affected = Inr r \<Longrightarrow> length (r_Rows r) \<le> 1000"
  by (auto simp: pg_result_def split: sum.splits option.splits if_splits dest: rows_result_bound)

lemma querySimple_bound: "fst (querySimple srv tr sql) = Inr r \<Longrightarrow> length (r_Rows r) \<le> 1000"
  by (auto simp: querySimple_def simple_result_bound split: sql_answer.splits option.splits if_splits)

lemma pg_run_bound: "fst (pg_run srv tr sql ro) = Inr r \<Longrightarrow> length (r_Rows r) \<le> 1000"
  by (auto simp: pg_run_def split: sql_answer.splits if_splits dest: pg_result_bound querySimple_bound)

lemma my_runStatement_bound: "fst (my_runStatement srv tr sql) = Inr r \<Longrightarrow> length (r_Rows r) \<le> 1000"
  by (auto simp: my_runStatement_def split: sql_answer.splits sum.splits if_splits dest: rows_result_bound)

lemma lite_runStatement_bound: "fst (lite_runStatement srv tr sql) = Inr r \<Longrightarrow> length (r_Rows r) \<le> 1000"
  by (auto simp: lite_runStatement_def split: sql_answer.splits sum.splits if_splits dest: rows_result_bound)

text \<open>
  C32: no query, in any engine, in either mode and against every server, returns more than 1000 rows.
\<close>

theorem query_rows_capped:
  "case fst (eng_Query e srv sql readOnly schema) of Inl _ \<Rightarrow> True | Inr r \<Rightarrow> length (r_Rows r) \<le> 1000"
proof -
  have "length (r_Rows r) \<le> 1000" if "fst (eng_Query e srv sql readOnly schema) = Inr r" for r
    using that
  proof (cases e)
    case PostgresE
    then show ?thesis using that
      by (auto simp: pg_Query_def split: sql_answer.splits prod.splits option.splits
          dest!: arg_cong [of _ _ fst] dest: pg_run_bound)
  next
    case MySQLE
    then show ?thesis using that
      by (auto simp: my_Query_def split: sql_answer.splits prod.splits if_splits
          dest!: arg_cong [of _ _ fst] dest: my_runStatement_bound)
  next
    case SQLiteE
    then show ?thesis using that
      by (auto simp: lite_Query_def split: sql_answer.splits prod.splits if_splits
          dest!: arg_cong [of _ _ fst] dest: lite_runStatement_bound)
  qed
  then show ?thesis by (simp split: sum.split)
qed

section \<open>Introspection\<close>

text \<open>
  The explorer tree built from the catalogue rows has every schema exactly once, no other schema,
  and under each schema exactly the relations of its rows in their order; a schema whose only row has
  no relation is listed empty.
\<close>

theorem pg_Schemas_groups_rows:
  "case pg_Schemas (Inr (map Inr rows, None)) of
     Inl _ \<Rightarrow> False
   | Inr ss \<Rightarrow> distinct (map s_Name ss) \<and> s_Name ` set ss = fst ` set rows
       \<and> list_all (\<lambda>s. map t_Name (s_Tables s) =
            concat (map (\<lambda>(n, rel, _). if n = s_Name s then (case rel of None \<Rightarrow> [] | Some r \<Rightarrow> [r]) else []) rows)) ss"
proof -
  define krows where "krows = map pg_kind_row rows"
  have eq: "pg_Schemas (Inr (map Inr rows, None)) = Inr (group_schemas krows)"
    by (simp add: pg_Schemas_def krows_def)
  have names: "map t_Name (rows_of n krows)
      = concat (map (\<lambda>(m, rel, _). if m = n then (case rel of None \<Rightarrow> [] | Some r \<Rightarrow> [r]) else []) rows)" for n
    unfolding krows_def
    by (induction rows) (auto simp: rows_of_def pg_kind_row_def split: prod.splits option.splits)
  have "fst ` set krows = fst ` set rows"
    by (auto simp: krows_def pg_kind_row_def image_image split_beta)
  then show ?thesis
    using group_schemas_invariant [of krows] by (simp add: eq names list_all_iff)
qed

text \<open>
  The foreign keys that SQLite reports column by column are put together without loss: one group
  per key, and the columns and the referenced columns of a group are those of its rows, in order.
\<close>

theorem lite_foreign_keys_complete:
  assumes "\<forall>r\<in>set rows. fst (snd (snd r)) \<noteq> [] \<and> snd (snd (snd r)) \<noteq> []"
  shows "distinct (map fst (group_fks rows)) \<and> fst ` set (group_fks rows) = fst ` set rows \<and>
    (\<forall>(k, a, cols, refs)\<in>set (group_fks rows).
       cols = Join (map (\<lambda>r. fst (snd (snd r))) (fk_rows_of k rows)) '', '' \<and>
       refs = Join (map (\<lambda>r. snd (snd (snd r))) (fk_rows_of k rows)) '', '')"
  by (rule group_fks_invariant [OF assms])

theorem lite_foreign_keys_complete_witness:
  "distinct (map fst (group_fks [(0::int, ''p'', ''a'', ''x''), (1, ''q'', ''c'', ''z''), (0, ''p'', ''b'', ''y'')]))
   \<and> group_fks [(0::int, ''p'', ''a'', ''x''), (1, ''q'', ''c'', ''z''), (0, ''p'', ''b'', ''y'')]
     = [(0, ''p'', ''a, b'', ''x, y''), (1, ''q'', ''c'', ''z'')]"
  using lite_foreign_keys_complete [of "[(0::int, ''p'', ''a'', ''x''), (1, ''q'', ''c'', ''z''), (0, ''p'', ''b'', ''y'')]"]
  by (simp add: group_fks_def appendCol_def)

section \<open>The execution-time hint of MySQL\<close>

text \<open>
  For a statement that begins with \<^verbatim>\<open>SELECT\<close> the hint of the execution limit is put right after
  that word and the rest of the statement is kept byte for byte; a statement that begins with a
  parenthesis before \<^verbatim>\<open>SELECT\<close> is cut at the wrong place and becomes different text.
\<close>

theorem my_withMaxExecHint_placement:
  assumes "ToUpper w = ''SELECT''" and "t = [] \<or> my_word_end (hd t)"
  shows "my_withMaxExecHint (w @ t) = ''SELECT /*+ MAX_EXECUTION_TIME(30000) */ '' @ t
    \<and> my_withMaxExecHint (''(SELECT 1)'') = ''SELECT /*+ MAX_EXECUTION_TIME(30000) */ T 1)''"
proof
  show "my_withMaxExecHint (w @ t) = ''SELECT /*+ MAX_EXECUTION_TIME(30000) */ '' @ t"
    by (rule my_withMaxExecHint_select [OF assms])
  have "my_firstWord (TrimLeft ''(SELECT 1)'' ('' '' @ [TAB, CR, NL])) = ''SELECT''" by code_simp
  moreover have "drop (length ''SELECT'') (TrimLeft ''(SELECT 1)'' ('' '' @ [TAB, CR, NL])) = ''T 1)''" by code_simp
  moreover have "Itoa 30000 = ''30000''" by (simp add: Itoa_def nat_digits.simps digit_chars)
  ultimately show "my_withMaxExecHint (''(SELECT 1)'') = ''SELECT /*+ MAX_EXECUTION_TIME(30000) */ T 1)''"
    unfolding my_withMaxExecHint_def Let_def by (simp only:) simp
qed

theorem my_withMaxExecHint_placement_witness:
  "my_withMaxExecHint (''select'' @ '' 1'') = ''SELECT /*+ MAX_EXECUTION_TIME(30000) */ '' @ '' 1''"
proof -
  have 1: "ToUpper ''select'' = ''SELECT''" by code_simp
  have 2: "'' 1'' = [] \<or> my_word_end (hd '' 1'')" by code_simp
  show ?thesis using my_withMaxExecHint_placement [OF 1 2] by (rule conjunct1)
qed

end
