(* ===== verification/Filepath.thy ===== *)
theory Filepath
  imports Prelude
begin

text \<open>
  The part of \<^verbatim>\<open>path/filepath\<close> (Unix) that \<^verbatim>\<open>store.ResolveSQLitePath\<close> uses, on absolute cleaned paths,
  which are lists of their components: \<^verbatim>\<open>Clean\<close>, \<^verbatim>\<open>Abs\<close>, \<^verbatim>\<open>Dir\<close>, \<^verbatim>\<open>Base\<close>, \<^verbatim>\<open>Join\<close> and \<^verbatim>\<open>Rel\<close>, and
  \<^verbatim>\<open>ResolveSQLitePath\<close> itself with its helper. The working directory (\<^verbatim>\<open>os.Getwd\<close>, which may fail) and
  \<^verbatim>\<open>EvalSymlinks\<close> are parameters: they depend on the process and the file system.
\<close>

type_synonym path = "string list"

fun clean_into :: "string list \<Rightarrow> string list \<Rightarrow> string list" where
  "clean_into out [] = rev out"
| "clean_into out (c # cs) =
     (if c = [] \<or> c = ''.'' then clean_into out cs
      else if c = ''..'' then clean_into (tl out) cs
      else clean_into (c # out) cs)"

text \<open>The components of the cleaned path of a rooted path.\<close>

definition clean_abs :: "string \<Rightarrow> path" where
  "clean_abs s = clean_into [] (Split s CHR ''/'')"

definition show_path :: "path \<Rightarrow> string" where
  "show_path p = ''/'' @ Join p ''/''"

definition filepath_Abs :: "path result \<Rightarrow> string \<Rightarrow> path result" where
  "filepath_Abs cwd s =
     (if s \<noteq> [] \<and> hd s = CHR ''/'' then Inr (clean_abs s)
      else case cwd of Inl e \<Rightarrow> Inl e | Inr wd \<Rightarrow> Inr (clean_abs (show_path wd @ ''/'' @ s)))"

fun common_prefix :: "path \<Rightarrow> path \<Rightarrow> path \<times> path" where
  "common_prefix (a # as) (b # bs) = (if a = b then common_prefix as bs else (a # as, b # bs))"
| "common_prefix as bs = (as, bs)"

text \<open>\<^verbatim>\<open>Rel\<close> of two rooted paths: up from what is left of the base, then down. Empty is \<^verbatim>\<open>"."\<close>.\<close>

definition filepath_Rel :: "path \<Rightarrow> path \<Rightarrow> path" where
  "filepath_Rel base targ =
     (case common_prefix base targ of (b, t) \<Rightarrow> replicate (length b) ''..'' @ t)"

text \<open>
  \<^verbatim>\<open>resolveExistingPrefix\<close>: \<open>cur\<close> shrinks by one component per round; \<open>rest\<close> holds what was cut off.
\<close>

function resolve_loop :: "(path \<Rightarrow> path result) \<Rightarrow> path \<Rightarrow> path \<Rightarrow> path \<Rightarrow> path" where
  "resolve_loop EvalSymlinks p cur rest =
     (case EvalSymlinks cur of
        Inr r \<Rightarrow> r @ rest
      | Inl e \<Rightarrow> (if cur = [] then p else resolve_loop EvalSymlinks p (butlast cur) (last cur # rest)))"
  by pat_completeness auto
termination by (relation "measure (\<lambda>(_, _, cur, _). length cur)") auto

declare resolve_loop.simps [simp del]

definition resolveExistingPrefix :: "(path \<Rightarrow> path result) \<Rightarrow> path \<Rightarrow> path" where
  "resolveExistingPrefix EvalSymlinks p = resolve_loop EvalSymlinks p p []"

text \<open>The same loop with a bound on its rounds; \<open>None\<close> says that the bound was too small.\<close>

fun resolve_rounds :: "nat \<Rightarrow> (path \<Rightarrow> path result) \<Rightarrow> path \<Rightarrow> path \<Rightarrow> path \<Rightarrow> path option" where
  "resolve_rounds 0 EvalSymlinks p cur rest = None"
| "resolve_rounds (Suc n) EvalSymlinks p cur rest =
     (case EvalSymlinks cur of
        Inr r \<Rightarrow> Some (r @ rest)
      | Inl e \<Rightarrow> (if cur = [] then Some p else resolve_rounds n EvalSymlinks p (butlast cur) (last cur # rest)))"

definition ResolveSQLitePath ::
    "path result \<Rightarrow> (path \<Rightarrow> path result) \<Rightarrow> string \<Rightarrow> string \<Rightarrow> path result" where
  "ResolveSQLitePath cwd EvalSymlinks allowDir p =
     (if TrimSpace allowDir = [] then
        Inl ''sqlite connections are disabled: set DBM_SQLITE_DIR to a directory of allowed database files''
      else if TrimSpace p = [] then Inl ''sqlite file path is required''
      else
        (case filepath_Abs cwd allowDir of
           Inl e \<Rightarrow> Inl e
         | Inr root \<Rightarrow>
           (case EvalSymlinks root of
              Inl e \<Rightarrow> Inl (''DBM_SQLITE_DIR '' @ quoted_go allowDir @ '' is not accessible: '' @ e)
            | Inr root \<Rightarrow>
              (case filepath_Abs cwd p of
                 Inl e \<Rightarrow> Inl e
               | Inr ap \<Rightarrow>
                 (let ap = clean_abs (show_path (resolveExistingPrefix EvalSymlinks ap));
                      rel = filepath_Rel root ap
                  in if rel = [] \<or> rel = [''..''] \<or> hd rel = ''..''
                     then Inl (''sqlite path '' @ quoted_go p @ '' is outside the allowed directory (DBM_SQLITE_DIR)'')
                     else Inr ap)))))"

section \<open>Lemmas\<close>

definition plain_comp :: "string \<Rightarrow> bool" where
  "plain_comp c \<longleftrightarrow> c \<noteq> [] \<and> c \<noteq> ''.'' \<and> c \<noteq> ''..'' \<and> CHR ''/'' \<notin> set c"

lemma clean_into_plain:
  "(\<forall>c\<in>set out. plain_comp c) \<Longrightarrow> (\<forall>c\<in>set cs. CHR ''/'' \<notin> set c) \<Longrightarrow>
     \<forall>c\<in>set (clean_into out cs). plain_comp c"
proof (induction out cs rule: clean_into.induct)
  case (2 out c cs)
  have tl: "\<forall>c\<in>set (tl out). plain_comp c" using "2.prems"(1) by (cases out) simp_all
  have cs: "\<forall>c\<in>set cs. CHR ''/'' \<notin> set c" using "2.prems"(2) by simp
  consider "c = [] \<or> c = ''.''" | "\<not> (c = [] \<or> c = ''.'')" "c = ''..''" | "\<not> (c = [] \<or> c = ''.'')" "c \<noteq> ''..''"
    by blast
  then show ?case
  proof cases
    case 1
    with "2.IH"(1) [OF 1 "2.prems"(1) cs] show ?thesis by (simp only: clean_into.simps if_True)
  next
    case c: 2
    from "2.IH"(2) [OF c tl cs] c(2) show ?thesis by simp
  next
    case c: 3
    have "plain_comp c" using c "2.prems"(2) by (simp add: plain_comp_def)
    then have "\<forall>c\<in>set (c # out). plain_comp c" using "2.prems"(1) by simp
    from "2.IH"(3) [OF c this cs] c show ?thesis by (simp only: clean_into.simps if_True if_False)
  qed
qed auto

lemma clean_abs_plain: "c \<in> set (clean_abs s) \<Longrightarrow> plain_comp c"
  using clean_into_plain [of "[]" "Split s CHR ''/''"] Split_no_sep by (auto simp: clean_abs_def)

lemma common_prefix_split:
  "common_prefix as bs = (a, b) \<Longrightarrow> \<exists>p. as = p @ a \<and> bs = p @ b"
proof (induction as bs arbitrary: a b rule: common_prefix.induct)
  case (1 x as y bs)
  show ?case
  proof (cases "x = y")
    case True
    with 1 obtain p where "as = p @ a" "bs = p @ b" by auto
    then show ?thesis using True by (intro exI [of _ "x # p"]) simp
  next
    case False
    with 1 show ?thesis by simp
  qed
qed simp_all

lemma filepath_Rel_inside:
  assumes "filepath_Rel root apath \<noteq> []" and "hd (filepath_Rel root apath) \<noteq> ''..''"
  shows "strict_prefix root apath"
proof -
  obtain b t where bt: "common_prefix root apath = (b, t)" by force
  then have rel: "filepath_Rel root apath = replicate (length b) ''..'' @ t" by (simp add: filepath_Rel_def)
  have "b = []" using assms(2) rel by (cases b) auto
  moreover obtain p where "root = p @ b" "apath = p @ t" using common_prefix_split [OF bt] by blast
  ultimately show ?thesis using assms(1) rel by (auto simp: strict_prefix_def prefix_def)
qed

lemma resolve_loop_exists:
  assumes "EvalSymlinks [] = Inr rt" and "p = cur @ rest"
  shows "\<exists>anc r down. p = anc @ down \<and> EvalSymlinks anc = Inr r \<and> resolve_loop EvalSymlinks p cur rest = r @ down
     \<and> (\<forall>longer. prefix longer cur \<and> length anc < length longer \<longrightarrow> isl (EvalSymlinks longer))"
  using assms(2)
proof (induction "length cur" arbitrary: cur rest)
  case 0
  then have "EvalSymlinks cur = Inr rt" using assms(1) by simp
  with 0 show ?case by - (rule exI [of _ cur], rule exI [of _ rt], rule exI [of _ rest], simp add: resolve_loop.simps)
next
  case (Suc n)
  show ?case
  proof (cases "EvalSymlinks cur")
    case (Inr r)
    have "\<forall>longer. \<not> (prefix longer cur \<and> length cur < length longer)"
      by (auto dest: prefix_length_le)
    then show ?thesis using Inr Suc.prems
      by - (rule exI [of _ cur], rule exI [of _ r], rule exI [of _ rest], auto simp: resolve_loop.simps)
  next
    case (Inl e)
    have "cur \<noteq> []" using Suc.hyps(2) by auto
    then have cur: "cur \<noteq> []" "cur = butlast cur @ [last cur]" by simp_all
    have "n = length (butlast cur)" using Suc.hyps(2) by simp
    moreover have "p = butlast cur @ last cur # rest" using Suc.prems cur by simp
    ultimately obtain anc r down where ih: "p = anc @ down" "EvalSymlinks anc = Inr r"
      "resolve_loop EvalSymlinks p (butlast cur) (last cur # rest) = r @ down"
      "\<forall>longer. prefix longer (butlast cur) \<and> length anc < length longer \<longrightarrow> isl (EvalSymlinks longer)"
      using Suc.hyps(1) by blast
    have "isl (EvalSymlinks longer)" if "prefix longer cur" "length anc < length longer" for longer
    proof (cases "longer = cur")
      case False
      with that(1) cur have "prefix longer (butlast cur)" by (metis prefix_snoc)
      with ih(4) that(2) show ?thesis by blast
    qed (simp add: Inl)
    with ih Inl cur show ?thesis
      by - (rule exI [of _ anc], rule exI [of _ r], rule exI [of _ down], simp add: resolve_loop.simps)
  qed
qed

lemma Split_Join: "q \<noteq> [] \<Longrightarrow> (\<And>c. c \<in> set q \<Longrightarrow> sep \<notin> set c) \<Longrightarrow> Split (Join q [sep]) sep = q"
proof (induction q)
  case (Cons c q)
  then show ?case by (cases "q = []") (simp_all add: Split_single Split_append Join_Cons)
qed simp

lemma clean_into_id: "\<forall>c\<in>set cs. plain_comp c \<Longrightarrow> clean_into out cs = rev out @ cs"
  by (induction cs arbitrary: out) (auto simp: plain_comp_def)

lemma clean_show_path: "\<forall>c\<in>set q. plain_comp c \<Longrightarrow> clean_abs (show_path q) = q"
proof (cases "q = []")
  case False
  assume q: "\<forall>c\<in>set q. plain_comp c"
  then have "Split (Join q ''/'') CHR ''/'' = q"
    using False by (intro Split_Join) (auto simp: plain_comp_def)
  then show ?thesis using q by (simp add: clean_abs_def show_path_def clean_into_id)
qed (simp add: clean_abs_def show_path_def)

lemma filepath_Abs_plain: "filepath_Abs cwd s = Inr q \<Longrightarrow> c \<in> set q \<Longrightarrow> plain_comp c"
  by (auto simp: filepath_Abs_def clean_abs_plain split: if_splits sum.splits)

section \<open>Properties\<close>

text \<open>What the file system promises of \<^verbatim>\<open>EvalSymlinks\<close>: the root directory exists; a result is a cleaned
  path without symbolic links, so that it and every directory on it resolve to themselves; and the
  resolution goes component by component, so that below a path it finds what it finds below the
  resolved form of that path.\<close>

definition file_system :: "(path \<Rightarrow> path result) \<Rightarrow> bool" where
  "file_system EvalSymlinks \<longleftrightarrow>
     EvalSymlinks [] = Inr [] \<and>
     (\<forall>q r. EvalSymlinks q = Inr r \<longrightarrow>
        list_all plain_comp r \<and> (\<forall>d. prefix d r \<longrightarrow> EvalSymlinks d = Inr d) \<and>
        (\<forall>below. EvalSymlinks (q @ below) = EvalSymlinks (r @ below)))"

lemma ResolveSQLitePath_accepts:
  assumes "ResolveSQLitePath cwd EvalSymlinks allowDir p = Inr apath"
  shows "TrimSpace allowDir \<noteq> []" and "TrimSpace p \<noteq> []"
    and "\<exists>dir root ap. filepath_Abs cwd allowDir = Inr dir \<and> EvalSymlinks dir = Inr root \<and> strict_prefix root apath \<and>
      filepath_Abs cwd p = Inr ap \<and> apath = clean_abs (show_path (resolveExistingPrefix EvalSymlinks ap))"
proof -
  show ne: "TrimSpace allowDir \<noteq> []" "TrimSpace p \<noteq> []"
    using assms unfolding ResolveSQLitePath_def by (simp_all split: if_split_asm)
  then obtain dir where dir: "filepath_Abs cwd allowDir = Inr dir"
    using assms unfolding ResolveSQLitePath_def by (cases "filepath_Abs cwd allowDir") simp_all
  with assms ne obtain root where root: "EvalSymlinks dir = Inr root"
    unfolding ResolveSQLitePath_def by (cases "EvalSymlinks dir") simp_all
  with assms ne dir obtain ap where ap: "filepath_Abs cwd p = Inr ap"
    unfolding ResolveSQLitePath_def by (cases "filepath_Abs cwd p") simp_all
  define a where "a = clean_abs (show_path (resolveExistingPrefix EvalSymlinks ap))"
  have rel: "filepath_Rel root apath \<noteq> []" "hd (filepath_Rel root apath) \<noteq> ''..''" and "apath = a"
    using assms ne dir root ap unfolding ResolveSQLitePath_def by (simp_all add: Let_def a_def split: if_split_asm)
  with dir root ap filepath_Rel_inside [OF rel] a_def show "\<exists>dir root ap. filepath_Abs cwd allowDir = Inr dir \<and>
      EvalSymlinks dir = Inr root \<and> strict_prefix root apath \<and> filepath_Abs cwd p = Inr ap \<and>
      apath = clean_abs (show_path (resolveExistingPrefix EvalSymlinks ap))" by blast
qed

text \<open>The path that passes is the resolved form of the deepest existing ancestor of the requested path,
  followed by the components below it.\<close>

lemma resolveExistingPrefix_ancestor:
  assumes fs: "file_system EvalSymlinks" and ap: "filepath_Abs cwd p = Inr ap"
  shows "\<exists>anc r down. ap = anc @ down \<and> EvalSymlinks anc = Inr r \<and>
    clean_abs (show_path (resolveExistingPrefix EvalSymlinks ap)) = r @ down \<and>
    (\<forall>longer. prefix longer ap \<and> length anc < length longer \<longrightarrow> isl (EvalSymlinks longer))"
proof -
  obtain anc r down where a: "ap = anc @ down" "EvalSymlinks anc = Inr r"
    "resolveExistingPrefix EvalSymlinks ap = r @ down"
    "\<forall>longer. prefix longer ap \<and> length anc < length longer \<longrightarrow> isl (EvalSymlinks longer)"
    using resolve_loop_exists [of EvalSymlinks "[]" ap ap "[]"] fs
    unfolding resolveExistingPrefix_def file_system_def by auto
  have "\<forall>c\<in>set (r @ down). plain_comp c"
    using fs a(1,2) filepath_Abs_plain [OF ap] unfolding file_system_def list_all_iff by auto
  with a show ?thesis using clean_show_path by metis
qed

text \<open>C16: for every file system, a SQLite path that passes the allowlist is strictly inside the
  symlink-resolved allowed directory, has no component that is \<^verbatim>\<open>..\<close>, \<^verbatim>\<open>.\<close> or empty, names the same file
  as the requested path, and has no symbolic link on it that resolves: each of its ancestors, and the
  path itself, resolves to itself or (a file still to be created, a dangling link) does not resolve.
  Without an allowed directory nothing passes.\<close>

theorem ResolveSQLitePath_contained:
  assumes "file_system EvalSymlinks"
    and "ResolveSQLitePath cwd EvalSymlinks allowDir p = Inr apath"
  shows "TrimSpace allowDir \<noteq> [] \<and>
    (\<exists>dir root. filepath_Abs cwd allowDir = Inr dir \<and> EvalSymlinks dir = Inr root \<and> strict_prefix root apath) \<and>
    list_all plain_comp apath \<and>
    (\<exists>ap. filepath_Abs cwd p = Inr ap \<and> EvalSymlinks apath = EvalSymlinks ap) \<and>
    (\<forall>q r. prefix q apath \<longrightarrow> EvalSymlinks q = Inr r \<longrightarrow> r = q)"
proof -
  note acc = ResolveSQLitePath_accepts [OF assms(2)]
  then obtain dir root ap where d: "filepath_Abs cwd allowDir = Inr dir" "EvalSymlinks dir = Inr root"
    "strict_prefix root apath" "filepath_Abs cwd p = Inr ap"
    "apath = clean_abs (show_path (resolveExistingPrefix EvalSymlinks ap))" by blast
  obtain anc r down where a: "ap = anc @ down" "EvalSymlinks anc = Inr r" "apath = r @ down"
    "\<forall>longer. prefix longer ap \<and> length anc < length longer \<longrightarrow> isl (EvalSymlinks longer)"
    using resolveExistingPrefix_ancestor [OF assms(1) d(4)] d(5) by metis
  have below: "EvalSymlinks (r @ x) = EvalSymlinks (anc @ x)" and on: "prefix q r \<Longrightarrow> EvalSymlinks q = Inr q" for x q
    using assms(1) a(2) unfolding file_system_def by metis+
  have "t = q" if "prefix q apath" "EvalSymlinks q = Inr t" for q t
  proof (cases "prefix q r")
    case True
    with on that(2) show ?thesis by simp
  next
    case False
    with that(1) a(3) obtain x where x: "q = r @ x" "prefix x down" "x \<noteq> []"
      by (metis append_Nil2 prefix_append prefix_order.refl)
    then have "isl (EvalSymlinks (anc @ x))" using a(1,4) by simp
    with that(2) x(1) below show ?thesis by simp
  qed
  moreover have "list_all plain_comp apath" using clean_abs_plain by (auto simp: d(5) list_all_iff)
  moreover have "EvalSymlinks apath = EvalSymlinks ap" by (simp add: a below)
  ultimately show ?thesis using acc(1) d by blast
qed

text \<open>A file system for the example: \<^verbatim>\<open>/data/link\<close> points to \<^verbatim>\<open>/data/real\<close>, and \<^verbatim>\<open>new.db\<close> does not exist.\<close>

definition demo_fs :: "path \<Rightarrow> path result" where
  "demo_fs q = (if q = [''data'', ''link''] then Inr [''data'', ''real'']
     else if q = [] \<or> q = [''data''] \<or> q = [''data'', ''real''] then Inr q
     else Inl ''no such file or directory'')"

lemma demo_fs_self:
  assumes "r = [] \<or> r = [''data''] \<or> r = [''data'', ''real'']"
  shows "list_all plain_comp r" and "prefix d r \<Longrightarrow> demo_fs d = Inr d"
proof -
  show "list_all plain_comp r" using assms by (elim disjE) (simp_all add: plain_comp_def)
  assume "prefix d r"
  with assms have "d = [] \<or> d = [''data''] \<or> d = [''data'', ''real'']"
    unfolding prefix_def by (elim disjE exE) (auto simp: Cons_eq_append_conv)
  then show "demo_fs d = Inr d" by (elim disjE) (simp_all add: demo_fs_def)
qed

lemma demo_fs_ok: "file_system demo_fs"
  unfolding file_system_def
proof (intro conjI allI impI)
  show "demo_fs [] = Inr []" by (simp add: demo_fs_def)
next
  fix q r d below assume "demo_fs q = Inr r"
  then consider "q = [''data'', ''link'']" "r = [''data'', ''real'']"
    | "q = r" "r = [] \<or> r = [''data''] \<or> r = [''data'', ''real'']"
    by (simp add: demo_fs_def split: if_split_asm)
  note cases = this
  show "list_all plain_comp r" using cases demo_fs_self(1) by cases blast+
  show "demo_fs d = Inr d" if "prefix d r" using cases demo_fs_self(2) [OF _ that] by cases blast+
  show "demo_fs (q @ below) = demo_fs (r @ below)"
    using cases by cases (cases below, simp_all add: demo_fs_def)
qed

theorem ResolveSQLitePath_contained_witness:
  "ResolveSQLitePath (Inr []) demo_fs ''/data'' ''/data/x/../link/new.db'' = Inr [''data'', ''real'', ''new.db''] \<and>
   strict_prefix [''data''] [''data'', ''real'', ''new.db''] \<and> demo_fs [''data'', ''real''] = Inr [''data'', ''real'']"
proof -
  have r: "ResolveSQLitePath (Inr []) demo_fs ''/data'' ''/data/x/../link/new.db'' = Inr [''data'', ''real'', ''new.db'']"
    by code_simp
  have "filepath_Abs (Inr []) ''/data'' = Inr [''data'']" "demo_fs [''data''] = Inr [''data'']" by code_simp+
  with ResolveSQLitePath_contained [OF demo_fs_ok r] r show ?thesis by (auto simp: demo_fs_def)
qed

text \<open>A symbolic link whose target is missing does not resolve, so it is taken for a file still to be
  created: a link inside the allowed directory passes although its target, which opening the file for
  writing would create, lies outside.\<close>

definition dangling_fs :: "path \<Rightarrow> path result" where
  "dangling_fs q = (if q = [] \<or> q = [''data''] \<or> q = [''etc''] then Inr q else Inl ''no such file or directory'')"

lemma dangling_link_passes:
  "ResolveSQLitePath (Inr []) dangling_fs ''/data'' ''/data/link'' = Inr [''data'', ''link'']"
  by code_simp

lemma resolve_rounds_loop:
  "length cur < n \<Longrightarrow> resolve_rounds n EvalSymlinks p cur rest = Some (resolve_loop EvalSymlinks p cur rest)"
proof (induction n arbitrary: cur rest)
  case (Suc n)
  show ?case
  proof (cases "cur = []")
    case False
    then have "length (butlast cur) < n" using Suc.prems by (cases cur rule: rev_cases) simp_all
    from Suc.IH [OF this] show ?thesis by (simp add: resolve_loop.simps [of _ _ cur] split: sum.split)
  qed (simp add: resolve_loop.simps [of _ _ "[]"] split: sum.split)
qed simp

text \<open>
  C17: the unbounded loop that resolves the existing part of a path ends for every file system: a path of
  \<open>k\<close> components needs at most \<open>k + 1\<close> rounds, and more rounds change nothing. When no component exists, not
  even the root, the loop uses all of them and gives the path back.
\<close>

theorem resolveExistingPrefix_terminates:
  "resolve_rounds (Suc (length p)) EvalSymlinks p p [] = Some (resolveExistingPrefix EvalSymlinks p)
   \<and> resolve_rounds (Suc (length p + k)) EvalSymlinks p p [] = resolve_rounds (Suc (length p)) EvalSymlinks p p []
   \<and> resolve_rounds (length p) (\<lambda>_. Inl e) p p [] = None \<and> resolveExistingPrefix (\<lambda>_. Inl e) p = p"
proof -
  have none: "resolve_rounds (length cur) (\<lambda>_. Inl e) p cur rest = None" for cur rest
    by (induction cur arbitrary: rest rule: rev_induct) simp_all
  have "resolve_loop (\<lambda>_. Inl e) p cur rest = p" for cur rest
    by (induction cur arbitrary: rest rule: rev_induct)
       (subst resolve_loop.simps, simp)+
  with none show ?thesis by (simp add: resolve_rounds_loop resolveExistingPrefix_def del: resolve_rounds.simps)
qed

end
