(* ===== verification/Registry.thy ===== *)
theory Registry
  imports Engines Crypto Filepath
begin

text \<open>
  Package \<^verbatim>\<open>internal/conn\<close>: the registry of live pools. The five maps of \<^verbatim>\<open>Registry\<close> are one map indexed by the
  family of the client. A pool is a number; \<open>rg_closed\<close> lists the pools whose \<^verbatim>\<open>Close\<close> or \<^verbatim>\<open>Disconnect\<close> was
  called. Dialling a target is a parameter: it fails, it opens a pool that does not answer the ping
  (and is closed), or it opens a live one.

  \<open>get_pool\<close> is one getter (\<^verbatim>\<open>PG\<close>, \<^verbatim>\<open>MySQL\<close>, \<^verbatim>\<open>SQLite\<close>, \<^verbatim>\<open>Redis\<close>, \<^verbatim>\<open>Mongo\<close>) run alone. The getters release the mutex
  between the lookup and the insertion, so \<open>reg_step\<close> interleaves these two critical sections of many
  requests with \<^verbatim>\<open>Forget\<close> and the janitor.
\<close>

section \<open>State\<close>

datatype family = PgF | MySQLF | SQLiteF | RedisF | MongoF

record pool_entry =
  pe_pool :: nat
  pe_lastUsed :: int

record registry =
  rg_maxConns :: int
  rg_sqliteDir :: string
  rg_pools :: "family \<Rightarrow> int \<Rightarrow> pool_entry option"
  rg_fresh :: nat
  rg_closed :: "nat list"

text \<open>Times are in seconds, the unit of every clock of the model; \<^verbatim>\<open>idleTTL\<close> is five minutes.\<close>

definition idleTTL :: int where "idleTTL = 300"

text \<open>The conversion \<^verbatim>\<open>int32(n)\<close> wraps around.\<close>

definition to_int32 :: "int \<Rightarrow> int" where
  "to_int32 n = (n + 2147483648) mod 4294967296 - 2147483648"

definition NewRegistry :: "int \<Rightarrow> string \<Rightarrow> registry" where
  "NewRegistry pgMaxConns sqliteDir =
     \<lparr>rg_maxConns = to_int32 (if pgMaxConns \<le> 0 then 4 else pgMaxConns), rg_sqliteDir = sqliteDir,
      rg_pools = (\<lambda>_ _. None), rg_fresh = 0, rg_closed = []\<rparr>"

section \<open>The critical sections\<close>

text \<open>The first one of a getter: a cached pool is touched and returned.\<close>

definition reg_lookup :: "family \<Rightarrow> int \<Rightarrow> int \<Rightarrow> registry \<Rightarrow> nat option \<times> registry" where
  "reg_lookup fam i now rg =
     (case rg_pools rg fam i of
        Some e \<Rightarrow> (Some (pe_pool e),
                  rg\<lparr>rg_pools := (rg_pools rg)(fam := (rg_pools rg fam)(i \<mapsto> e\<lparr>pe_lastUsed := now\<rparr>))\<rparr>)
      | None \<Rightarrow> (None, rg))"

text \<open>The second one: the new pool replaces whatever is cached.\<close>

definition reg_insert :: "family \<Rightarrow> int \<Rightarrow> nat \<Rightarrow> int \<Rightarrow> registry \<Rightarrow> registry" where
  "reg_insert fam i pool now rg =
     rg\<lparr>rg_pools := (rg_pools rg)(fam := (rg_pools rg fam)(i \<mapsto> \<lparr>pe_pool = pool, pe_lastUsed = now\<rparr>))\<rparr>"

definition families :: "family list" where "families = [PgF, MySQLF, SQLiteF, RedisF, MongoF]"

fun forget_one :: "int \<Rightarrow> registry \<Rightarrow> family \<Rightarrow> registry" where
  "forget_one i rg fam =
     (case rg_pools rg fam i of
        None \<Rightarrow> rg
      | Some e \<Rightarrow> rg\<lparr>rg_closed := rg_closed rg @ [pe_pool e],
                     rg_pools := (rg_pools rg)(fam := (rg_pools rg fam)(i := None))\<rparr>)"

definition Forget :: "int \<Rightarrow> registry \<Rightarrow> registry" where
  "Forget i rg = foldl (forget_one i) rg families"

text \<open>One round of the janitor over the ids \<open>ids\<close> of the maps, in the order Go's map iteration takes.\<close>

fun sweep_one :: "int \<Rightarrow> registry \<Rightarrow> family \<times> int \<Rightarrow> registry" where
  "sweep_one now rg (fam, i) =
     (case rg_pools rg fam i of
        Some e \<Rightarrow> (if now - pe_lastUsed e > idleTTL then
                     rg\<lparr>rg_closed := rg_closed rg @ [pe_pool e],
                        rg_pools := (rg_pools rg)(fam := (rg_pools rg fam)(i := None))\<rparr>
                   else rg)
      | None \<Rightarrow> rg)"

definition janitor_round :: "int \<Rightarrow> (family \<times> int) list \<Rightarrow> registry \<Rightarrow> registry" where
  "janitor_round now order rg = foldl (sweep_one now) rg order"

section \<open>Opening a pool\<close>

datatype dial_result = DialErr go_error | PingErr go_error | Opened

text \<open>What a getter hands to the driver: a connection string, or the options of a Redis client.\<close>

datatype dial_target =
    TDsn string
  | TRedis (t_addr: string) (t_user: string) (t_password: string) (t_db: int)

type_synonym dialer = "family \<Rightarrow> dial_target \<Rightarrow> dial_result"

text \<open>\<^verbatim>\<open>password\<close>: the decrypted secret and whether the callback for credential use was called.\<close>

definition reg_password :: "block_cipher \<Rightarrow> box \<Rightarrow> connection \<Rightarrow> string result \<times> bool" where
  "reg_password E b c =
     (if cn_PasswordEnc c = [] then (Inr [], False)
      else case Decrypt E b (cn_PasswordEnc c) of
             Inl e \<Rightarrow> (Inl e, False)
           | Inr pw \<Rightarrow> (Inr pw, True))"

definition redis_options :: "connection \<Rightarrow> string \<Rightarrow> dial_target" where
  "redis_options c pw =
     (let dbNum = (if cn_DBName c \<noteq> [] then (case Atoi (cn_DBName c) of Some n \<Rightarrow> n | None \<Rightarrow> 0) else 0);
          user = (if cn_Username c = [] then ''default'' else cn_Username c)
      in TRedis (cn_Host c @ '':'' @ Itoa (cn_Port c)) user pw dbNum)"

record reg_env =
  re_cipher :: block_cipher
  re_box :: box
  re_cwd :: "path result"
  re_links :: "path \<Rightarrow> path result"
  re_FormatDSN :: "mysql_config \<Rightarrow> string"
  re_dial :: dialer

definition reg_target :: "reg_env \<Rightarrow> registry \<Rightarrow> family \<Rightarrow> connection \<Rightarrow> dial_target result \<times> bool" where
  "reg_target env rg fam c =
     (if fam = SQLiteF then
        (case ResolveSQLitePath (re_cwd env) (re_links env) (rg_sqliteDir rg) (cn_DBName c) of
           Inl e \<Rightarrow> (Inl e, False)
         | Inr p \<Rightarrow> (Inr (TDsn (SQLiteDSN (show_path p))), False))
      else
        (case reg_password (re_cipher env) (re_box env) c of
           (Inl e, used) \<Rightarrow> (Inl e, used)
         | (Inr pw, used) \<Rightarrow>
             (Inr (case fam of
                     MySQLF \<Rightarrow> TDsn (DSNMySQL (re_FormatDSN env) c pw)
                   | RedisF \<Rightarrow> redis_options c pw
                   | MongoF \<Rightarrow> TDsn (DSNMongo c pw)
                   | _ \<Rightarrow> TDsn (DSN c pw)), used)))"

text \<open>
  A getter without interference: the result, the new registry, and whether a stored credential was
  decrypted (the callback that writes the \<^verbatim>\<open>cred_access\<close> audit row).
\<close>

definition get_pool ::
    "reg_env \<Rightarrow> family \<Rightarrow> int \<Rightarrow> connection \<Rightarrow> registry \<Rightarrow> nat result \<times> registry \<times> bool" where
  "get_pool env fam now c rg =
     (case reg_lookup fam (cn_ID c) now rg of
        (Some p, rg') \<Rightarrow> (Inr p, rg', False)
      | (None, _) \<Rightarrow>
          (case reg_target env rg fam c of
             (Inl e, used) \<Rightarrow> (Inl e, rg, used)
           | (Inr dsn, used) \<Rightarrow>
               (case re_dial env fam dsn of
                  DialErr e \<Rightarrow> (Inl e, rg, used)
                | PingErr e \<Rightarrow>
                    (Inl e, rg\<lparr>rg_closed := rg_closed rg @ [rg_fresh rg], rg_fresh := rg_fresh rg + 1\<rparr>, used)
                | Opened \<Rightarrow>
                    (Inr (rg_fresh rg),
                     reg_insert fam (cn_ID c) (rg_fresh rg) now (rg\<lparr>rg_fresh := rg_fresh rg + 1\<rparr>), used))))"

text \<open>The five getters of the interface; they differ in the cache, in what they hand to the driver and in nothing else.\<close>

definition reg_PG where "reg_PG env = get_pool env PgF"
definition reg_MySQL where "reg_MySQL env = get_pool env MySQLF"
definition reg_SQLite where "reg_SQLite env = get_pool env SQLiteF"
definition reg_Redis where "reg_Redis env = get_pool env RedisF"
definition reg_Mongo where "reg_Mongo env = get_pool env MongoF"

definition family_of :: "connection \<Rightarrow> family" where
  "family_of c =
     (if Store.Engine c = FamilyMySQL then MySQLF
      else if Store.Engine c = FamilySQLite then SQLiteF
      else PgF)"

definition reg_Engine ::
    "reg_env \<Rightarrow> int \<Rightarrow> connection \<Rightarrow> registry \<Rightarrow> engine result \<times> registry \<times> bool" where
  "reg_Engine env now c rg =
     (case get_pool env (family_of c) now c rg of
        (Inl e, rg', used) \<Rightarrow> (Inl e, rg', used)
      | (Inr _, rg', used) \<Rightarrow> (Inr (engine_of c), rg', used))"

lemma reg_Engine_getters:
  "reg_Engine env now c rg =
     (case (if Store.Engine c = FamilyMySQL then reg_MySQL else if Store.Engine c = FamilySQLite then reg_SQLite else reg_PG) env now c rg of
        (Inl e, rg', used) \<Rightarrow> (Inl e, rg', used)
      | (Inr _, rg', used) \<Rightarrow> (Inr (engine_of c), rg', used))"
  by (simp add: reg_Engine_def family_of_def reg_PG_def reg_MySQL_def reg_SQLite_def)

section \<open>Interleaving\<close>

text \<open>
  The state of the interleaving: the registry, the requests that missed the cache and have not opened
  a pool yet, and the pools that a request has opened and not yet inserted. A step is one critical
  section, or one opening outside the mutex.
\<close>

type_synonym missed = "(family \<times> int) list"
type_synonym inflight = "(family \<times> int \<times> nat) list"
type_synonym reg_state = "registry \<times> missed \<times> inflight"

inductive reg_step :: "reg_state \<Rightarrow> reg_state \<Rightarrow> bool" where
  hit: "reg_lookup fam i now rg = (Some p, rg') \<Longrightarrow> reg_step (rg, ms, fl) (rg', ms, fl)"
| miss: "reg_lookup fam i now rg = (None, rg') \<Longrightarrow> reg_step (rg, ms, fl) (rg', (fam, i) # ms, fl)"
| open_fail: "ms = xs @ (fam, i) # ys \<Longrightarrow> reg_step (rg, ms, fl) (rg, xs @ ys, fl)"
| open_dead: "ms = xs @ (fam, i) # ys \<Longrightarrow>
    reg_step (rg, ms, fl) (rg\<lparr>rg_closed := rg_closed rg @ [rg_fresh rg], rg_fresh := rg_fresh rg + 1\<rparr>, xs @ ys, fl)"
| open_ok: "ms = xs @ (fam, i) # ys \<Longrightarrow>
    reg_step (rg, ms, fl) (rg\<lparr>rg_fresh := rg_fresh rg + 1\<rparr>, xs @ ys, (fam, i, rg_fresh rg) # fl)"
| insert: "fl = xs @ (fam, i, p) # ys \<Longrightarrow> reg_step (rg, ms, fl) (reg_insert fam i p now rg, ms, xs @ ys)"
| forget: "reg_step (rg, ms, fl) (Forget i rg, ms, fl)"
| janitor: "reg_step (rg, ms, fl) (janitor_round now order rg, ms, fl)"

inductive reg_reach :: "int \<Rightarrow> string \<Rightarrow> reg_state \<Rightarrow> bool" for maxc dir where
  start: "reg_reach maxc dir (NewRegistry maxc dir, [], [])"
| step: "reg_reach maxc dir s \<Longrightarrow> reg_step s s' \<Longrightarrow> reg_reach maxc dir s'"

text \<open>A getter that runs alone is a sequence of these steps.\<close>

lemma get_pool_steps:
  assumes "get_pool env fam now c rg = (r, rg', used)"
  shows "reg_step\<^sup>*\<^sup>* (rg, ms, fl) (rg', ms, fl)"
proof (cases "rg_pools rg fam (cn_ID c)")
  case (Some e)
  then have "reg_lookup fam (cn_ID c) now rg = (Some (pe_pool e), rg')"
    using assms by (auto simp: get_pool_def reg_lookup_def)
  then have "reg_step (rg, ms, fl) (rg', ms, fl)" by (rule hit)
  then show ?thesis by blast
next
  case None
  then have look: "reg_lookup fam (cn_ID c) now rg = (None, rg)" by (simp add: reg_lookup_def)
  let ?ms = "(fam, cn_ID c) # ms"
  have miss: "reg_step (rg, ms, fl) (rg, ?ms, fl)" by (rule reg_step.miss [OF look])
  consider "rg' = rg"
    | "rg' = rg\<lparr>rg_closed := rg_closed rg @ [rg_fresh rg], rg_fresh := rg_fresh rg + 1\<rparr>"
    | "rg' = reg_insert fam (cn_ID c) (rg_fresh rg) now (rg\<lparr>rg_fresh := rg_fresh rg + 1\<rparr>)"
    using assms look by (auto simp: get_pool_def split: prod.splits sum.splits dial_result.splits)
  then show ?thesis
  proof cases
    case 1
    have "reg_step (rg, ?ms, fl) (rg, ms, fl)" using reg_step.open_fail [of ?ms "[]"] by simp
    with miss 1 show ?thesis by auto
  next
    case 2
    have "reg_step (rg, ?ms, fl) (rg', ms, fl)" using reg_step.open_dead [of ?ms "[]"] 2 by simp
    with miss show ?thesis by (meson converse_rtranclp_into_rtranclp r_into_rtranclp)
  next
    case 3
    let ?rg = "rg\<lparr>rg_fresh := rg_fresh rg + 1\<rparr>"
    have "reg_step (rg, ?ms, fl) (?rg, ms, (fam, cn_ID c, rg_fresh rg) # fl)"
      using reg_step.open_ok [of ?ms "[]"] by simp
    moreover have "reg_step (?rg, ms, (fam, cn_ID c, rg_fresh rg) # fl) (rg', ms, fl)"
      using reg_step.insert [of "(fam, cn_ID c, rg_fresh rg) # fl" "[]"] 3 by simp
    ultimately show ?thesis using miss by (meson converse_rtranclp_into_rtranclp r_into_rtranclp)
  qed
qed

section \<open>Invariant\<close>

definition cached :: "registry \<Rightarrow> nat \<Rightarrow> bool" where
  "cached rg p \<longleftrightarrow> (\<exists>fam i e. rg_pools rg fam i = Some e \<and> pe_pool e = p)"

definition reg_ok :: "registry \<times> inflight \<Rightarrow> bool" where
  "reg_ok s \<longleftrightarrow>
     (case s of (rg, fl) \<Rightarrow>
       (\<forall>p. cached rg p \<longrightarrow> p < rg_fresh rg \<and> p \<notin> set (rg_closed rg)) \<and>
       (\<forall>fam i e fam' i' e'. rg_pools rg fam i = Some e \<longrightarrow> rg_pools rg fam' i' = Some e' \<longrightarrow>
          pe_pool e = pe_pool e' \<longrightarrow> fam = fam' \<and> i = i') \<and>
       (\<forall>p\<in>set (map (snd \<circ> snd) fl). p < rg_fresh rg \<and> p \<notin> set (rg_closed rg) \<and> \<not> cached rg p) \<and>
       distinct (map (snd \<circ> snd) fl) \<and>
       (\<forall>p\<in>set (rg_closed rg). p < rg_fresh rg) \<and> distinct (rg_closed rg))"

lemma reg_okD:
  assumes "reg_ok (rg, fl)"
  shows "\<And>fam i e. rg_pools rg fam i = Some e \<Longrightarrow> pe_pool e < rg_fresh rg \<and> pe_pool e \<notin> set (rg_closed rg)"
    and "\<And>fam i e fam' i' e'. rg_pools rg fam i = Some e \<Longrightarrow> rg_pools rg fam' i' = Some e' \<Longrightarrow>
      pe_pool e = pe_pool e' \<Longrightarrow> fam = fam' \<and> i = i'"
    and "\<And>p. p \<in> set (map (snd \<circ> snd) fl) \<Longrightarrow> p < rg_fresh rg \<and> p \<notin> set (rg_closed rg) \<and> \<not> cached rg p"
    and "distinct (map (snd \<circ> snd) fl)" and "\<And>p. p \<in> set (rg_closed rg) \<Longrightarrow> p < rg_fresh rg"
    and "distinct (rg_closed rg)"
  using assms unfolding reg_ok_def cached_def by (auto; blast)+

lemma reg_okI:
  assumes "\<And>fam i e. rg_pools rg fam i = Some e \<Longrightarrow> pe_pool e < rg_fresh rg \<and> pe_pool e \<notin> set (rg_closed rg)"
    and "\<And>fam i e fam' i' e'. rg_pools rg fam i = Some e \<Longrightarrow> rg_pools rg fam' i' = Some e' \<Longrightarrow>
      pe_pool e = pe_pool e' \<Longrightarrow> fam = fam' \<and> i = i'"
    and "\<And>p. p \<in> set (map (snd \<circ> snd) fl) \<Longrightarrow> p < rg_fresh rg \<and> p \<notin> set (rg_closed rg) \<and> \<not> cached rg p"
    and "distinct (map (snd \<circ> snd) fl)" and "\<And>p. p \<in> set (rg_closed rg) \<Longrightarrow> p < rg_fresh rg"
    and "distinct (rg_closed rg)"
  shows "reg_ok (rg, fl)"
  unfolding reg_ok_def prod.case
proof (intro conjI)
  show "\<forall>p. cached rg p \<longrightarrow> p < rg_fresh rg \<and> p \<notin> set (rg_closed rg)"
    using assms(1) unfolding cached_def by blast
qed (use assms in blast)+

text \<open>Closing and removing one cached entry.\<close>

definition drop_entry :: "family \<Rightarrow> int \<Rightarrow> pool_entry \<Rightarrow> registry \<Rightarrow> registry" where
  "drop_entry fam i e rg = rg\<lparr>rg_closed := rg_closed rg @ [pe_pool e],
     rg_pools := (rg_pools rg)(fam := (rg_pools rg fam)(i := None))\<rparr>"

lemma drop_entry_simps [simp]:
  "rg_fresh (drop_entry fam i e rg) = rg_fresh rg"
  "rg_closed (drop_entry fam i e rg) = rg_closed rg @ [pe_pool e]"
  "rg_pools (drop_entry fam i e rg) f j = (if f = fam \<and> j = i then None else rg_pools rg f j)"
  by (auto simp: drop_entry_def)

lemma reg_ok_drop:
  assumes ok: "reg_ok (rg, fl)" and e: "rg_pools rg fam i = Some e"
  shows "reg_ok (drop_entry fam i e rg, fl)"
proof -
  note inv = reg_okD [OF ok]
  have ne: "pe_pool x \<noteq> pe_pool e" if "rg_pools rg f j = Some x" "\<not> (f = fam \<and> j = i)" for f j x
    using inv(2) [OF that(1) e] that(2) by blast
  have fl: "p \<noteq> pe_pool e" if "p \<in> set (map (snd \<circ> snd) fl)" for p
    using inv(3) [OF that] e unfolding cached_def by blast
  show ?thesis
  proof (rule reg_okI)
    show "p < rg_fresh (drop_entry fam i e rg) \<and> p \<notin> set (rg_closed (drop_entry fam i e rg))
        \<and> \<not> cached (drop_entry fam i e rg) p" if "p \<in> set (map (snd \<circ> snd) fl)" for p
      using inv(3) [OF that] fl [OF that] by (auto simp: cached_def split: if_splits)
  qed (use inv(1) inv(2) inv(4-6) inv(1) [OF e] ne in \<open>auto split: if_splits\<close>)
qed

lemma forget_one_ok: "reg_ok (rg, fl) \<Longrightarrow> reg_ok (forget_one i rg fam, fl)"
  using reg_ok_drop [of rg fl fam i] by (auto simp: drop_entry_def split: option.splits)

lemma Forget_ok: "reg_ok (rg, fl) \<Longrightarrow> reg_ok (Forget i rg, fl)"
  unfolding Forget_def families_def by (simp add: forget_one_ok del: forget_one.simps)

lemma sweep_one_ok: "reg_ok (rg, fl) \<Longrightarrow> reg_ok (sweep_one now rg fi, fl)"
  using reg_ok_drop [of rg fl "fst fi" "snd fi"]
  by (cases fi) (auto simp: drop_entry_def split: option.splits)

lemma janitor_ok: "reg_ok (rg, fl) \<Longrightarrow> reg_ok (janitor_round now order rg, fl)"
  unfolding janitor_round_def
  by (induction order arbitrary: rg) (auto intro: sweep_one_ok simp del: sweep_one.simps)

lemma reg_lookup_hit:
  assumes "reg_lookup fam i now rg = (Some p, rg')"
  shows "\<exists>e. rg_pools rg fam i = Some e \<and> pe_pool e = p \<and>
    rg' = rg\<lparr>rg_pools := (rg_pools rg)(fam := (rg_pools rg fam)(i \<mapsto> e\<lparr>pe_lastUsed := now\<rparr>))\<rparr>"
  using assms by (auto simp: reg_lookup_def split: option.splits)

lemma touch_ok:
  assumes ok: "reg_ok (rg, fl)" and e: "rg_pools rg fam i = Some e" and p: "pe_pool e' = pe_pool e"
  shows "reg_ok (rg\<lparr>rg_pools := (rg_pools rg)(fam := (rg_pools rg fam)(i \<mapsto> e'))\<rparr>, fl)"
proof -
  note inv = reg_okD [OF ok]
  let ?rg = "rg\<lparr>rg_pools := (rg_pools rg)(fam := (rg_pools rg fam)(i \<mapsto> e'))\<rparr>"
  have old: "\<exists>y. rg_pools rg f j = Some y \<and> pe_pool y = pe_pool x" if "rg_pools ?rg f j = Some x" for f j x
    using that e p by (auto split: if_splits)
  have sub: "cached ?rg q \<Longrightarrow> cached rg q" for q using old unfolding cached_def by metis
  show ?thesis
  proof (rule reg_okI)
    fix q
    assume "q \<in> set (map (snd \<circ> snd) fl)"
    from inv(3) [OF this] sub [of q] show "q < rg_fresh ?rg \<and> q \<notin> set (rg_closed ?rg) \<and> \<not> cached ?rg q" by auto
  next
    fix f j x f' j' x'
    assume "rg_pools ?rg f j = Some x" "rg_pools ?rg f' j' = Some x'" "pe_pool x = pe_pool x'"
    then show "f = f' \<and> j = j'" using old inv(2) by metis
  next
    fix f j x
    assume "rg_pools ?rg f j = Some x"
    then show "pe_pool x < rg_fresh ?rg \<and> pe_pool x \<notin> set (rg_closed ?rg)" using old inv(1) by fastforce
  qed (use inv in auto)
qed

lemma insert_ok:
  assumes ok: "reg_ok (rg, xs @ (fam, i, p) # ys)"
  shows "reg_ok (reg_insert fam i p now rg, xs @ ys)"
proof -
  note inv = reg_okD [OF ok]
  let ?rg = "reg_insert fam i p now rg"
  have p: "p < rg_fresh rg" "p \<notin> set (rg_closed rg)" "\<not> cached rg p" using inv(3) [of p] by auto
  have pools: "rg_pools ?rg f j = (if f = fam \<and> j = i then Some \<lparr>pe_pool = p, pe_lastUsed = now\<rparr> else rg_pools rg f j)" for f j
    by (auto simp: reg_insert_def)
  have other: "pe_pool x \<noteq> p" if "rg_pools rg f j = Some x" for f j x using p(3) that unfolding cached_def by blast
  have sub: "cached ?rg q \<Longrightarrow> cached rg q \<or> q = p" for q
    unfolding cached_def pools by (metis (mono_tags, lifting) option.inject pool_entry.select_convs(1))
  have np: "p \<notin> set (map (snd \<circ> snd) (xs @ ys))" using inv(4) by auto
  show ?thesis
  proof (rule reg_okI)
    fix f j x f' j' x'
    assume "rg_pools ?rg f j = Some x" "rg_pools ?rg f' j' = Some x'" "pe_pool x = pe_pool x'"
    then show "f = f' \<and> j = j'"
      unfolding pools using other inv(2)
      by (metis (mono_tags, lifting) option.inject pool_entry.select_convs(1))
  next
    fix f j x
    assume "rg_pools ?rg f j = Some x"
    then show "pe_pool x < rg_fresh ?rg \<and> pe_pool x \<notin> set (rg_closed ?rg)"
      unfolding pools using p inv(1) by (auto simp: reg_insert_def split: if_splits)
  next
    fix q
    assume q: "q \<in> set (map (snd \<circ> snd) (xs @ ys))"
    then have "q \<in> set (map (snd \<circ> snd) (xs @ (fam, i, p) # ys))" by auto
    from inv(3) [OF this] sub [of q] q np
    show "q < rg_fresh ?rg \<and> q \<notin> set (rg_closed ?rg) \<and> \<not> cached ?rg q"
      by (auto simp: reg_insert_def simp del: map_append)
  qed (use inv in \<open>auto simp: reg_insert_def\<close>)
qed

lemma fresh_ok:
  assumes ok: "reg_ok (rg, fl)"
  shows "reg_ok (rg\<lparr>rg_fresh := rg_fresh rg + 1\<rparr>, (fam, i, rg_fresh rg) # fl)"
    and "reg_ok (rg\<lparr>rg_closed := rg_closed rg @ [rg_fresh rg], rg_fresh := rg_fresh rg + 1\<rparr>, fl)"
proof -
  note inv = reg_okD [OF ok]
  have lt: "cached rg p \<Longrightarrow> p < rg_fresh rg" for p using inv(1) unfolding cached_def by blast
  have c: "cached (rg\<lparr>rg_fresh := n\<rparr>) p = cached rg p" "cached (rg\<lparr>rg_closed := cl, rg_fresh := n\<rparr>) p = cached rg p" for n cl p
    by (simp_all add: cached_def)
  show "reg_ok (rg\<lparr>rg_fresh := rg_fresh rg + 1\<rparr>, (fam, i, rg_fresh rg) # fl)"
    by (rule reg_okI) (use inv lt in \<open>auto simp: c simp del: set_map, fastforce+\<close>)
  show "reg_ok (rg\<lparr>rg_closed := rg_closed rg @ [rg_fresh rg], rg_fresh := rg_fresh rg + 1\<rparr>, fl)"
    by (rule reg_okI) (use inv lt in \<open>auto simp: c simp del: set_map, fastforce+\<close>)
qed

lemma reg_step_ok: "reg_step s s' \<Longrightarrow> reg_ok (fst s, snd (snd s)) \<Longrightarrow> reg_ok (fst s', snd (snd s'))"
proof (induction rule: reg_step.induct)
  case (hit fam i now rg p rg' ms fl)
  then show ?case using reg_lookup_hit [of fam i now rg p rg'] by (auto intro: touch_ok)
next
  case (miss fam i now rg rg' ms fl)
  then show ?case by (auto simp: reg_lookup_def split: option.splits)
next
  case (open_dead ms xs fam i ys rg fl)
  then show ?case using fresh_ok(2) by simp
next
  case (open_ok ms xs fam i ys rg fl)
  then show ?case using fresh_ok(1) by simp
qed (auto intro: insert_ok Forget_ok janitor_ok)

lemma reg_reach_ok: "reg_reach maxc dir s \<Longrightarrow> reg_ok (fst s, snd (snd s))"
proof (induction rule: reg_reach.induct)
  case start
  show ?case by (rule reg_okI) (auto simp: NewRegistry_def)
next
  case (step s s')
  then show ?case using reg_step_ok by blast
qed

text \<open>Getters that run alone, seen from outside: they keep the invariant of a registry at rest.\<close>

definition reg_kept :: "registry \<Rightarrow> registry \<Rightarrow> bool" where
  "reg_kept rg rg' \<longleftrightarrow> (reg_ok (rg, []) \<longrightarrow> reg_ok (rg', []))"

lemma reg_kept_refl [simp]: "reg_kept rg rg" by (simp add: reg_kept_def)

lemma reg_kept_trans [trans]: "reg_kept rg rg' \<Longrightarrow> reg_kept rg' rg'' \<Longrightarrow> reg_kept rg rg''" by (simp add: reg_kept_def)

lemma Forget_kept: "reg_kept rg (Forget i rg)" by (simp add: reg_kept_def Forget_ok)

lemma get_pool_kept:
  assumes "get_pool env fam now c rg = (r, rg', used)"
  shows "reg_kept rg rg'"
proof -
  have "reg_ok (fst s', snd (snd s'))" if "reg_step\<^sup>*\<^sup>* s s'" "reg_ok (fst s, snd (snd s))" for s s'
    using that by (induction rule: rtranclp_induct) (auto intro: reg_step_ok)
  from this [OF get_pool_steps [OF assms, of "[]" "[]"]] show ?thesis by (simp add: reg_kept_def)
qed

lemma reg_Engine_kept: "reg_Engine env now c rg = (r, rg', used) \<Longrightarrow> reg_kept rg rg'"
  by (auto simp: reg_Engine_def split: prod.splits sum.splits dest: get_pool_kept)

section \<open>Properties\<close>

text \<open>
  C14: in every interleaving of lookups, openings, insertions, \<^verbatim>\<open>Forget\<close> and janitor rounds: the pool that a
  getter finds in the registry has not been closed, it is cached for no other connection and no other
  family, and no pool is closed twice.
\<close>

theorem registry_never_hands_out_closed_pools:
  assumes "reg_reach maxc dir (rg, ms, fl)"
  shows "distinct (rg_closed rg)
    \<and> (\<forall>fam i now p rg'. reg_lookup fam i now rg = (Some p, rg') \<longrightarrow> p \<notin> set (rg_closed rg')
         \<and> (\<forall>fam' i' now' rg''. reg_lookup fam' i' now' rg = (Some p, rg'') \<longrightarrow> fam' = fam \<and> i' = i))"
proof -
  note inv = reg_okD [OF reg_reach_ok [OF assms, simplified]]
  show ?thesis
  proof (intro conjI allI impI)
    fix fam i now p rg' assume "reg_lookup fam i now rg = (Some p, rg')"
    from reg_lookup_hit [OF this] inv(1) show "p \<notin> set (rg_closed rg')" by fastforce
  next
    fix fam i now p rg' fam' i' now' rg''
    assume "reg_lookup fam i now rg = (Some p, rg')" "reg_lookup fam' i' now' rg = (Some p, rg'')"
    from reg_lookup_hit [OF this(1)] reg_lookup_hit [OF this(2)] inv(2)
    show "fam' = fam" "i' = i" by metis+
  qed (rule inv(6))
qed

lemma reach_open:
  assumes "reg_reach maxc dir (rg, ms, fl)" and "rg_pools rg fam i = None"
  shows "reg_reach maxc dir (rg\<lparr>rg_fresh := rg_fresh rg + 1\<rparr>, ms, (fam, i, rg_fresh rg) # fl)"
proof -
  have "reg_lookup fam i 0 rg = (None, rg)" using assms(2) by (simp add: reg_lookup_def)
  from reg_reach.step [OF assms(1) miss [OF this]]
  have "reg_reach maxc dir (rg, (fam, i) # ms, fl)" .
  from reg_reach.step [OF this open_ok [of _ "[]"]] show ?thesis by simp
qed

theorem registry_never_hands_out_closed_pools_witness:
  "reg_reach 4 ''/d'' ((NewRegistry 4 ''/d'')\<lparr>rg_fresh := 1\<rparr>, [], [(PgF, 7, 0)])
   \<and> distinct (rg_closed ((NewRegistry 4 ''/d'')\<lparr>rg_fresh := 1\<rparr>))"
proof -
  have r: "reg_reach 4 ''/d'' ((NewRegistry 4 ''/d'')\<lparr>rg_fresh := 1\<rparr>, [], [(PgF, 7, 0)])"
    using reach_open [OF reg_reach.start [of 4 "''/d''"], of PgF 7] by (simp add: NewRegistry_def)
  with registry_never_hands_out_closed_pools [OF r] show ?thesis by blast
qed

lemma forget_one_pools:
  "rg_pools (forget_one i rg fam) f j = (if f = fam \<and> j = i then None else rg_pools rg f j)"
  "set (rg_closed (forget_one i rg fam)) = set (rg_closed rg) \<union> {p. \<exists>e. rg_pools rg fam i = Some e \<and> p = pe_pool e}"
  by (auto split: option.splits)

text \<open>
  After \<^verbatim>\<open>Forget\<close> of a connection nothing is cached for it in any family, every pool that was cached
  for it is closed, and no other connection is touched.
\<close>

theorem Forget_drops_and_closes:
  "rg_pools (Forget i rg) fam j = (if j = i then None else rg_pools rg fam j)
   \<and> set (rg_closed (Forget i rg)) = set (rg_closed rg) \<union> {p. \<exists>fam e. rg_pools rg fam i = Some e \<and> p = pe_pool e}"
proof
  show "rg_pools (Forget i rg) fam j = (if j = i then None else rg_pools rg fam j)"
    by (cases fam) (simp_all add: Forget_def families_def forget_one_pools del: forget_one.simps)
  have "(\<exists>fam. P fam) \<longleftrightarrow> P PgF \<or> P MySQLF \<or> P SQLiteF \<or> P RedisF \<or> P MongoF" for P :: "family \<Rightarrow> bool"
    by (metis family.exhaust)
  then show "set (rg_closed (Forget i rg)) = set (rg_closed rg) \<union> {p. \<exists>fam e. rg_pools rg fam i = Some e \<and> p = pe_pool e}"
    by (auto simp: Forget_def families_def forget_one_pools simp del: forget_one.simps)
qed

text \<open>
  Two requests that miss the cache at the same time both open a pool, and the second insertion
  replaces the first: the first pool is then neither cached nor closed, and nothing will ever
  close it. The same happens to a connection that \<^verbatim>\<open>Forget\<close> drops while an opening is under way: afterwards its
  stale pool is cached.
\<close>

theorem concurrent_open_leaks_pool:
  "(\<exists>rg. reg_reach maxc dir (rg, [], []) \<and> (\<exists>p<rg_fresh rg. p \<notin> set (rg_closed rg) \<and> \<not> cached rg p))
   \<and> (\<exists>rg rg' p. reg_reach maxc dir (rg, [], [(fam, i, p)])
        \<and> reg_step (rg, [], [(fam, i, p)]) (Forget i rg, [], [(fam, i, p)])
        \<and> reg_step (Forget i rg, [], [(fam, i, p)]) (rg', [], []) \<and> rg_pools rg' fam i \<noteq> None)"
proof
  define r0 where "r0 = NewRegistry maxc dir"
  define r2 where "r2 = r0\<lparr>rg_fresh := 2\<rparr>"
  define r4 where "r4 = reg_insert PgF 1 1 0 (reg_insert PgF 1 0 0 r2)"
  have none: "rg_pools r0 f j = None" for f j by (simp add: r0_def NewRegistry_def)
  have "reg_reach maxc dir (r0\<lparr>rg_fresh := 1\<rparr>, [], [(PgF, 1, 0)])"
    using reach_open [OF reg_reach.start, of maxc dir PgF 1] by (simp add: r0_def NewRegistry_def)
  from reach_open [OF this, of PgF 1] have "reg_reach maxc dir (r2, [], [(PgF, 1, 1), (PgF, 1, 0)])"
    by (simp add: none r2_def numeral_2_eq_2)
  moreover have "reg_step (r2, [], [(PgF, 1, 1), (PgF, 1, 0)]) (reg_insert PgF 1 0 0 r2, [], [(PgF, 1, 1)])"
    using reg_step.insert [of "[(PgF, 1, 1), (PgF, 1, 0)]" "[(PgF, 1, 1)]" PgF 1 0 "[]"] by simp
  ultimately have "reg_reach maxc dir (reg_insert PgF 1 0 0 r2, [], [(PgF, 1, 1)])" by (rule reg_reach.step)
  moreover have "reg_step (reg_insert PgF 1 0 0 r2, [], [(PgF, 1, 1)]) (r4, [], [])"
    using reg_step.insert [of "[(PgF, 1, 1)]" "[]" PgF 1 1 "[]"] by (simp add: r4_def)
  ultimately have "reg_reach maxc dir (r4, [], [])" by (rule reg_reach.step)
  moreover have "0 < rg_fresh r4 \<and> 0 \<notin> set (rg_closed r4) \<and> \<not> cached r4 0"
    by (auto simp: r4_def r2_def r0_def reg_insert_def NewRegistry_def cached_def split: if_splits)
  ultimately show "\<exists>rg. reg_reach maxc dir (rg, [], []) \<and> (\<exists>p<rg_fresh rg. p \<notin> set (rg_closed rg) \<and> \<not> cached rg p)" by blast
next
  define r1 where "r1 = (NewRegistry maxc dir)\<lparr>rg_fresh := 1\<rparr>"
  have "reg_reach maxc dir (r1, [], [(fam, i, 0)])"
    using reach_open [OF reg_reach.start, of maxc dir fam i] by (simp add: r1_def NewRegistry_def)
  moreover have "reg_step (r1, [], [(fam, i, 0)]) (Forget i r1, [], [(fam, i, 0)])" by (rule forget)
  moreover have "reg_step (Forget i r1, [], [(fam, i, 0)]) (reg_insert fam i 0 0 (Forget i r1), [], [])"
    using reg_step.insert [of "[(fam, i, 0)]" "[]" fam i 0 "[]"] by simp
  moreover have "rg_pools (reg_insert fam i 0 0 (Forget i r1)) fam i \<noteq> None" by (simp add: reg_insert_def)
  ultimately show "\<exists>rg rg' p. reg_reach maxc dir (rg, [], [(fam, i, p)])
        \<and> reg_step (rg, [], [(fam, i, p)]) (Forget i rg, [], [(fam, i, p)])
        \<and> reg_step (Forget i rg, [], [(fam, i, p)]) (rg', [], []) \<and> rg_pools rg' fam i \<noteq> None"
    by blast
qed

end
