(* ===== verification/RedisDb.thy ===== *)
theory RedisDb
  imports Regexp DbSql
begin

text \<open>
  Package \<^verbatim>\<open>internal/redisdb\<close>: the page of a keyspace scan, the rendering of one key, the screen of dangerous
  commands and the rendering of replies. The Redis client is a parameter: the answers of the commands
  that the functions send.
\<close>

section \<open>Rows\<close>

record key_info =
  ki_Key :: string
  ki_Type :: string
  ki_TTL :: string

record key_page =
  kp_Keys :: "key_info list"
  kp_Cursor :: int

record redis_value =
  rv_Key :: string
  rv_Type :: string
  rv_TTL :: string
  rv_Text :: string
  rv_Pairs :: "(string \<times> string) list"
  rv_List :: "string list"

text \<open>The answers of the client. \<open>rc_hgetall\<close> lists the pairs in the order the map iteration takes.\<close>

record redis_client =
  rc_scan :: "int \<Rightarrow> string \<Rightarrow> int \<Rightarrow> (string list \<times> int) result"
  rc_type :: "string \<Rightarrow> string result"
  rc_ttl :: "string \<Rightarrow> int result"
  rc_get :: "string \<Rightarrow> string result"
  rc_hgetall :: "string \<Rightarrow> (string \<times> string) list result"
  rc_lrange :: "string \<Rightarrow> int \<Rightarrow> int \<Rightarrow> string list result"
  rc_smembers :: "string \<Rightarrow> string list result"
  rc_zrange :: "string \<Rightarrow> int \<Rightarrow> int \<Rightarrow> (string \<times> string) list result"

text \<open>\<^verbatim>\<open>x, _ := ...\<close>: the zero value when the call fails.\<close>

definition or_zero :: "'a \<Rightarrow> 'a result \<Rightarrow> 'a" where
  "or_zero z r = (case r of Inl _ \<Rightarrow> z | Inr x \<Rightarrow> x)"

section \<open>Durations\<close>

text \<open>\<^verbatim>\<open>Duration.String\<close> of a whole number of seconds.\<close>

definition secs_string :: "nat \<Rightarrow> string" where
  "secs_string n =
     (let s = nat_digits (n mod 60) @ ''s''; m = n div 60
      in if m = 0 then s
         else let ms = nat_digits (m mod 60) @ ''m'' @ s; h = m div 60
              in if h = 0 then ms else nat_digits h @ ''h'' @ ms)"

definition ttlString :: "int \<Rightarrow> string" where
  "ttlString d =
     (if d = -1 then ''no expiry''
      else if d = -2 then ''-''
      else let secs = nat (\<bar>d\<bar> div 1000000000)
           in (if d < 0 \<and> secs \<noteq> 0 then ''-'' else []) @ secs_string secs)"

section \<open>Browsing\<close>

definition key_row :: "redis_client \<Rightarrow> string \<Rightarrow> key_info" where
  "key_row c k =
     \<lparr>ki_Key = k, ki_Type = or_zero [] (rc_type c k),
      ki_TTL = (case rc_ttl c k of Inl _ \<Rightarrow> [] | Inr d \<Rightarrow> ttlString d)\<rparr>"

definition Scan :: "redis_client \<Rightarrow> string \<Rightarrow> int \<Rightarrow> int \<Rightarrow> key_page result" where
  "Scan c match cursor count =
     (let match = (if match = [] then ''*'' else match);
          count = (if count \<le> 0 then 100 else count)
      in case rc_scan c cursor match count of
           Inl e \<Rightarrow> Inl e
         | Inr (keys, next) \<Rightarrow> Inr \<lparr>kp_Keys = map (key_row c) keys, kp_Cursor = next\<rparr>)"

definition redis_Get_value :: "redis_client \<Rightarrow> string \<Rightarrow> redis_value result" where
  "redis_Get_value c key =
     (case rc_type c key of
        Inl e \<Rightarrow> Inl e
      | Inr typ \<Rightarrow>
          (let v = \<lparr>rv_Key = key, rv_Type = typ,
                    rv_TTL = (case rc_ttl c key of Inl _ \<Rightarrow> [] | Inr d \<Rightarrow> ttlString d),
                    rv_Text = [], rv_Pairs = [], rv_List = []\<rparr>
           in if typ = ''string'' then Inr (v\<lparr>rv_Text := or_zero [] (rc_get c key)\<rparr>)
              else if typ = ''hash'' then Inr (v\<lparr>rv_Pairs := or_zero [] (rc_hgetall c key)\<rparr>)
              else if typ = ''list'' then Inr (v\<lparr>rv_List := or_zero [] (rc_lrange c key 0 499)\<rparr>)
              else if typ = ''set'' then Inr (v\<lparr>rv_List := or_zero [] (rc_smembers c key)\<rparr>)
              else if typ = ''zset'' then Inr (v\<lparr>rv_Pairs := or_zero [] (rc_zrange c key 0 499)\<rparr>)
              else if typ = ''none'' then Inl (''key '' @ quoted_go key @ '' does not exist'')
              else Inr (v\<lparr>rv_Text := ''(unsupported type '' @ quoted_go typ @ '' use the command console)''\<rparr>)))"

section \<open>The command console\<close>

definition redis_dangerous :: "string list" where
  "redis_dangerous =
     [''flushall'', ''flushdb'', ''shutdown'', ''debug'', ''eval'', ''evalsha'', ''eval_ro'', ''evalsha_ro'', ''fcall'',
      ''fcall_ro'', ''function'', ''script'', ''module'', ''config'', ''slaveof'', ''replicaof'', ''migrate'', ''restore'',
      ''swapdb'', ''acl'', ''cluster'', ''failover'', ''save'', ''bgsave'', ''bgrewriteaof'', ''lastsave'', ''reset'',
      ''latency'', ''monitor'']"

definition reDangerous :: re where
  "reDangerous = seqs [BeginText, Group 1 (alts (map lit_ci redis_dangerous)), EndText]"

definition redis_NeedsConfirm :: "string list \<Rightarrow> bool" where
  "redis_NeedsConfirm args =
     (case args of [] \<Rightarrow> False | a # _ \<Rightarrow> MatchString reDangerous (TrimSpace a))"

definition ParseArgs :: "string \<Rightarrow> string list" where
  "ParseArgs line = Fields line"

text \<open>A reply of the server as go-redis decodes it; a map is listed in the order of its iteration.\<close>

datatype reply =
    RNil
  | RStr string
  | RBytes string
  | RInt int
  | RArr "reply list"
  | RMap "(reply \<times> reply) list"
  | ROther string

fun render :: "reply \<Rightarrow> string" where
  "render RNil = ''(nil)''"
| "render (RStr s) = s"
| "render (RBytes b) = b"
| "render (RInt i) = Itoa i"
| "render (RArr xs) = Join (map render xs) [NL]"
| "render (RMap kvs) = concat (map (\<lambda>kv. render (fst kv) @ '': '' @ render (snd kv) @ [NL]) kvs)"
| "render (ROther text) = text"

definition Command :: "(string list \<Rightarrow> reply result) \<Rightarrow> string list \<Rightarrow> string result" where
  "Command run args = (case run args of Inl e \<Rightarrow> Inl e | Inr r \<Rightarrow> Inr (render r))"

section \<open>Lemmas\<close>

lemma reDangerous_match: "MatchString reDangerous s \<longleftrightarrow> ToLower s \<in> set redis_dangerous"
proof -
  have "rmatches (alts (map lit_ci redis_dangerous)) pre u post \<longleftrightarrow> ToLower u \<in> set redis_dangerous" for pre u post
    unfolding rmatches_alts set_map bex_simps rmatches_lit_ci by blast
  then have "rmatches reDangerous pre u post \<longleftrightarrow> pre = [] \<and> ToLower u \<in> set redis_dangerous \<and> post = []" for pre u post
    unfolding reDangerous_def seqs.simps
    by (auto simp: rmatches_Seq rmatches_Group rmatches_EndText rmatches_BeginText)
  then show ?thesis unfolding MatchString_iff by auto
qed

text \<open>
  A Redis command line needs an admin and a confirmation exactly when its first word, without
  regard to case, is one of the dangerous commands, wherever spaces stand in the line.
\<close>

theorem redis_NeedsConfirm_exact:
  "redis_NeedsConfirm (ParseArgs line) =
     (ToLower (takeWhile (\<lambda>c. \<not> is_space c) (dropWhile is_space line)) \<in> set redis_dangerous)"
proof (cases "dropWhile is_space line")
  case Nil
  then have "ParseArgs line = []" unfolding ParseArgs_def by (subst Fields.simps) (simp only: list.case)
  moreover have "ToLower [] \<notin> set redis_dangerous" by (simp add: redis_dangerous_def ToLower_def)
  ultimately show ?thesis by (simp add: redis_NeedsConfirm_def Nil)
next
  case (Cons c t)
  let ?w = "c # takeWhile (\<lambda>x. \<not> is_space x) t"
  have c: "\<not> is_space c" using Cons hd_dropWhile [of is_space line] by auto
  have "list_all (\<lambda>x. \<not> is_space x) ?w"
    using c by (auto simp: list_all_iff dest: set_takeWhileD)
  then have "TrimSpace ?w = ?w"
    unfolding TrimSpace_def
    by (metis (no_types, lifting) dropWhile_eq_self_iff hd_in_set list_all_iff rev_rev_ident set_rev)
  then show ?thesis
    using Cons c by (simp add: redis_NeedsConfirm_def ParseArgs_def Fields.simps [of line] reDangerous_match)
qed

end
