(* ===== verification/MongoDb.thy ===== *)
theory MongoDb
  imports DbSql "HOL-Library.List_Lexorder"
begin

text \<open>
  Package \<^verbatim>\<open>internal/mongodb\<close>: the list of databases, the indexes, a page of documents, and the screens of the
  command console. The driver is a parameter, and so are \<^verbatim>\<open>bson.UnmarshalExtJSON\<close> (a text to an ordered
  document or an error) and \<^verbatim>\<open>json.Unmarshal\<close> (a text to a \<open>json\<close> value, if it is one).
\<close>

section \<open>Listing\<close>

record mongo_db =
  md_Name :: string
  md_Collections :: "string list"

record mongo_index =
  mi_Name :: string
  mi_Keys :: string
  mi_Unique :: bool

definition systemDBs :: "string list" where
  "systemDBs = [''admin'', ''local'', ''config'']"

text \<open>\<^verbatim>\<open>sort.Strings\<close>: byte order.\<close>

definition sort_strings :: "string list \<Rightarrow> string list" where
  "sort_strings xs = sort_key (map code) xs"

fun db_loop :: "(string \<Rightarrow> string list result) \<Rightarrow> string list \<Rightarrow> mongo_db list result" where
  "db_loop colls [] = Inr []"
| "db_loop colls (n # ns) =
     (if n \<in> set systemDBs then db_loop colls ns
      else case colls n of
             Inl e \<Rightarrow> Inl e
           | Inr cs \<Rightarrow>
               (case db_loop colls ns of
                  Inl e \<Rightarrow> Inl e
                | Inr ds \<Rightarrow> Inr (\<lparr>md_Name = n, md_Collections = sort_strings cs\<rparr> # ds)))"

definition Databases :: "string list result \<Rightarrow> (string \<Rightarrow> string list result) \<Rightarrow> mongo_db list result" where
  "Databases names colls = (case names of Inl e \<Rightarrow> Inl e | Inr ns \<Rightarrow> db_loop colls ns)"

text \<open>A value of an index key, with the text of \<^verbatim>\<open>FormatFloat\<close> for a double and of \<^verbatim>\<open>String\<close> for the rest.\<close>

datatype raw_value = RawInt32 int | RawInt64 int | RawDouble string | RawString string | RawOther string

fun rawValStr :: "raw_value \<Rightarrow> string" where
  "rawValStr (RawInt32 i) = Itoa i"
| "rawValStr (RawInt64 i) = Itoa i"
| "rawValStr (RawDouble text) = text"
| "rawValStr (RawString s) = s"
| "rawValStr (RawOther text) = text"

text \<open>
  An index document: its name, its unique flag and its key, each missing if the field is absent or of
  another type; the key is also missing if its elements cannot be read.
\<close>

type_synonym index_doc = "string option \<times> bool option \<times> (string \<times> raw_value) list option"

definition index_row :: "index_doc \<Rightarrow> mongo_index" where
  "index_row d =
     (case d of (name, unique, key) \<Rightarrow>
       \<lparr>mi_Name = (case name of None \<Rightarrow> [] | Some n \<Rightarrow> n),
        mi_Keys = (case key of
                     None \<Rightarrow> []
                   | Some elems \<Rightarrow> Join (map (\<lambda>(k, v). k @ '': '' @ rawValStr v) elems) '', ''),
        mi_Unique = (case unique of None \<Rightarrow> False | Some u \<Rightarrow> u)\<rparr>)"

definition mongo_Indexes :: "(index_doc list \<times> go_error option) result \<Rightarrow> mongo_index list result" where
  "mongo_Indexes answer =
     (case answer of
        Inl e \<Rightarrow> Inl e
      | Inr (docs, err) \<Rightarrow> (case err of Some e \<Rightarrow> Inl e | None \<Rightarrow> Inr (map index_row docs)))"

section \<open>A page of documents\<close>

definition maxDocs :: int where "maxDocs = 1000"
definition pageDocs :: int where "pageDocs = 50"

record doc_page =
  dp_Docs :: "string list"
  dp_HasMore :: bool

type_synonym 'v doc = "(string \<times> 'v) list"

definition parseDoc :: "(string \<Rightarrow> 'v doc result) \<Rightarrow> string \<Rightarrow> 'v doc result" where
  "parseDoc unmarshal s = (if TrimSpace s = [] then Inr [] else unmarshal s)"

definition parse_opt :: "(string \<Rightarrow> 'v doc result) \<Rightarrow> string \<Rightarrow> 'v doc option result" where
  "parse_opt unmarshal s = (if TrimSpace s = [] then Inr None else map_sum id Some (unmarshal (TrimSpace s)))"

text \<open>The loop over the cursor: it stops when a document comes after the page is full.\<close>

fun page_loop :: "nat \<Rightarrow> string list \<Rightarrow> doc_page" where
  "page_loop room [] = \<lparr>dp_Docs = [], dp_HasMore = False\<rparr>"
| "page_loop 0 (_ # _) = \<lparr>dp_Docs = [], dp_HasMore = True\<rparr>"
| "page_loop (Suc room) (d # ds) = (page_loop room ds)\<lparr>dp_Docs := d # dp_Docs (page_loop room ds)\<rparr>"

text \<open>
  \<open>query\<close> answers the query with filter, sort, projection, limit and skip: the documents that the cursor
  delivers, printed, and the error that ends it, if any.
\<close>

definition Find ::
    "(string \<Rightarrow> 'v doc result) \<Rightarrow>
     ('v doc \<Rightarrow> 'v doc option \<Rightarrow> 'v doc option \<Rightarrow> int \<Rightarrow> int \<Rightarrow> (string list \<times> go_error option) result) \<Rightarrow>
     string \<Rightarrow> string \<Rightarrow> string \<Rightarrow> int \<Rightarrow> int \<Rightarrow> doc_page result" where
  "Find unmarshal query filterJSON sortJSON projJSON limit skip =
     (let limit = (if limit \<le> 0 \<or> limit > maxDocs then pageDocs else limit);
          skip = (if skip < 0 then 0 else skip)
      in case parseDoc unmarshal filterJSON of
           Inl e \<Rightarrow> Inl (''filter: '' @ e)
         | Inr flt \<Rightarrow>
             (case parse_opt unmarshal sortJSON of
                Inl e \<Rightarrow> Inl (''sort: '' @ e)
              | Inr srt \<Rightarrow>
                  (case parse_opt unmarshal projJSON of
                     Inl e \<Rightarrow> Inl (''projection: '' @ e)
                   | Inr proj \<Rightarrow>
                       (case query flt srt proj (limit + 1) skip of
                          Inl e \<Rightarrow> Inl e
                        | Inr (docs, err) \<Rightarrow>
                            (let page = page_loop (nat limit) docs
                             in case (if dp_HasMore page then None else err) of
                                  Some e \<Rightarrow> Inl e
                                | None \<Rightarrow> Inr page)))))"

section \<open>The command console\<close>

definition readAllow :: "string list" where
  "readAllow =
     [''find'', ''aggregate'', ''count'', ''distinct'', ''listcollections'', ''listindexes'', ''listdatabases'',
      ''dbstats'', ''collstats'', ''connectionstatus'', ''explain'', ''getmore'', ''ping'', ''hello'', ''ismaster'',
      ''buildinfo'', ''serverstatus'']"

definition mongo_dangerous :: "string list" where
  "mongo_dangerous =
     [''drop'', ''dropdatabase'', ''dropindexes'', ''dropconnections'', ''shutdown'', ''fsync'', ''killallsessions'',
      ''killallsessionsbypattern'', ''killop'', ''killcursors'', ''setparameter'', ''setfeaturecompatibilityversion'',
      ''replsetreconfig'', ''replsetstepdown'', ''logrotate'', ''flushrouterconfig'', ''mapreduce'', ''eval'']"

definition serverJSKeys :: "string list" where
  "serverJSKeys = [''$where'', ''$function'', ''$accumulator'']"

datatype json =
    JNull
  | JBool bool
  | JNum string
  | JStr string
  | JArr "json list"
  | JObj "(string \<times> json) list"

fun walkServerJS :: "json \<Rightarrow> bool" where
  "walkServerJS (JObj kvs) =
     list_ex (\<lambda>kv. ToLower (fst kv) \<in> set serverJSKeys \<or> walkServerJS (snd kv)) kvs"
| "walkServerJS (JArr xs) = list_ex walkServerJS xs"
| "walkServerJS _ = False"

fun UsesServerJS :: "(string \<Rightarrow> json option) \<Rightarrow> string list \<Rightarrow> bool" where
  "UsesServerJS unmarshal [] = False"
| "UsesServerJS unmarshal (d # ds) =
     (if TrimSpace d = [] then UsesServerJS unmarshal ds
      else case unmarshal d of
             None \<Rightarrow> UsesServerJS unmarshal ds
           | Some v \<Rightarrow> (if walkServerJS v then True else UsesServerJS unmarshal ds))"

definition CommandName :: "(string \<Rightarrow> 'v doc result) \<Rightarrow> string \<Rightarrow> string result" where
  "CommandName unmarshal cmdJSON =
     (case unmarshal cmdJSON of
        Inl e \<Rightarrow> Inl e
      | Inr cmd \<Rightarrow> (case cmd of [] \<Rightarrow> Inl ''empty command'' | (k, _) # _ \<Rightarrow> Inr (ToLower k)))"

definition ReadAllowed :: "string \<Rightarrow> bool" where
  "ReadAllowed name \<longleftrightarrow> name \<in> set readAllow"

definition mongo_NeedsConfirm :: "string \<Rightarrow> bool" where
  "mongo_NeedsConfirm name \<longleftrightarrow> name \<in> set mongo_dangerous"

definition RunCommand ::
    "(string \<Rightarrow> 'v doc result) \<Rightarrow> (string \<Rightarrow> 'v doc \<Rightarrow> string result) \<Rightarrow> string \<Rightarrow> string \<Rightarrow> string result" where
  "RunCommand unmarshal run db cmdJSON =
     (case unmarshal cmdJSON of
        Inl e \<Rightarrow> Inl e
      | Inr cmd \<Rightarrow> (if cmd = [] then Inl ''empty command'' else run db cmd))"

section \<open>Properties\<close>

text \<open>A key of an object at any depth.\<close>

inductive json_key :: "json \<Rightarrow> string \<Rightarrow> bool" where
  here: "(k, v) \<in> set kvs \<Longrightarrow> json_key (JObj kvs) k"
| in_obj: "(k', v) \<in> set kvs \<Longrightarrow> json_key v k \<Longrightarrow> json_key (JObj kvs) k"
| in_arr: "v \<in> set xs \<Longrightarrow> json_key v k \<Longrightarrow> json_key (JArr xs) k"

inductive_simps json_key_obj: "json_key (JObj kvs) k"
inductive_simps json_key_arr: "json_key (JArr xs) k"
inductive_simps json_key_atom: "json_key JNull k" "json_key (JBool b) k" "json_key (JNum n) k" "json_key (JStr s) k"

lemma walkServerJS_iff: "walkServerJS v \<longleftrightarrow> (\<exists>k. json_key v k \<and> ToLower k \<in> set serverJSKeys)"
proof (induction v)
  case (JObj kvs)
  have IH: "walkServerJS w \<longleftrightarrow> (\<exists>k. json_key w k \<and> ToLower k \<in> set serverJSKeys)" if "(k', w) \<in> set kvs" for k' w
    using JObj [OF that] by simp
  have ex: "(\<exists>kv\<in>set kvs. P (fst kv) \<or> Q (snd kv)) \<longleftrightarrow> (\<exists>k w. (k, w) \<in> set kvs \<and> (P k \<or> Q w))" for P Q
    by force
  show ?case
    unfolding walkServerJS.simps list_ex_iff json_key_obj
      ex [of "\<lambda>k. ToLower k \<in> set serverJSKeys" walkServerJS] using IH by blast
next
  case (JArr xs)
  then show ?case unfolding walkServerJS.simps list_ex_iff json_key_arr by blast
qed (simp_all add: json_key_atom)

lemma page_loop_eq: "page_loop room ds = \<lparr>dp_Docs = take room ds, dp_HasMore = room < length ds\<rparr>"
  by (induction room ds rule: page_loop.induct) auto

text \<open>
  C39: the screen of server-side JavaScript finds an operator at any depth of any of the documents,
  without regard to case, and reports nothing else.
\<close>

theorem UsesServerJS_exact:
  "UsesServerJS unmarshal docs =
     (\<exists>d\<in>set docs. TrimSpace d \<noteq> [] \<and>
        (\<exists>v k. unmarshal d = Some v \<and> json_key v k \<and> ToLower k \<in> {''$where'', ''$function'', ''$accumulator''}))"
proof -
  have "UsesServerJS unmarshal docs =
     (\<exists>d\<in>set docs. TrimSpace d \<noteq> [] \<and> (\<exists>v. unmarshal d = Some v \<and> walkServerJS v))"
    by (induction docs) (auto split: option.splits)
  then show ?thesis unfolding walkServerJS_iff by (auto simp: serverJSKeys_def)
qed

lemma Find_bounded:
  "case Find unmarshal query filterJSON sortJSON projJSON limit skip of
     Inl _ \<Rightarrow> True | Inr page \<Rightarrow> length (dp_Docs page) \<le> 1000"
proof -
  define lim where "lim = (if limit \<le> 0 \<or> limit > maxDocs then pageDocs else limit)"
  have "lim \<le> 1000" by (simp add: lim_def maxDocs_def pageDocs_def)
  then have "nat lim \<le> 1000" by simp
  then have page: "length (dp_Docs (page_loop (nat lim) docs)) \<le> 1000" for docs
    by (simp add: page_loop_eq)
  show ?thesis
    unfolding Find_def Let_def lim_def [symmetric]
    by (cases "parseDoc unmarshal filterJSON"; cases "parse_opt unmarshal sortJSON";
        cases "parse_opt unmarshal projJSON")
      (auto split: sum.split option.split prod.split simp: page)
qed

text \<open>The limit and the skip a page is read with: a limit that is not positive or above 1000 counts
  as 50, a negative skip as 0.\<close>

definition page_limit :: "int \<Rightarrow> nat" where
  "page_limit limit = (if limit \<in> {1..1000} then nat limit else 50)"

text \<open>
  C38: a page of documents never holds more than 1000 documents, whatever the driver delivers; and when
  the driver honours limit and skip and the filter, the sort and the projection parse, the page is, for
  every limit and skip of the request, exactly the slice of the matching documents that starts after
  \<^verbatim>\<open>skip\<close> documents (after none for a negative skip) and is \<^verbatim>\<open>limit\<close> long (50 for a limit that is
  not between 1 and 1000), and \<^verbatim>\<open>HasMore\<close> says exactly whether documents follow it.
\<close>

theorem Find_page_exact:
  assumes "parseDoc unmarshal filterJSON = Inr flt" and "parse_opt unmarshal sortJSON = Inr srt"
    and "parse_opt unmarshal projJSON = Inr proj"
    and "\<And>n k. 0 \<le> n \<Longrightarrow> 0 \<le> k \<Longrightarrow> query flt srt proj n k = Inr (take (nat n) (drop (nat k) all), None)"
  shows "Find unmarshal query filterJSON sortJSON projJSON limit skip
      = Inr \<lparr>dp_Docs = take (page_limit limit) (drop (nat skip) all),
             dp_HasMore = nat skip + page_limit limit < length all\<rparr>
    \<and> (case Find unmarshal any_query filterJSON sortJSON projJSON any_limit any_skip of
          Inl _ \<Rightarrow> True | Inr page \<Rightarrow> length (dp_Docs page) \<le> 1000)"
proof
  show "case Find unmarshal any_query filterJSON sortJSON projJSON any_limit any_skip of
          Inl _ \<Rightarrow> True | Inr page \<Rightarrow> length (dp_Docs page) \<le> 1000"
    by (rule Find_bounded)
  define lim where "lim = int (page_limit limit)"
  define sk where "sk = int (nat skip)"
  define docs where "docs = take (nat (lim + 1)) (drop (nat sk) all)"
  have eff: "(if limit \<le> 0 \<or> limit > maxDocs then pageDocs else limit) = lim" "(if skip < 0 then 0 else skip) = sk"
    and nat_eff: "nat lim = page_limit limit" "nat sk = nat skip" and pos: "0 < lim" "0 \<le> sk"
    by (auto simp: lim_def sk_def page_limit_def maxDocs_def pageDocs_def)
  have q: "query flt srt proj (lim + 1) sk = Inr (docs, None)" using assms(4) pos by (simp add: docs_def)
  have "take (nat lim) docs = take (nat lim) (drop (nat sk) all)" using pos by (simp add: docs_def min_def)
  moreover have "nat lim < length docs \<longleftrightarrow> nat sk + nat lim < length all" using pos by (simp add: docs_def) linarith
  ultimately show "Find unmarshal query filterJSON sortJSON projJSON limit skip
      = Inr \<lparr>dp_Docs = take (page_limit limit) (drop (nat skip) all),
             dp_HasMore = nat skip + page_limit limit < length all\<rparr>"
    unfolding Find_def Let_def eff by (simp add: assms(1-3) q page_loop_eq nat_eff)
qed

theorem Find_page_exact_witness:
  "Find (\<lambda>_. Inr [(''a'', True)]) (\<lambda>_ _ _ n k. Inr (take (nat n) (drop (nat k) [''1'', ''2'', ''3'', ''4'']), None)) ''{}'' [] [] 2 1
     = Inr \<lparr>dp_Docs = [''2'', ''3''], dp_HasMore = True\<rparr>
   \<and> Find (\<lambda>_. Inr [(''a'', True)]) (\<lambda>_ _ _ n k. Inr (take (nat n) (drop (nat k) (replicate 60 ''d'')), None)) ''{}'' [] [] 2000 (- 1)
     = Inr \<lparr>dp_Docs = replicate 50 ''d'', dp_HasMore = True\<rparr>"
proof -
  have sp: "TrimSpace ''{}'' \<noteq> []" "TrimSpace [] = []" by code_simp+
  show ?thesis
    using Find_page_exact [of "\<lambda>_. Inr [(''a'', True)]" "''{}''" "[(''a'', True)]" "[]" None "[]" None
        "\<lambda>_ _ _ n k. Inr (take (nat n) (drop (nat k) [''1'', ''2'', ''3'', ''4'']), None)" "[''1'', ''2'', ''3'', ''4'']" 2 1]
      Find_page_exact [of "\<lambda>_. Inr [(''a'', True)]" "''{}''" "[(''a'', True)]" "[]" None "[]" None
        "\<lambda>_ _ _ n k. Inr (take (nat n) (drop (nat k) (replicate 60 ''d'')), None)" "replicate 60 ''d''" 2000 "- 1"] sp
    by (simp add: parseDoc_def parse_opt_def page_limit_def numeral_2_eq_2)
qed

end
