(* ===== verification/Egress.thy ===== *)
theory Egress
  imports Prelude
begin

text \<open>
  \<^verbatim>\<open>internal/web/egress.go\<close>: the guard against server-side requests to local and metadata addresses. An
  address (\<^verbatim>\<open>net.IP\<close>) is its 4 or 16 bytes; \<^verbatim>\<open>net.ParseIP\<close> and the range predicates follow the standard
  library, the resolver is a parameter.
\<close>

type_synonym ip = "nat list"

section \<open>Package net\<close>

definition To4 :: "ip \<Rightarrow> ip option" where
  "To4 ip =
     (if length ip = 4 then Some ip
      else if length ip = 16 \<and> take 10 ip = replicate 10 0 \<and> ip ! 10 = 255 \<and> ip ! 11 = 255
      then Some (drop 12 ip) else None)"

definition IPv6loopback :: ip where "IPv6loopback = replicate 15 0 @ [1]"

definition IsUnspecified :: "ip \<Rightarrow> bool" where
  "IsUnspecified ip \<longleftrightarrow> (case To4 ip of Some b \<Rightarrow> b = [0, 0, 0, 0] | None \<Rightarrow> ip = replicate 16 0)"

definition IsLoopback :: "ip \<Rightarrow> bool" where
  "IsLoopback ip \<longleftrightarrow> (case To4 ip of Some b \<Rightarrow> b ! 0 = 127 | None \<Rightarrow> ip = IPv6loopback)"

definition IsMulticast :: "ip \<Rightarrow> bool" where
  "IsMulticast ip \<longleftrightarrow>
     (case To4 ip of Some b \<Rightarrow> b ! 0 div 16 = 14 | None \<Rightarrow> length ip = 16 \<and> ip ! 0 = 255)"

definition IsInterfaceLocalMulticast :: "ip \<Rightarrow> bool" where
  "IsInterfaceLocalMulticast ip \<longleftrightarrow> length ip = 16 \<and> ip ! 0 = 255 \<and> ip ! 1 mod 16 = 1"

definition IsLinkLocalMulticast :: "ip \<Rightarrow> bool" where
  "IsLinkLocalMulticast ip \<longleftrightarrow>
     (case To4 ip of
        Some b \<Rightarrow> b ! 0 = 224 \<and> b ! 1 = 0 \<and> b ! 2 = 0
      | None \<Rightarrow> length ip = 16 \<and> ip ! 0 = 255 \<and> ip ! 1 mod 16 = 2)"

definition IsLinkLocalUnicast :: "ip \<Rightarrow> bool" where
  "IsLinkLocalUnicast ip \<longleftrightarrow>
     (case To4 ip of
        Some b \<Rightarrow> b ! 0 = 169 \<and> b ! 1 = 254
      | None \<Rightarrow> length ip = 16 \<and> ip ! 0 = 254 \<and> ip ! 1 div 64 = 2)"

text \<open>A decimal byte: one to three digits, no leading zero, at most 255.\<close>

definition dec_byte :: "string \<Rightarrow> nat option" where
  "dec_byte s =
     (if s = [] \<or> length s > 3 \<or> (length s > 1 \<and> hd s = CHR ''0'') then None
      else case digits_val 0 s of
             None \<Rightarrow> None
           | Some n \<Rightarrow> (if n \<le> 255 then Some n else None))"

fun all_some :: "'a option list \<Rightarrow> 'a list option" where
  "all_some [] = Some []"
| "all_some (None # xs) = None"
| "all_some (Some x # xs) = map_option (\<lambda>ys. x # ys) (all_some xs)"

definition parse_v4 :: "string \<Rightarrow> ip option" where
  "parse_v4 s =
     (case all_some (map dec_byte (Split s CHR ''.'')) of
        Some bs \<Rightarrow> (if length bs = 4 then Some bs else None)
      | None \<Rightarrow> None)"

definition hex_nibble :: "char \<Rightarrow> nat option" where
  "hex_nibble c =
     (let k = code c in
      if 48 \<le> k \<and> k \<le> 57 then Some (k - 48)
      else if 97 \<le> k \<and> k \<le> 102 then Some (k - 87)
      else if 65 \<le> k \<and> k \<le> 70 then Some (k - 55)
      else None)"

definition hex_group :: "string \<Rightarrow> ip option" where
  "hex_group s =
     (if s = [] \<or> length s > 4 then None
      else case all_some (map hex_nibble s) of
             None \<Rightarrow> None
           | Some ds \<Rightarrow> (let n = foldl (\<lambda>a d. 16 * a + d) 0 ds in Some [n div 256, n mod 256]))"

text \<open>The groups of one side of \<^verbatim>\<open>::\<close>; the last group of the address may be a dotted IPv4 address.\<close>

fun v6_groups :: "bool \<Rightarrow> string list \<Rightarrow> ip option" where
  "v6_groups tail [] = Some []"
| "v6_groups tail [g] = (if tail \<and> CHR ''.'' \<in> set g then parse_v4 g else hex_group g)"
| "v6_groups tail (g # gs) =
     (case hex_group g of
        None \<Rightarrow> None
      | Some b \<Rightarrow> map_option (\<lambda>r. b @ r) (v6_groups tail gs))"

fun cut_ellipsis :: "string \<Rightarrow> (string \<times> string) option" where
  "cut_ellipsis (a # b # s) =
     (if a = CHR '':'' \<and> b = CHR '':'' then Some ([], s)
      else map_option (\<lambda>(l, r). (a # l, r)) (cut_ellipsis (b # s)))"
| "cut_ellipsis _ = None"

definition v6_side :: "bool \<Rightarrow> string \<Rightarrow> ip option" where
  "v6_side tail s = (if s = [] then Some [] else v6_groups tail (Split s CHR '':''))"

definition parse_v6 :: "string \<Rightarrow> ip option" where
  "parse_v6 s =
     (case cut_ellipsis s of
        None \<Rightarrow>
          (case v6_groups True (Split s CHR '':'') of
             Some b \<Rightarrow> (if length b = 16 then Some b else None)
           | None \<Rightarrow> None)
      | Some (l, r) \<Rightarrow>
          (case (v6_side False l, v6_side True r) of
             (Some a, Some b) \<Rightarrow>
               (if length a + length b \<le> 14 then Some (a @ replicate (16 - length a - length b) 0 @ b) else None)
           | _ \<Rightarrow> None))"

text \<open>\<^verbatim>\<open>net.ParseIP\<close>: the first of \<^verbatim>\<open>.\<close>, \<^verbatim>\<open>:\<close> and \<^verbatim>\<open>%\<close> decides; an IPv4 address is kept in mapped form.\<close>

definition ParseIP :: "string \<Rightarrow> ip option" where
  "ParseIP s =
     (case dropWhile (\<lambda>c. c \<notin> set ''.:%'') s of
        [] \<Rightarrow> None
      | c # _ \<Rightarrow>
          (if c = CHR ''.'' then map_option (\<lambda>b. replicate 10 0 @ [255, 255] @ b) (parse_v4 s)
           else if c = CHR '':'' then parse_v6 s
           else None))"

section \<open>The guard\<close>

definition blockedEgressIP :: "ip \<Rightarrow> bool" where
  "blockedEgressIP ip \<longleftrightarrow>
     IsLoopback ip \<or> IsLinkLocalUnicast ip \<or> IsLinkLocalMulticast ip \<or> IsInterfaceLocalMulticast ip
     \<or> IsMulticast ip \<or> IsUnspecified ip"

definition guardEgressHost ::
    "(string \<Rightarrow> ip list result) \<Rightarrow> (ip \<Rightarrow> string) \<Rightarrow> string \<Rightarrow> bool \<Rightarrow> go_error option" where
  "guardEgressHost LookupIPAddr show_ip host allowLocal =
     (if allowLocal then None
      else
        (let host = TrimSpace host in
         if host = [] then Some ''empty host''
         else
           (case (case ParseIP host of Some ip \<Rightarrow> Inr [ip] | None \<Rightarrow> LookupIPAddr host) of
              Inl e \<Rightarrow> Some (''resolve '' @ quoted_go host @ '': '' @ e)
            | Inr ips \<Rightarrow>
                (case List.find blockedEgressIP ips of
                   Some ip \<Rightarrow>
                     Some (''target '' @ quoted_go host @ '' resolves to a disallowed address ('' @ show_ip ip @
                       ''): loopback, link-local, and cloud-metadata ranges are blocked. Set DBM_ALLOW_LOCAL_TARGETS=true to override'')
                 | None \<Rightarrow> None))))"

section \<open>Properties\<close>

text \<open>The address ranges the guard is there to refuse, written out on the bytes: for IPv4
  127.0.0.0/8, 169.254.0.0/16 (with the metadata endpoint), 224.0.0.0/4 and 0.0.0.0, for an IPv4
  address mapped into IPv6 (\<^verbatim>\<open>::ffff:a.b.c.d\<close>) the same ranges, for IPv6 \<^verbatim>\<open>::\<close>, \<^verbatim>\<open>::1\<close>, \<^verbatim>\<open>fe80::/10\<close>
  and \<^verbatim>\<open>ff00::/8\<close>.\<close>

definition local_v4 :: "ip \<Rightarrow> bool" where
  "local_v4 b \<longleftrightarrow>
     length b = 4 \<and>
     (b ! 0 = 127 \<or> take 2 b = [169, 254] \<or> (224 \<le> b ! 0 \<and> b ! 0 \<le> 239) \<or> b = [0, 0, 0, 0])"

definition local_address :: "ip \<Rightarrow> bool" where
  "local_address ip \<longleftrightarrow>
     local_v4 ip
     \<or> (length ip = 16 \<and>
        (take 12 ip = replicate 10 0 @ [255, 255] \<and> local_v4 (drop 12 ip)
         \<or> ip = replicate 16 0 \<or> ip = replicate 15 0 @ [1]
         \<or> ip ! 0 = 254 \<and> 128 \<le> ip ! 1 \<and> ip ! 1 \<le> 191
         \<or> ip ! 0 = 255))"

lemma length4E:
  assumes "length b = 4"
  obtains x y z w where "b = [x, y, z, w]"
  using assms by (auto simp: numeral_eq_Suc length_Suc_conv)

lemma blocked_v4:
  assumes t: "To4 ip = Some b" and l: "length b = 4"
  shows "blockedEgressIP ip \<longleftrightarrow> local_v4 b"
proof -
  have "\<not> IsInterfaceLocalMulticast ip"
  proof
    assume il: "IsInterfaceLocalMulticast ip"
    with t have "take 10 ip = replicate 10 0" by (simp add: To4_def IsInterfaceLocalMulticast_def split: if_splits)
    then have "take 10 ip ! 0 = (0::nat)" by simp
    with il show False by (simp add: IsInterfaceLocalMulticast_def)
  qed
  moreover obtain x y z w where b: "b = [x, y, z, w]" using l by (rule length4E)
  moreover have "x div 16 = 14 \<longleftrightarrow> 224 \<le> x \<and> x \<le> 239" by linarith
  ultimately show ?thesis using t
    unfolding blockedEgressIP_def IsLoopback_def IsLinkLocalUnicast_def IsLinkLocalMulticast_def
      IsMulticast_def IsUnspecified_def local_v4_def t by auto
qed

lemma mapped_iff:
  "length ip = 16 \<Longrightarrow>
   (take 10 ip = replicate 10 0 \<and> ip ! 10 = 255 \<and> ip ! 11 = 255) \<longleftrightarrow> take 12 ip = replicate 10 0 @ [255, 255::nat]"
proof -
  assume l: "length ip = 16"
  have "take 12 ip = take 11 ip @ [ip ! 11]" using take_Suc_conv_app_nth [of 11 ip] l by simp
  moreover have "take 11 ip = take 10 ip @ [ip ! 10]" using take_Suc_conv_app_nth [of 10 ip] l by simp
  moreover have "length (take 10 ip) = 10" using l by simp
  ultimately show ?thesis by (simp add: append_eq_append_conv del: take_append)
qed

lemma blockedEgressIP_iff: "blockedEgressIP ip \<longleftrightarrow> local_address ip"
proof (cases "To4 ip")
  case (Some b)
  show ?thesis
  proof (cases "length ip = 4")
    case True
    with Some have "b = ip" by (simp add: To4_def)
    with True Some blocked_v4 [OF Some] show ?thesis by (simp add: local_address_def)
  next
    case False
    with Some have l: "length ip = 16" and b: "b = drop 12 ip"
      and m: "take 10 ip = replicate 10 0" "ip ! 10 = 255" "ip ! 11 = 255"
      by (simp_all add: To4_def split: if_splits)
    have t12: "take 12 ip = replicate 10 0 @ [255, 255]" using mapped_iff [OF l] m by simp
    have "take 10 ip ! 0 = (0::nat)" using m(1) by simp
    then have h: "ip ! 0 = 0" by simp
    have "ip \<noteq> replicate 16 0" "ip \<noteq> replicate 15 0 @ [1]" using m(2) by (auto simp: nth_append)
    with h l b t12 False blocked_v4 [OF Some] show ?thesis
      by (simp add: local_address_def) (simp add: local_v4_def)
  qed
next
  case None
  then have l4: "length ip \<noteq> 4"
    and nm: "length ip = 16 \<Longrightarrow> take 12 ip \<noteq> replicate 10 0 @ [255, 255]"
    using mapped_iff by (auto simp: To4_def split: if_splits)
  have d: "x div 64 = 2 \<longleftrightarrow> 128 \<le> x \<and> x \<le> 191" for x :: nat by auto
  have r: "length (replicate 15 (0::nat) @ [1]) = 16" "length (replicate 16 (0::nat)) = 16" by simp_all
  show ?thesis using l4 nm None r
    by (auto simp: blockedEgressIP_def IsLoopback_def IsLinkLocalUnicast_def IsLinkLocalMulticast_def
        IsInterfaceLocalMulticast_def IsMulticast_def IsUnspecified_def IPv6loopback_def local_address_def
        local_v4_def d simp del: length_replicate length_append)
qed

text \<open>C36: outside the override, a host passes the guard exactly when it is not blank and is a literal
  address outside the refused ranges, or else resolves and every address it resolves to lies outside
  them: 127.0.0.0/8, 169.254.0.0/16 with the metadata endpoint, multicast and 0.0.0.0 for IPv4, also
  when mapped into IPv6, and \<^verbatim>\<open>::\<close>, \<^verbatim>\<open>::1\<close>, \<^verbatim>\<open>fe80::/10\<close> and \<^verbatim>\<open>ff00::/8\<close> for IPv6.\<close>

theorem guardEgressHost_exact:
  "guardEgressHost LookupIPAddr show_ip host False = None \<longleftrightarrow>
     TrimSpace host \<noteq> [] \<and>
     (case ParseIP (TrimSpace host) of
        Some ip \<Rightarrow> \<not> local_address ip
      | None \<Rightarrow>
          (case LookupIPAddr (TrimSpace host) of
             Inl e \<Rightarrow> False
           | Inr ips \<Rightarrow> list_all (\<lambda>ip. \<not> local_address ip) ips))"
proof -
  have find: "List.find blockedEgressIP ips = None \<longleftrightarrow> list_all (\<lambda>ip. \<not> local_address ip) ips" for ips
    by (auto simp: find_None_iff blockedEgressIP_iff list_all_iff)
  show ?thesis
    by (auto simp: guardEgressHost_def Let_def blockedEgressIP_iff find [symmetric] split: option.splits sum.splits)
qed

end
