(* ===== verification/Clock.thy ===== *)
theory Clock
  imports Prelude "HOL-Library.List_Lexorder"
begin

text \<open>
  The part of package \<^verbatim>\<open>time\<close> that the metadata store and the audit export use: \<^verbatim>\<open>UTC().Format(time.RFC3339)\<close> and
  \<^verbatim>\<open>time.Parse(time.RFC3339, _)\<close>. A time is its number of seconds since 1970; days are counted from the first of
  January of year 1 in the proleptic Gregorian calendar, in cycles of 400, 100, 4 and 1 years.
  \<open>Format_mono\<close> is what the comparison of timestamps as texts rests on, \<open>Parse_Format\<close> what reading rows back rests on.
\<close>

section \<open>Calendar\<close>

definition leap :: "int \<Rightarrow> bool" where
  "leap y \<longleftrightarrow> y mod 4 = 0 \<and> (y mod 100 \<noteq> 0 \<or> y mod 400 = 0)"

definition month_lengths :: "bool \<Rightarrow> int list" where
  "month_lengths lp = [31, if lp then 29 else 28, 31, 30, 31, 30, 31, 31, 30, 31, 30, 31]"

text \<open>Year and day of the year of a day.\<close>

definition year_day :: "int \<Rightarrow> int \<times> int" where
  "year_day d =
     (let q = d div 146097; d = d mod 146097;
          c = d div 36524; c = c - c div 4; d = d - 36524 * c;
          f = d div 1461; d = d mod 1461;
          n = d div 365; n = n - n div 4; d = d - 365 * n
      in (400 * q + 100 * c + 4 * f + n + 1, d))"

fun month_split :: "int \<Rightarrow> int list \<Rightarrow> int \<Rightarrow> int \<times> int" where
  "month_split m [] d = (m, d + 1)"
| "month_split m (l # ls) d = (if d < l then (m, d + 1) else month_split (m + 1) ls (d - l))"

definition civil :: "int \<Rightarrow> int \<times> int \<times> int" where
  "civil d = (case year_day d of (y, yd) \<Rightarrow> (y, month_split 1 (month_lengths (leap y)) yd))"

definition days_before_year :: "int \<Rightarrow> int" where
  "days_before_year y = 365 * (y - 1) + (y - 1) div 4 - (y - 1) div 100 + (y - 1) div 400"

definition civil_days :: "int \<Rightarrow> int \<Rightarrow> int \<Rightarrow> int" where
  "civil_days y m d = days_before_year y + sum_list (take (nat (m - 1)) (month_lengths (leap y))) + d - 1"

text \<open>The first of January 1970.\<close>

definition unix_day :: int where "unix_day = 719162"

section \<open>Format and Parse\<close>

text \<open>\<^verbatim>\<open>appendInt\<close>: decimal, padded with zeros to a width.\<close>

definition appendInt :: "int \<Rightarrow> nat \<Rightarrow> string" where
  "appendInt x width =
     (let ds = nat_digits (nat \<bar>x\<bar>)
      in (if x < 0 then ''-'' else []) @ replicate (width - length ds) (CHR ''0'') @ ds)"

definition Format_RFC3339 :: "int \<Rightarrow> string" where
  "Format_RFC3339 t =
     (case civil (t div 86400 + unix_day) of
        (y, m, d) \<Rightarrow>
          (let s = t mod 86400
           in appendInt y 4 @ ''-'' @ appendInt m 2 @ ''-'' @ appendInt d 2 @ ''T''
              @ appendInt (s div 3600) 2 @ '':'' @ appendInt (s div 60 mod 60) 2 @ '':'' @ appendInt (s mod 60) 2 @ ''Z''))"

text \<open>\<^verbatim>\<open>parseUint\<close> of the strict RFC 3339 parser: a field of digits within bounds, and what follows it.\<close>

definition take_field :: "nat \<Rightarrow> int \<Rightarrow> int \<Rightarrow> string \<Rightarrow> (int \<times> string) option" where
  "take_field n lo hi s =
     (let ds = take n s; v = foldl (\<lambda>a c. 10 * a + (int (code c) - 48)) 0 ds
      in if length ds = n \<and> list_all is_digit ds \<and> lo \<le> v \<and> v \<le> hi then Some (v, drop n s) else None)"

definition take_byte :: "char \<Rightarrow> string \<Rightarrow> string option" where
  "take_byte c s = (case s of [] \<Rightarrow> None | x # r \<Rightarrow> if x = c then Some r else None)"

text \<open>A fraction of a second is skipped: times are whole seconds here.\<close>

definition skip_fraction :: "string \<Rightarrow> string" where
  "skip_fraction s =
     (case s of
        x # y # r \<Rightarrow> (if x = CHR ''.'' \<and> is_digit y then dropWhile is_digit r else s)
      | _ \<Rightarrow> s)"

definition parse_zone :: "string \<Rightarrow> int option" where
  "parse_zone s =
     (if s = ''Z'' then Some 0
      else case s of
        [] \<Rightarrow> None
      | sg # r \<Rightarrow>
          (if sg \<notin> {CHR ''+'', CHR ''-''} then None
           else Option.bind (take_field 2 0 23 r) (\<lambda>(h, r).
                Option.bind (take_byte (CHR '':'') r) (\<lambda>r.
                Option.bind (take_field 2 0 59 r) (\<lambda>(m, r).
                  if r \<noteq> [] then None
                  else Some ((if sg = CHR ''-'' then - 1 else 1) * (h * 3600 + m * 60)))))))"

text \<open>
  The strict parser that \<^verbatim>\<open>time.Parse\<close> tries first on this layout. What it refuses goes to the general parser,
  which accepts some further spellings, none of which \<^verbatim>\<open>Format\<close> writes.
\<close>

definition parseRFC3339 :: "string \<Rightarrow> int option" where
  "parseRFC3339 s =
     Option.bind (take_field 4 0 9999 s) (\<lambda>(y, s). Option.bind (take_byte (CHR ''-'') s) (\<lambda>s.
     Option.bind (take_field 2 1 12 s) (\<lambda>(m, s). Option.bind (take_byte (CHR ''-'') s) (\<lambda>s.
     Option.bind (take_field 2 1 (month_lengths (leap y) ! nat (m - 1)) s) (\<lambda>(d, s). Option.bind (take_byte (CHR ''T'') s) (\<lambda>s.
     Option.bind (take_field 2 0 23 s) (\<lambda>(hh, s). Option.bind (take_byte (CHR '':'') s) (\<lambda>s.
     Option.bind (take_field 2 0 59 s) (\<lambda>(mm, s). Option.bind (take_byte (CHR '':'') s) (\<lambda>s.
     Option.bind (take_field 2 0 59 s) (\<lambda>(ss, s). Option.bind (parse_zone (skip_fraction s)) (\<lambda>off.
       Some ((civil_days y m d - unix_day) * 86400 + hh * 3600 + mm * 60 + ss - off)))))))))))))"

text \<open>\<^verbatim>\<open>t, _ := time.Parse(...)\<close>: the zero time, the first second of year 1, when the text is no time.\<close>

definition zero_time :: int where "zero_time = - 62135596800"

definition parse_ts :: "string \<Rightarrow> int" where
  "parse_ts s = (case parseRFC3339 s of Some t \<Rightarrow> t | None \<Rightarrow> zero_time)"

section \<open>Years and days\<close>

text \<open>In terms of the cycles, the days before a year are a linear sum, and leap years end cycles.\<close>

lemma mod_top: "0 < x \<Longrightarrow> x \<le> k \<Longrightarrow> (x + k * z) mod k = 0 \<longleftrightarrow> x = k" for x k z :: int
  by (cases "x = k") simp_all

lemma div_pred: "0 < k \<Longrightarrow> y div k = (y - 1) div k + (if y mod k = 0 then 1 else 0)" for y k :: int
proof -
  assume k: "0 < k"
  have y: "y = k * (y div k) + y mod k" by simp
  show ?thesis
  proof (cases "y mod k = 0")
    case True
    with y k have "(y - 1) div k = y div k - 1" by (intro int_div_pos_eq [where r = "k - 1"]) (simp_all add: algebra_simps)
    with True show ?thesis by simp
  next
    case False
    moreover have "0 \<le> y mod k" "y mod k < k" using k by simp_all
    ultimately have "(y - 1) div k = y div k" using y by (intro int_div_pos_eq [where r = "y mod k - 1"]) auto
    with False show ?thesis by simp
  qed
qed

text \<open>A quarter of a cycle, the last one taking the odd day at the end.\<close>

lemma quarter:
  fixes r k :: int
  assumes "0 \<le> r" "r \<le> 4 * k" "0 < k" and c: "c = r div k - r div k div 4"
  shows "0 \<le> c" "c < 4" "0 \<le> r - k * c" "r - k * c \<le> k" "c \<noteq> 3 \<Longrightarrow> r - k * c < k"
proof -
  define e where "e = r div k"
  have r: "r = k * e + r mod k" "0 \<le> r mod k" "r mod k < k" using assms(3) by (simp_all add: e_def)
  have "0 \<le> e" using assms by (simp add: e_def pos_imp_zdiv_nonneg_iff)
  moreover have "e \<le> 4"
  proof (rule ccontr)
    assume "\<not> e \<le> 4"
    then have "k * 5 \<le> k * e" using assms(3) by (intro mult_left_mono) simp_all
    then show False using r assms(2,3) by linarith
  qed
  ultimately consider "e = 4" | "0 \<le> e" "e < 4" by linarith
  then have "0 \<le> c \<and> c < 4 \<and> 0 \<le> r - k * c \<and> r - k * c \<le> k \<and> (c \<noteq> 3 \<longrightarrow> r - k * c < k)"
  proof cases
    case 1
    then have "c = 3" by (simp add: c e_def)
    moreover have "0 \<le> r - k * 3" using r [unfolded 1] assms(3) by linarith
    moreover have "r - k * 3 \<le> k" using assms(2) by linarith
    ultimately show ?thesis by simp
  next
    case 2
    then have "c = e" using div_pos_pos_trivial [of e 4] by (simp add: c e_def)
    then show ?thesis using r 2 by simp
  qed
  then show "0 \<le> c" "c < 4" "0 \<le> r - k * c" "r - k * c \<le> k" "c \<noteq> 3 \<Longrightarrow> r - k * c < k" by simp_all
qed

lemma cycles:
  fixes q c f n :: int
  assumes "0 \<le> c" "c < 4" "0 \<le> f" "f < 25" "0 \<le> n" "n < 4"
  shows "days_before_year (400 * q + 100 * c + 4 * f + n + 1) = 146097 * q + 36524 * c + 1461 * f + 365 * n"
    and "leap (400 * q + 100 * c + 4 * f + n + 1) \<longleftrightarrow> n = 3 \<and> (f \<noteq> 24 \<or> c = 3)"
proof -
  let ?y = "400 * q + 100 * c + 4 * f + n"
  have "?y div 4 = 100 * q + 25 * c + f" by (rule int_div_pos_eq [where r = n]) (use assms in simp_all)
  moreover have "?y div 100 = 4 * q + c" by (rule int_div_pos_eq [where r = "4 * f + n"]) (use assms in simp_all)
  moreover have "?y div 400 = q" by (rule int_div_pos_eq [where r = "100 * c + 4 * f + n"]) (use assms in simp_all)
  ultimately show "days_before_year (?y + 1) = 146097 * q + 36524 * c + 1461 * f + 365 * n" by (simp add: days_before_year_def)
  have 4: "(?y + 1) mod 4 = 0 \<longleftrightarrow> n + 1 = 4"
    using mod_top [of "n + 1" 4 "100 * q + 25 * c + f"] assms by (simp add: algebra_simps)
  have 100: "(?y + 1) mod 100 = 0 \<longleftrightarrow> 4 * f + n + 1 = 100"
    using mod_top [of "4 * f + n + 1" 100 "4 * q + c"] assms by (simp add: algebra_simps)
  have 400: "(?y + 1) mod 400 = 0 \<longleftrightarrow> 100 * c + 4 * f + n + 1 = 400"
    using mod_top [of "100 * c + 4 * f + n + 1" 400 q] assms by (simp add: algebra_simps)
  show "leap (?y + 1) \<longleftrightarrow> n = 3 \<and> (f \<noteq> 24 \<or> c = 3)" unfolding leap_def 4 100 400 using assms by auto
qed

definition year_length :: "int \<Rightarrow> int" where
  "year_length y = (if leap y then 366 else 365)"

lemma leap_count:
  "(C \<longrightarrow> B) \<Longrightarrow> (B \<longrightarrow> A) \<Longrightarrow>
     (if A \<and> (\<not> B \<or> C) then 366 else 365 :: int) = 365 + (if A then 1 else 0) - (if B then 1 else 0) + (if C then 1 else 0)"
  by (cases A; cases B; cases C) simp_all

lemma year_sum:
  "a' = a + A \<Longrightarrow> b' = b + B \<Longrightarrow> c' = c + C \<Longrightarrow> l = 365 + A - B + C
     \<Longrightarrow> 365 * y + a' - b' + c' = 365 * (y - 1) + a - b + c + l" for a b c y :: int
  by simp

lemma days_before_next: "days_before_year (y + 1) = days_before_year y + year_length y"
proof -
  have "y mod 400 mod 100 = y mod 100" "y mod 100 mod 4 = y mod 4" by (rule mod_mod_cancel, simp)+
  then have "y mod 400 = 0 \<longrightarrow> y mod 100 = 0" "y mod 100 = 0 \<longrightarrow> y mod 4 = 0" by (metis mod_0)+
  note count = leap_count [OF this]
  show ?thesis
    unfolding days_before_year_def year_length_def leap_def add_diff_cancel_right'
    by (rule year_sum [OF div_pred div_pred div_pred count]) (rule zero_less_numeral)+
qed

lemma days_before_mono: "y < z \<Longrightarrow> days_before_year y + year_length y \<le> days_before_year z"
proof (induction z rule: int_gr_induct)
  case (step z)
  then show ?case using days_before_next [of z] by (auto simp: year_length_def split: if_splits)
qed (simp add: days_before_next)

lemma year_day_spec:
  assumes "year_day d = (y, yd)"
  shows "d = days_before_year y + yd" "0 \<le> yd" "yd < year_length y"
proof -
  define q r where "q = d div 146097" and "r = d mod 146097"
  define c where "c = r div 36524 - r div 36524 div 4"
  define r1 where "r1 = r - 36524 * c"
  define f r2 where "f = r1 div 1461" and "r2 = r1 mod 1461"
  define n where "n = r2 div 365 - r2 div 365 div 4"
  have d: "d = 146097 * q + r" "0 \<le> r" "r < 146097" unfolding q_def r_def by (simp_all add: algebra_simps)
  have "r \<le> 4 * 36524" using d(3) by linarith
  note c = quarter [OF d(2) this zero_less_numeral c_def, folded r1_def]
  have f: "r1 = 1461 * f + r2" "0 \<le> r2" "r2 < 1461" "0 \<le> f" "f < 25"
    using c(3) zdiv_mono1 [OF c(4), of 1461] by (simp_all add: f_def r2_def pos_imp_zdiv_nonneg_iff)
  have "r2 \<le> 4 * 365" using f(3) by linarith
  note n = quarter [OF f(2) this zero_less_numeral n_def]
  have "year_day d = (400 * q + 100 * c + 4 * f + n + 1, r2 - 365 * n)"
    unfolding year_day_def Let_def q_def r_def c_def r1_def f_def r2_def n_def by (rule refl)
  with assms have y: "y = 400 * q + 100 * c + 4 * f + n + 1" "yd = r2 - 365 * n" by simp_all
  note cyc = cycles [OF c(1,2) f(4,5) n(1,2), of q]
  show "d = days_before_year y + yd" unfolding y cyc(1) using d(1) f(1) by (simp add: r1_def)
  show "0 \<le> yd" using n(3) y(2) by simp
  show "yd < year_length y"
    unfolding year_length_def y cyc(2) using n c(5) f(1,5) by (cases "n = 3"; cases "f = 24"; cases "c = 3") simp_all
qed

lemma year_day_mono:
  assumes "d < d'" and "year_day d = (y, yd)" and "year_day d' = (y', yd')"
  shows "y < y' \<or> y = y' \<and> yd < yd'"
proof (rule ccontr)
  assume "\<not> ?thesis"
  then have "y' < y \<or> y = y' \<and> yd' \<le> yd" by auto
  then show False
    using assms(1) year_day_spec [OF assms(2)] year_day_spec [OF assms(3)] days_before_mono [of y' y] by fastforce
qed

section \<open>Months\<close>

lemma month_split_ge: "m \<le> fst (month_split m ls d)"
  by (induction m ls d rule: month_split.induct) auto

lemma month_split_mono:
  "d < e \<Longrightarrow> month_split m ls d = (k, a) \<Longrightarrow> month_split m ls e = (k', a') \<Longrightarrow> k < k' \<or> k = k' \<and> a < a'"
proof (induction m ls d arbitrary: e rule: month_split.induct)
  case (2 m l ls d)
  show ?case
  proof (cases "d < l \<and> \<not> e < l")
    case True
    then have "k = m" "m + 1 \<le> k'" using 2(3,4) month_split_ge [of "m + 1" ls "e - l"] by simp_all
    then show ?thesis by simp
  next
    case False
    then show ?thesis using 2(2,3,4) 2(1) [of "e - l"] by (cases "d < l") auto
  qed
qed auto

lemma month_split_spec:
  assumes "month_split m ls d = (k, a)" and "0 \<le> d" and "d < sum_list ls"
  shows "\<exists>i<length ls. k = m + int i \<and> 1 \<le> a \<and> a \<le> ls ! i \<and> d = sum_list (take i ls) + a - 1"
  using assms
proof (induction m ls d rule: month_split.induct)
  case (2 m l ls d)
  show ?case
  proof (cases "d < l")
    case True
    with 2(2,3) show ?thesis by (intro exI [of _ 0]) auto
  next
    case False
    with 2 obtain i where "i < length ls" "k = m + 1 + int i" "1 \<le> a" "a \<le> ls ! i" "d - l = sum_list (take i ls) + a - 1"
      by auto
    then show ?thesis by (intro exI [of _ "Suc i"]) auto
  qed
qed simp

lemma sum_month_lengths: "sum_list (month_lengths (leap y)) = year_length y"
  by (simp add: month_lengths_def year_length_def)

lemma month_lengths_bound: "i < 12 \<Longrightarrow> month_lengths lp ! i \<le> 31"
  by (auto simp: month_lengths_def less_Suc_eq numeral_eq_Suc)

lemma civil_spec:
  assumes "civil n = (y, m, d)"
  shows "1 \<le> m" "m \<le> 12" "1 \<le> d" "d \<le> month_lengths (leap y) ! nat (m - 1)" "d \<le> 31" "n = civil_days y m d"
proof -
  obtain yd where yd: "year_day n = (y, yd)" "month_split 1 (month_lengths (leap y)) yd = (m, d)"
    using assms by (auto simp: civil_def split: prod.splits)
  note spec = year_day_spec [OF yd(1)]
  have "length (month_lengths (leap y)) = 12" by (simp add: month_lengths_def)
  then obtain i where "i < 12" "m = 1 + int i" "1 \<le> d" "d \<le> month_lengths (leap y) ! i"
    "yd = sum_list (take i (month_lengths (leap y))) + d - 1"
    using month_split_spec [OF yd(2) spec(2)] spec(3) sum_month_lengths by metis
  with spec(1) month_lengths_bound [of i "leap y"]
  show "1 \<le> m" "m \<le> 12" "1 \<le> d" "d \<le> month_lengths (leap y) ! nat (m - 1)" "d \<le> 31" "n = civil_days y m d"
    by (simp_all add: civil_days_def)
qed

lemma civil_mono:
  assumes "n < n'" and "civil n = (y, m, d)" and "civil n' = (y', m', d')"
  shows "y < y' \<or> y = y' \<and> (m < m' \<or> m = m' \<and> d < d')"
proof -
  obtain yd yd' where yd: "year_day n = (y, yd)" "month_split 1 (month_lengths (leap y)) yd = (m, d)"
    "year_day n' = (y', yd')" "month_split 1 (month_lengths (leap y')) yd' = (m', d')"
    using assms(2,3) by (auto simp: civil_def split: prod.splits)
  from year_day_mono [OF assms(1) yd(1,3)] month_split_mono [OF _ yd(2)] yd(4) show ?thesis by blast
qed

section \<open>Digits of a fixed width\<close>

fun fixed :: "nat \<Rightarrow> nat \<Rightarrow> string" where
  "fixed 0 v = []"
| "fixed (Suc w) v = char_of (48 + v div 10 ^ w) # fixed w (v mod 10 ^ w)"

lemma fixed_snoc: "v < 10 ^ Suc w \<Longrightarrow> fixed (Suc w) v = fixed w (v div 10) @ [char_of (48 + v mod 10)]"
proof (induction w arbitrary: v)
  case (Suc w)
  have "v mod 10 ^ Suc w < 10 ^ Suc w" by simp
  note IH = Suc.IH [OF this]
  have "v mod 10 ^ Suc w div 10 = v div 10 mod 10 ^ w" "v mod 10 ^ Suc w mod 10 = v mod 10" "v div 10 div 10 ^ w = v div 10 ^ Suc w"
    by (simp_all add: mod_mult2_eq div_mult2_eq mod_mod_cancel)
  with IH show ?case by (simp del: power_Suc)
qed simp

lemma fixed_zero: "fixed w 0 = replicate w (CHR ''0'')"
  by (induction w) (simp_all add: digit_chars)

lemma fixed_digits: "v < 10 ^ w \<Longrightarrow> 0 < w \<Longrightarrow> replicate (w - length (nat_digits v)) (CHR ''0'') @ nat_digits v = fixed w v"
proof (induction w arbitrary: v)
  case (Suc w)
  show ?case
  proof (cases "v < 10")
    case True
    then show ?thesis using fixed_snoc [OF Suc.prems(1)] by (simp add: nat_digits.simps [of v] fixed_zero del: fixed.simps)
  next
    case False
    then have "v div 10 < 10 ^ w" "0 < w" using Suc.prems(1) by (auto intro: gr0I)
    from Suc.IH [OF this] False fixed_snoc [OF Suc.prems(1)] show ?thesis
      by (simp add: nat_digits.simps [of v] del: fixed.simps)
  qed
qed simp

lemma appendInt_fixed: "0 \<le> x \<Longrightarrow> nat x < 10 ^ w \<Longrightarrow> 0 < w \<Longrightarrow> appendInt x w = fixed w (nat x)"
  using fixed_digits [of "nat x" w] by (simp add: appendInt_def Let_def)

lemma length_fixed [simp]: "length (fixed w v) = w"
  by (induction w arbitrary: v) simp_all

lemma fixed_less: "u < v \<Longrightarrow> v < 10 ^ w \<Longrightarrow> map code (fixed w u) < map code (fixed w v)"
proof (induction w arbitrary: u v)
  case (Suc w)
  have d: "u div 10 ^ w < 10" "v div 10 ^ w < 10" using Suc.prems by (simp_all add: less_mult_imp_div_less mult.commute)
  show ?case
  proof (cases "u div 10 ^ w = v div 10 ^ w")
    case True
    moreover have "u mod 10 ^ w < v mod 10 ^ w"
      using Suc.prems(1) True by (metis add_less_cancel_left div_mult_mod_eq)
    ultimately show ?thesis using Suc.IH by simp
  next
    case False
    moreover have "u div 10 ^ w \<le> v div 10 ^ w" using Suc.prems(1) by (simp add: div_le_mono)
    ultimately show ?thesis using d by (simp add: code_char_of)
  qed
qed simp

lemma append_less:
  "length xs = length ys \<Longrightarrow> xs < ys \<or> xs = ys \<and> us < vs \<Longrightarrow> xs @ us < ys @ vs" for xs :: "nat list"
  by (induction xs ys rule: list_induct2) auto

section \<open>The layout\<close>

fun render_fields :: "(nat \<times> char) list \<Rightarrow> nat list \<Rightarrow> string" where
  "render_fields ((w, sep) # ws) (v # vs) = fixed w v @ sep # render_fields ws vs"
| "render_fields _ _ = []"

lemma render_fields_less:
  assumes "vs < vs'" and "list_all2 (\<lambda>(w, sep) v. v < 10 ^ w) ws vs" and "list_all2 (\<lambda>(w, sep) v. v < 10 ^ w) ws vs'"
  shows "map code (render_fields ws vs) < map code (render_fields ws vs')"
  using assms
proof (induction ws vs arbitrary: vs' rule: render_fields.induct)
  case (1 w sep ws v vs)
  then obtain v' us where vs': "vs' = v' # us" by (auto simp: list_all2_Cons1)
  with 1 fixed_less [of v v' w] show ?case by (auto intro!: append_less)
qed auto

definition layout :: "(nat \<times> char) list" where
  "layout = [(4, CHR ''-''), (2, CHR ''-''), (2, CHR ''T''), (2, CHR '':''), (2, CHR '':''), (2, CHR ''Z'')]"

definition time_fields :: "int \<Rightarrow> nat list" where
  "time_fields t =
     (case civil (t div 86400 + unix_day) of
        (y, m, d) \<Rightarrow> (let s = t mod 86400 in map nat [y, m, d, s div 3600, s div 60 mod 60, s mod 60]))"

text \<open>The years 0 to 9999.\<close>

definition four_digit_year :: "int \<Rightarrow> bool" where
  "four_digit_year t \<longleftrightarrow> - 62167219200 \<le> t \<and> t < 253402300800"

lemma clock_fields:
  fixes s :: int
  assumes "0 \<le> s" "s < 86400"
  shows "s = 3600 * (s div 3600) + 60 * (s div 60 mod 60) + s mod 60" "0 \<le> s div 3600" "s div 3600 < 24"
    "0 \<le> s div 60 mod 60" "s div 60 mod 60 < 60" "0 \<le> s mod 60" "s mod 60 < 60"
proof -
  have "s div 60 div 60 = s div 3600" by (simp add: zdiv_zmult2_eq [symmetric])
  then show "s = 3600 * (s div 3600) + 60 * (s div 60 mod 60) + s mod 60"
    using mult_div_mod_eq [of 60 s] mult_div_mod_eq [of 60 "s div 60"] by (simp only:)
  show "s div 3600 < 24" using assms by (simp add: div_less_iff_less_mult)
qed (use assms in \<open>simp_all add: pos_imp_zdiv_nonneg_iff\<close>)

lemma lex_sum:
  fixes a b c a' b' c' :: int
  assumes "3600 * a + 60 * b + c < 3600 * a' + 60 * b' + c'"
    and "0 \<le> b" "0 \<le> c" "b' < 60" "c' < 60"
  shows "a < a' \<or> a = a' \<and> (b < b' \<or> b = b' \<and> c < c')"
  using assms by auto

lemma clock_mono:
  fixes s s' :: int
  assumes "s < s'" "0 \<le> s" "s' < 86400"
  shows "s div 3600 < s' div 3600 \<or> s div 3600 = s' div 3600 \<and>
    (s div 60 mod 60 < s' div 60 mod 60 \<or> s div 60 mod 60 = s' div 60 mod 60 \<and> s mod 60 < s' mod 60)"
proof -
  have "s < 86400" "0 \<le> s'" using assms by simp_all
  note f = clock_fields [OF assms(2) this(1)] and f' = clock_fields [OF this(2) assms(3)]
  show ?thesis by (rule lex_sum [OF _ f(4,6) f'(5,7)]) (use assms(1) in \<open>simp only: f(1) [symmetric] f'(1) [symmetric]\<close>)
qed

lemma year_range:
  assumes "four_digit_year t" and "civil (t div 86400 + unix_day) = (y, m, d)"
  shows "0 \<le> y" "y \<le> 9999"
proof -
  let ?n = "t div 86400 + unix_day"
  obtain yd where "year_day ?n = (y, yd)" using assms(2) by (auto simp: civil_def split: prod.splits)
  note n = year_day_spec [OF this]
  have "- 719528 \<le> t div 86400" "t div 86400 \<le> 2932896"
    using assms(1) zdiv_mono1 [of "- 62167219200" t 86400] zdiv_mono1 [of t 253402300799 86400]
    by (simp_all add: four_digit_year_def)
  then have lo: "- 366 \<le> ?n" and hi: "?n < 3652059" by (simp_all add: unix_day_def)
  have years: "days_before_year 0 = - 366" "days_before_year 10000 = 3652059" by code_simp+
  show "0 \<le> y" using lo n days_before_mono [of y 0] years(1) by linarith
  show "y \<le> 9999"
  proof (rule ccontr)
    assume "\<not> y \<le> 9999"
    then have "days_before_year 10000 \<le> days_before_year y"
      using days_before_mono [of 10000 y] by (cases "y = 10000") (auto simp: year_length_def split: if_splits)
    then show False using hi n years(2) by linarith
  qed
qed

text \<open>The fields of a time with their bounds, in terms of variables.\<close>

lemma time_fields_cases:
  assumes "four_digit_year t"
  obtains y m d h k s where "civil (t div 86400 + unix_day) = (y, m, d)"
    "t mod 86400 div 3600 = h" "t mod 86400 div 60 mod 60 = k" "t mod 86400 mod 60 = s"
    "t = 86400 * (t div 86400) + (3600 * h + 60 * k + s)" "time_fields t = map nat [y, m, d, h, k, s]"
    "0 \<le> y" "y \<le> 9999" "1 \<le> m" "m \<le> 12" "1 \<le> d" "d \<le> 31" "0 \<le> h" "h < 24" "0 \<le> k" "k < 60" "0 \<le> s" "s < 60"
proof -
  obtain y m d where ymd: "civil (t div 86400 + unix_day) = (y, m, d)" by (metis prod_cases3)
  have "0 \<le> t mod 86400" "t mod 86400 < 86400" by simp_all
  note hms = clock_fields [OF this]
  show thesis
    by (rule that [OF ymd refl refl refl _ _ year_range [OF assms ymd] civil_spec(1,2,3,5) [OF ymd] hms(2-7)])
       (simp_all only: hms(1) [symmetric] mult_div_mod_eq time_fields_def ymd prod.case Let_def)
qed

lemma time_fields_ok:
  assumes "four_digit_year t"
  shows "list_all2 (\<lambda>(w, sep) v. v < 10 ^ w) layout (time_fields t)" "Format_RFC3339 t = render_fields layout (time_fields t)"
proof -
  obtain y m d h k s where ymd: "civil (t div 86400 + unix_day) = (y, m, d)"
    and hms: "t mod 86400 div 3600 = h" "t mod 86400 div 60 mod 60 = k" "t mod 86400 mod 60 = s"
    and f: "time_fields t = map nat [y, m, d, h, k, s]"
    and b: "0 \<le> y" "y \<le> 9999" "1 \<le> m" "m \<le> 12" "1 \<le> d" "d \<le> 31" "0 \<le> h" "h < 24" "0 \<le> k" "k < 60" "0 \<le> s" "s < 60"
    using time_fields_cases [OF assms] by metis
  show "list_all2 (\<lambda>(w, sep) v. v < 10 ^ w) layout (time_fields t)" unfolding f layout_def using b by auto
  have "appendInt y 4 = fixed 4 (nat y)" by (rule appendInt_fixed) (use b in simp_all)
  moreover have "appendInt v 2 = fixed 2 (nat v)" if "0 \<le> v" "v < 60" for v by (rule appendInt_fixed) (use that in simp_all)
  ultimately show "Format_RFC3339 t = render_fields layout (time_fields t)"
    unfolding f Format_RFC3339_def ymd prod.case Let_def hms layout_def using b by (simp del: fixed.simps)
qed

lemma day_sum:
  fixes a a' r r' :: int
  assumes "86400 * a + r < 86400 * a' + r'" and "0 \<le> r" "r' < 86400"
  shows "a < a' \<or> a = a' \<and> r < r'"
  using assms by auto

lemma time_fields_less:
  assumes "t < t'" and "four_digit_year t" "four_digit_year t'"
  shows "time_fields t < time_fields t'"
proof -
  obtain y m d h k s where ymd: "civil (t div 86400 + unix_day) = (y, m, d)"
    and t: "t = 86400 * (t div 86400) + (3600 * h + 60 * k + s)" and f: "time_fields t = map nat [y, m, d, h, k, s]"
    and b: "0 \<le> y" "1 \<le> m" "1 \<le> d" "0 \<le> h" "h < 24" "0 \<le> k" "k < 60" "0 \<le> s" "s < 60"
    using time_fields_cases [OF assms(2)] by metis
  obtain y' m' d' h' k' s' where ymd': "civil (t' div 86400 + unix_day) = (y', m', d')"
    and t': "t' = 86400 * (t' div 86400) + (3600 * h' + 60 * k' + s')" and f': "time_fields t' = map nat [y', m', d', h', k', s']"
    and b': "0 \<le> y'" "1 \<le> m'" "1 \<le> d'" "0 \<le> h'" "h' < 24" "0 \<le> k'" "k' < 60" "0 \<le> s'" "s' < 60"
    using time_fields_cases [OF assms(3)] by metis
  have "t div 86400 < t' div 86400 \<or> t div 86400 = t' div 86400 \<and> 3600 * h + 60 * k + s < 3600 * h' + 60 * k' + s'"
  proof (rule day_sum)
    show "86400 * (t div 86400) + (3600 * h + 60 * k + s) < 86400 * (t' div 86400) + (3600 * h' + 60 * k' + s')"
      using assms(1) by (simp only: t [symmetric] t' [symmetric])
  qed (use b b' in simp_all)
  then have "y < y' \<or> y = y' \<and> (m < m' \<or> m = m' \<and> (d < d' \<or> d = d' \<and>
      (h < h' \<or> h = h' \<and> (k < k' \<or> k = k' \<and> s < s'))))"
    using civil_mono [OF _ ymd ymd'] ymd ymd' lex_sum [of h k s h' k' s'] b b' by auto
  then show ?thesis unfolding f f' using b b' by auto
qed

lemma Format_mono:
  assumes "four_digit_year t" "four_digit_year t'"
  shows "map code (Format_RFC3339 t) < map code (Format_RFC3339 t') \<longleftrightarrow> t < t'"
proof -
  have less: "map code (Format_RFC3339 a) < map code (Format_RFC3339 b)" if "a < b" "four_digit_year a" "four_digit_year b" for a b
    using render_fields_less [OF time_fields_less [OF that] time_fields_ok(1) [OF that(2)] time_fields_ok(1) [OF that(3)]]
      time_fields_ok(2) that by simp
  show ?thesis using less [OF _ assms] less [OF _ assms(2,1)] by (cases t t' rule: linorder_cases) auto
qed

section \<open>Reading a time back\<close>

lemma fixed_is_digit: "v < 10 ^ w \<Longrightarrow> list_all is_digit (fixed w v)"
proof (induction w arbitrary: v)
  case (Suc w)
  then have "v div 10 ^ w < 10" by (simp add: less_mult_imp_div_less mult.commute)
  with Suc.IH [of "v mod 10 ^ w"] show ?case by (simp add: is_digit_def code_char_of)
qed simp

lemma fixed_value: "v < 10 ^ w \<Longrightarrow> foldl (\<lambda>a c. 10 * a + (int (code c) - 48)) b (fixed w v) = b * 10 ^ w + int v"
proof (induction w arbitrary: v b)
  case (Suc w)
  then have "v div 10 ^ w < 10" by (simp add: less_mult_imp_div_less mult.commute)
  moreover have "int v = int (v div 10 ^ w) * 10 ^ w + int (v mod 10 ^ w)"
    using arg_cong [OF div_mult_mod_eq [of v "10 ^ w"], of int, symmetric] by (simp only: of_nat_add of_nat_mult of_nat_power of_nat_numeral)
  moreover have "v mod 10 ^ w < 10 ^ w" by simp
  ultimately show ?case by (simp add: Suc.IH code_char_of distrib_right mult.assoc)
qed simp

lemma take_field_fixed:
  assumes "v < 10 ^ w" and "lo \<le> int v" "int v \<le> hi"
  shows "take_field w lo hi (fixed w v @ r) = Some (int v, r)"
  using assms fixed_is_digit [OF assms(1)] fixed_value [OF assms(1), of 0] by (simp add: take_field_def del: fixed.simps)

lemma take_byte_Cons [simp]: "take_byte c (c # r) = Some r"
  by (simp add: take_byte_def)

lemma Parse_Format:
  assumes "four_digit_year t"
  shows "parseRFC3339 (Format_RFC3339 t) = Some t"
proof -
  obtain y m d h k s where ymd: "civil (t div 86400 + unix_day) = (y, m, d)"
    and t: "t = 86400 * (t div 86400) + (3600 * h + 60 * k + s)" and f: "time_fields t = map nat [y, m, d, h, k, s]"
    and b: "0 \<le> y" "y \<le> 9999" "1 \<le> m" "m \<le> 12" "1 \<le> d" "d \<le> 31" "0 \<le> h" "h < 24" "0 \<le> k" "k < 60" "0 \<le> s" "s < 60"
    using time_fields_cases [OF assms] by metis
  note md = civil_spec [OF ymd]
  have four: "take_field 4 lo hi (fixed 4 (nat y) @ r) = Some (y, r)" if "lo \<le> y" "y \<le> hi" for lo hi r
    using take_field_fixed [of "nat y" 4 lo hi r] that b by simp
  have two: "take_field 2 lo hi (fixed 2 (nat v) @ r) = Some (v, r)" if "lo \<le> v" "v \<le> hi" "0 \<le> v" "v < 60" for v lo hi r
    using take_field_fixed [of "nat v" 2 lo hi r] that by simp
  have "parse_zone (skip_fraction ''Z'') = Some 0" by (simp add: skip_fraction_def parse_zone_def)
  moreover have "(civil_days y m d - unix_day) * 86400 + h * 3600 + k * 60 + s = t"
    unfolding md(6) [symmetric] using t by simp
  ultimately show ?thesis
    unfolding time_fields_ok(2) [OF assms] f parseRFC3339_def layout_def
    using b md(4) by (simp add: four two del: fixed.simps)
qed

lemma parse_ts_Format: "four_digit_year t \<Longrightarrow> parse_ts (Format_RFC3339 t) = t"
  by (simp add: parse_ts_def Parse_Format)

end
