(* ===== verification/Rows.thy ===== *)
theory Rows
  imports Store Clock
begin

text \<open>
  What \<^verbatim>\<open>internal/store/store.go\<close> exchanges with its database: the statement and the arguments of every call, the
  rows as the database keeps them (times as RFC 3339 texts, flags as 0 and 1), the scan functions, and the
  schema of \<^verbatim>\<open>migrate\<close>. \<open>Store\<close> works with times and flags instead; \<open>load\<close> reads the rows back, and the refinement
  shows that the statements on the rows do what the operations of \<open>Store\<close> say. In particular the purge compares
  timestamps as texts.
\<close>

section \<open>Statements\<close>

datatype sql_arg = ArgInt int | ArgText string

definition boolToInt :: "bool \<Rightarrow> int" where
  "boolToInt b = (if b then 1 else 0)"

datatype store_call =
    CListConnections
  | CGetConnection int
  | CCreateConnection int connection
  | CUpdateConnection connection bool
  | CUpdatePasswordEnc int string
  | CDeleteConnection int
  | CAddAudit int audit_row
  | CPurgeAudit int
  | CIterAudit
  | CListAudit int
  | CListGrants int
  | CSetGrant int grant
  | CDeleteGrant int int
  | CGrantForSubjects int "string list"
  | CListConnectionsForSubjects "string list"

definition conn_columns :: string where
  "conn_columns = ''id,name,kind,host,port,dbname,username,password_enc,options,readonly,created_by,created_at''"

definition audit_columns :: string where
  "audit_columns = ''ts,'' @ [DQ] @ ''user'' @ [DQ] @ '',conn_id,action,detail,success''"

definition grant_columns :: string where
  "grant_columns = ''id,conn_id,subject,level,created_by,created_at''"

definition set_columns :: "connection \<Rightarrow> sql_arg list" where
  "set_columns c = [ArgText (cn_Name c), ArgText (cn_Kind c), ArgText (cn_Host c), ArgInt (cn_Port c), ArgText (cn_DBName c),
     ArgText (cn_Username c)]"

text \<open>Continuation lines of a statement start with a line feed and two tabs.\<close>

definition cont :: string where "cont = [NL, TAB, TAB] @ '' ''"

fun sql_of :: "store_call \<Rightarrow> string \<times> sql_arg list" where
  "sql_of CListConnections = (''SELECT '' @ conn_columns @ '' FROM connections ORDER BY kind,name'', [])"
| "sql_of (CGetConnection i) = (''SELECT '' @ conn_columns @ '' FROM connections WHERE id=?'', [ArgInt i])"
| "sql_of (CCreateConnection now c) =
     (''INSERT INTO connections (name,kind,host,port,dbname,username,password_enc,options,readonly,created_by,created_at)'' @ cont
        @ ''VALUES (?,?,?,?,?,?,?,?,?,?,?) RETURNING id'',
      set_columns c @ [ArgText (cn_PasswordEnc c), ArgText (cn_Options c), ArgInt (boolToInt (cn_ReadOnly c)),
        ArgText (cn_CreatedBy c), ArgText (Format_RFC3339 now)])"
| "sql_of (CUpdateConnection c True) =
     (''UPDATE connections SET name=?,kind=?,host=?,port=?,dbname=?,username=?,password_enc=?,options=?,readonly=? WHERE id=?'',
      set_columns c @ [ArgText (cn_PasswordEnc c), ArgText (cn_Options c), ArgInt (boolToInt (cn_ReadOnly c)), ArgInt (cn_ID c)])"
| "sql_of (CUpdateConnection c False) =
     (''UPDATE connections SET name=?,kind=?,host=?,port=?,dbname=?,username=?,options=?,readonly=? WHERE id=?'',
      set_columns c @ [ArgText (cn_Options c), ArgInt (boolToInt (cn_ReadOnly c)), ArgInt (cn_ID c)])"
| "sql_of (CUpdatePasswordEnc i enc) = (''UPDATE connections SET password_enc=? WHERE id=?'', [ArgText enc, ArgInt i])"
| "sql_of (CDeleteConnection i) = (''DELETE FROM connections WHERE id=?'', [ArgInt i])"
| "sql_of (CAddAudit now a) =
     (''INSERT INTO audit ('' @ audit_columns @ '') VALUES (?,?,?,?,?,?)'',
      [ArgText (Format_RFC3339 now), ArgText (a_User a), ArgInt (a_ConnID a), ArgText (a_Action a), ArgText (a_Detail a),
       ArgInt (boolToInt (a_Success a))])"
| "sql_of (CPurgeAudit cutoff) = (''DELETE FROM audit WHERE ts < ?'', [ArgText (Format_RFC3339 cutoff)])"
| "sql_of CIterAudit = (''SELECT id,'' @ audit_columns @ '' FROM audit ORDER BY id'', [])"
| "sql_of (CListAudit limit) = (''SELECT id,'' @ audit_columns @ '' FROM audit ORDER BY id DESC LIMIT ?'', [ArgInt limit])"
| "sql_of (CListGrants connID) =
     (''SELECT '' @ grant_columns @ '' FROM connection_grants WHERE conn_id=? ORDER BY subject'', [ArgInt connID])"
| "sql_of (CSetGrant now g) =
     (''INSERT INTO connection_grants (conn_id,subject,level,created_by,created_at)'' @ cont @ ''VALUES (?,?,?,?,?)'' @ cont
        @ ''ON CONFLICT(conn_id,subject) DO UPDATE SET level=excluded.level, created_by=excluded.created_by, created_at=excluded.created_at'',
      [ArgInt (g_ConnID g), ArgText (g_Subject g), ArgText (g_Level g), ArgText (g_CreatedBy g), ArgText (Format_RFC3339 now)])"
| "sql_of (CDeleteGrant connID i) = (''DELETE FROM connection_grants WHERE id=? AND conn_id=?'', [ArgInt i, ArgInt connID])"
| "sql_of (CGrantForSubjects connID subjects) =
     (case placeholders subjects [ArgInt connID] ArgText of
        (ph, args) \<Rightarrow>
          (''SELECT '' @ grant_columns @ '' FROM connection_grants'' @ cont @ ''WHERE conn_id=? AND subject IN ('' @ ph @ '')'', args))"
| "sql_of (CListConnectionsForSubjects subjects) =
     (case placeholders subjects [] ArgText of
        (ph, args) \<Rightarrow>
          (''SELECT DISTINCT c.id,c.name,c.kind,c.host,c.port,c.dbname,c.username,c.password_enc,c.options,c.readonly,c.created_by,c.created_at''
             @ cont @ ''FROM connections c JOIN connection_grants g ON g.conn_id=c.id'' @ cont
             @ ''WHERE g.subject IN ('' @ ph @ '') ORDER BY c.kind,c.name'', args))"

text \<open>\<^verbatim>\<open>exec\<close>, \<^verbatim>\<open>query\<close> and \<^verbatim>\<open>queryRow\<close>: the text that reaches the driver.\<close>

definition sent_sql :: "string \<Rightarrow> store_call \<Rightarrow> string \<times> sql_arg list" where
  "sent_sql driver call = (case sql_of call of (q, args) \<Rightarrow> (rebind driver q, args))"

text \<open>The reference for \<^verbatim>\<open>rebind\<close>: number the gaps between the pieces.\<close>

fun numbered :: "nat \<Rightarrow> string list \<Rightarrow> string" where
  "numbered n [] = []"
| "numbered n [p] = p"
| "numbered n (p # ps) = p @ ''$'' @ Itoa (int (Suc n)) @ numbered (Suc n) ps"

lemma Split_nonempty [simp]: "Split s c \<noteq> []"
  by (cases s) (auto split: list.split)

lemma rebind_numbered: "rebind_from n q = numbered n (Split q (CHR ''?''))"
proof (induction n q rule: rebind_from.induct)
  case (2 n c q)
  show ?case
  proof (cases "c = CHR ''?''")
    case True
    then show ?thesis using 2 by (cases "Split q (CHR ''?'')") auto
  next
    case False
    obtain w ws where "Split q (CHR ''?'') = w # ws" by (meson Split_nonempty neq_Nil_conv)
    with 2 False show ?thesis by (cases ws) simp_all
  qed
qed simp

lemma length_Split: "length (Split q c) = Suc (count_list q c)"
  by (induction q) (auto split: list.split dest: arg_cong [of _ "[]" length])

lemma count_placeholders: "count_list (Join (map (\<lambda>_. ''?'') xs) '','') (CHR ''?'') = length xs"
proof (induction xs)
  case (Cons x xs)
  then show ?case by (cases xs) simp_all
qed simp

lemma sql_of_arity: "sql_of call = (q, args) \<Longrightarrow> count_list q (CHR ''?'') = length args"
  by (cases call rule: sql_of.cases)
     (auto simp: conn_columns_def audit_columns_def grant_columns_def cont_def set_columns_def placeholders_def count_placeholders)

section \<open>Opening\<close>

definition migrate_sql :: "string \<Rightarrow> string" where
  "migrate_sql driver =
     (let idCol = (if driver = ''postgres'' then ''BIGSERIAL PRIMARY KEY'' else ''INTEGER PRIMARY KEY AUTOINCREMENT'');
          connRef = (if driver = ''postgres'' then ''BIGINT'' else ''INTEGER'');
          empty = '' TEXT NOT NULL DEFAULT '' @ [SQ, SQ] @ '',''
      in Join
        [[], ''CREATE TABLE IF NOT EXISTS connections ('',
         ''  id           '' @ idCol @ '','',
         ''  name         TEXT NOT NULL,'',
         ''  kind         TEXT NOT NULL,'',
         ''  host         TEXT NOT NULL,'',
         ''  port         INTEGER NOT NULL,'',
         ''  dbname      '' @ empty,
         ''  username    '' @ empty,
         ''  password_enc'' @ empty,
         ''  options     '' @ empty,
         ''  readonly     INTEGER NOT NULL DEFAULT 0,'',
         ''  created_by  '' @ empty,
         ''  created_at   TEXT NOT NULL'',
         '');'',
         ''CREATE TABLE IF NOT EXISTS audit ('',
         ''  id        '' @ idCol @ '','',
         ''  ts        TEXT NOT NULL,'',
         ''  '' @ [DQ] @ ''user'' @ [DQ] @ ''   '' @ empty,
         ''  conn_id   '' @ connRef @ '' NOT NULL DEFAULT 0,'',
         ''  action    TEXT NOT NULL,'',
         ''  detail   '' @ empty,
         ''  success   INTEGER NOT NULL DEFAULT 1'',
         '');'',
         ''CREATE TABLE IF NOT EXISTS connection_grants ('',
         ''  id         '' @ idCol @ '','',
         ''  conn_id    '' @ connRef @ '' NOT NULL REFERENCES connections(id) ON DELETE CASCADE,'',
         ''  subject    TEXT NOT NULL,'',
         ''  level      TEXT NOT NULL,'',
         ''  created_by'' @ empty,
         ''  created_at TEXT NOT NULL,'',
         ''  UNIQUE(conn_id, subject)'',
         '');'']
        [NL])"

text \<open>The calls on the handle of the database; an error of \<open>exec\<close> is the answer to the one script of \<^verbatim>\<open>migrate\<close>.\<close>

datatype db_event = DbOpen string string | DbMaxConns nat | DbExec string | DbClose

text \<open>A \<^verbatim>\<open>Store\<close>: the database handle (the driver and the data source it was opened with) and the
  dialect. \<open>exec\<close> runs a statement on the database of the handle.\<close>

record store_handle =
  sh_sql :: string
  sh_dsn :: string
  sh_driver :: string

definition finishOpen ::
    "(string \<Rightarrow> string \<Rightarrow> string \<Rightarrow> go_error option) \<Rightarrow> store_handle \<Rightarrow> store_handle result \<times> db_event list" where
  "finishOpen exec s =
     (case exec (sh_sql s) (sh_dsn s) (migrate_sql (sh_driver s)) of
        Some e \<Rightarrow> (Inl e, [DbExec (migrate_sql (sh_driver s)), DbClose])
      | None \<Rightarrow> (Inr s, [DbExec (migrate_sql (sh_driver s))]))"

definition open_with ::
    "(string \<Rightarrow> string \<Rightarrow> go_error option) \<Rightarrow> (string \<Rightarrow> string \<Rightarrow> string \<Rightarrow> go_error option) \<Rightarrow> nat \<Rightarrow> store_handle
     \<Rightarrow> store_handle result \<times> db_event list" where
  "open_with sql_open exec conns s =
     (case sql_open (sh_sql s) (sh_dsn s) of
        Some e \<Rightarrow> (Inl e, [DbOpen (sh_sql s) (sh_dsn s)])
      | None \<Rightarrow> (case finishOpen exec s of (r, ev) \<Rightarrow> (r, [DbOpen (sh_sql s) (sh_dsn s), DbMaxConns conns] @ ev)))"

definition Open_dsn :: "string \<Rightarrow> string" where
  "Open_dsn path = path @ ''?_pragma=busy_timeout(5000)&_pragma=journal_mode(WAL)&_pragma=foreign_keys(1)''"

definition store_Open where
  "store_Open sql_open exec path =
     open_with sql_open exec 1 \<lparr>sh_sql = ''sqlite'', sh_dsn = Open_dsn path, sh_driver = ''sqlite''\<rparr>"

definition OpenPostgres where
  "OpenPostgres sql_open exec dsn =
     open_with sql_open exec 10 \<lparr>sh_sql = ''pgx'', sh_dsn = dsn, sh_driver = ''postgres''\<rparr>"

section \<open>Rows\<close>

record conn_rec =
  cr_id :: int
  cr_name :: string
  cr_kind :: string
  cr_host :: string
  cr_port :: int
  cr_dbname :: string
  cr_username :: string
  cr_password_enc :: string
  cr_options :: string
  cr_readonly :: int
  cr_created_by :: string
  cr_created_at :: string

record grant_rec =
  gr_id :: int
  gr_conn_id :: int
  gr_subject :: string
  gr_level :: string
  gr_created_by :: string
  gr_created_at :: string

record audit_rec =
  ar_id :: int
  ar_ts :: string
  ar_user :: string
  ar_conn_id :: int
  ar_action :: string
  ar_detail :: string
  ar_success :: int

definition scanConn :: "conn_rec \<Rightarrow> connection" where
  "scanConn r =
     \<lparr>cn_ID = cr_id r, cn_Name = cr_name r, cn_Kind = cr_kind r, cn_Host = cr_host r, cn_Port = cr_port r,
      cn_DBName = cr_dbname r, cn_Username = cr_username r, cn_PasswordEnc = cr_password_enc r, cn_Options = cr_options r,
      cn_ReadOnly = (cr_readonly r \<noteq> 0), cn_CreatedBy = cr_created_by r, cn_CreatedAt = parse_ts (cr_created_at r)\<rparr>"

definition scanGrant :: "grant_rec \<Rightarrow> grant" where
  "scanGrant r =
     \<lparr>g_ID = gr_id r, g_ConnID = gr_conn_id r, g_Subject = gr_subject r, g_Level = gr_level r,
      g_CreatedBy = gr_created_by r, g_CreatedAt = parse_ts (gr_created_at r)\<rparr>"

definition scanAudit :: "audit_rec \<Rightarrow> audit_row" where
  "scanAudit r =
     \<lparr>a_ID = ar_id r, a_TS = parse_ts (ar_ts r), a_User = ar_user r, a_ConnID = ar_conn_id r, a_Action = ar_action r,
      a_Detail = ar_detail r, a_Success = (ar_success r \<noteq> 0)\<rparr>"

record database =
  db_conns :: "conn_rec list"
  db_grants :: "grant_rec list"
  db_audit :: "audit_rec list"
  db_next_conn :: int
  db_next_grant :: int
  db_next_audit :: int

text \<open>
  What the database does with the arguments of a changing statement, under the constraints of \<open>migrate_sql\<close>.
  Statements that only read leave the rows as they are. A new row gets the next number; a Postgres sequence
  may also skip numbers, after an insert that failed or hit a conflict, so that its ids are increasing but
  not always consecutive.
\<close>

definition conn_rec_of :: "int \<Rightarrow> int \<Rightarrow> connection \<Rightarrow> conn_rec" where
  "conn_rec_of i now c =
     \<lparr>cr_id = i, cr_name = cn_Name c, cr_kind = cn_Kind c, cr_host = cn_Host c, cr_port = cn_Port c, cr_dbname = cn_DBName c,
      cr_username = cn_Username c, cr_password_enc = cn_PasswordEnc c, cr_options = cn_Options c,
      cr_readonly = boolToInt (cn_ReadOnly c), cr_created_by = cn_CreatedBy c, cr_created_at = Format_RFC3339 now\<rparr>"

definition conn_rec_set :: "connection \<Rightarrow> bool \<Rightarrow> conn_rec \<Rightarrow> conn_rec" where
  "conn_rec_set c updatePw r =
     r\<lparr>cr_name := cn_Name c, cr_kind := cn_Kind c, cr_host := cn_Host c, cr_port := cn_Port c, cr_dbname := cn_DBName c,
       cr_username := cn_Username c, cr_password_enc := (if updatePw then cn_PasswordEnc c else cr_password_enc r),
       cr_options := cn_Options c, cr_readonly := boolToInt (cn_ReadOnly c)\<rparr>"

fun db_exec :: "store_call \<Rightarrow> database \<Rightarrow> go_error option \<times> database" where
  "db_exec (CCreateConnection now c) db =
     (None, db\<lparr>db_conns := db_conns db @ [conn_rec_of (db_next_conn db) now c], db_next_conn := db_next_conn db + 1\<rparr>)"
| "db_exec (CUpdateConnection c updatePw) db =
     (None, db\<lparr>db_conns := map (\<lambda>r. if cr_id r = cn_ID c then conn_rec_set c updatePw r else r) (db_conns db)\<rparr>)"
| "db_exec (CUpdatePasswordEnc i enc) db =
     (None, db\<lparr>db_conns := map (\<lambda>r. if cr_id r = i then r\<lparr>cr_password_enc := enc\<rparr> else r) (db_conns db)\<rparr>)"
| "db_exec (CDeleteConnection i) db =
     (None, db\<lparr>db_conns := filter (\<lambda>r. cr_id r \<noteq> i) (db_conns db), db_grants := filter (\<lambda>r. gr_conn_id r \<noteq> i) (db_grants db)\<rparr>)"
| "db_exec (CAddAudit now a) db =
     (None, db\<lparr>db_audit := db_audit db @ [\<lparr>ar_id = db_next_audit db, ar_ts = Format_RFC3339 now, ar_user = a_User a,
                  ar_conn_id = a_ConnID a, ar_action = a_Action a, ar_detail = a_Detail a, ar_success = boolToInt (a_Success a)\<rparr>],
               db_next_audit := db_next_audit db + 1\<rparr>)"
| "db_exec (CPurgeAudit cutoff) db =
     (None, db\<lparr>db_audit := filter (\<lambda>r. \<not> map code (ar_ts r) < map code (Format_RFC3339 cutoff)) (db_audit db)\<rparr>)"
| "db_exec (CSetGrant now g) db =
     (if g_ConnID g \<notin> cr_id ` set (db_conns db) then (Some ''FOREIGN KEY constraint failed'', db)
      else if list_ex (\<lambda>r. gr_conn_id r = g_ConnID g \<and> gr_subject r = g_Subject g) (db_grants db)
      then (None, db\<lparr>db_grants := map (\<lambda>r. if gr_conn_id r = g_ConnID g \<and> gr_subject r = g_Subject g
              then r\<lparr>gr_level := g_Level g, gr_created_by := g_CreatedBy g, gr_created_at := Format_RFC3339 now\<rparr> else r) (db_grants db)\<rparr>)
      else (None, db\<lparr>db_grants := db_grants db @ [\<lparr>gr_id = db_next_grant db, gr_conn_id = g_ConnID g, gr_subject = g_Subject g,
                         gr_level = g_Level g, gr_created_by = g_CreatedBy g, gr_created_at = Format_RFC3339 now\<rparr>],
                    db_next_grant := db_next_grant db + 1\<rparr>))"
| "db_exec (CDeleteGrant connID i) db =
     (None, db\<lparr>db_grants := filter (\<lambda>r. \<not> (gr_id r = i \<and> gr_conn_id r = connID)) (db_grants db)\<rparr>)"
| "db_exec _ db = (None, db)"

text \<open>The same call on the model of \<open>Store\<close>, without a fault. The sink is no part of the database.\<close>

fun store_exec :: "store_call \<Rightarrow> store \<Rightarrow> go_error option \<times> store" where
  "store_exec (CCreateConnection now c) s = (None, snd (CreateConnection None now c s))"
| "store_exec (CUpdateConnection c updatePw) s = UpdateConnection None c updatePw s"
| "store_exec (CUpdatePasswordEnc i enc) s = UpdatePasswordEnc None i enc s"
| "store_exec (CDeleteConnection i) s = DeleteConnection None i s"
| "store_exec (CAddAudit now a) s = (None, (AddAudit None now a s)\<lparr>st_sink := st_sink s\<rparr>)"
| "store_exec (CPurgeAudit cutoff) s = (None, snd (PurgeAuditOlderThan None cutoff s))"
| "store_exec (CSetGrant now g) s = SetGrant None now g s"
| "store_exec (CDeleteGrant connID i) s = DeleteGrant None connID i s"
| "store_exec _ s = (None, s)"

definition load :: "string \<Rightarrow> database \<Rightarrow> store" where
  "load driver db =
     \<lparr>st_driver = driver, st_conns = map scanConn (db_conns db), st_grants = map scanGrant (db_grants db),
      st_audit = map scanAudit (db_audit db), st_next_conn = db_next_conn db, st_next_grant = db_next_grant db,
      st_next_audit = db_next_audit db, st_sink = []\<rparr>"

definition empty_db :: database where
  "empty_db = \<lparr>db_conns = [], db_grants = [], db_audit = [], db_next_conn = 1, db_next_grant = 1, db_next_audit = 1\<rparr>"

section \<open>Refinement\<close>

text \<open>Times that are written have a year of four digits; audit texts are such times.\<close>

fun call_ok :: "store_call \<Rightarrow> bool" where
  "call_ok (CCreateConnection now c) = four_digit_year now"
| "call_ok (CAddAudit now a) = four_digit_year now"
| "call_ok (CPurgeAudit cutoff) = four_digit_year cutoff"
| "call_ok (CSetGrant now g) = four_digit_year now"
| "call_ok _ = True"

definition db_ok :: "database \<Rightarrow> bool" where
  "db_ok db \<longleftrightarrow> (\<forall>r\<in>set (db_audit db). \<exists>t. four_digit_year t \<and> ar_ts r = Format_RFC3339 t)"

lemma boolToInt_nonzero [simp]: "boolToInt b \<noteq> 0 \<longleftrightarrow> b" "(boolToInt b = 0) = (\<not> b)"
  by (simp_all add: boolToInt_def)

lemma db_exec_ok: "db_ok db \<Longrightarrow> call_ok call \<Longrightarrow> db_ok (snd (db_exec call db))"
  by (cases "(call, db)" rule: db_exec.cases) (auto simp: db_ok_def)

lemma purge_texts:
  assumes "db_ok db" and "four_digit_year cutoff" and "r \<in> set (db_audit db)"
  shows "map code (ar_ts r) < map code (Format_RFC3339 cutoff) \<longleftrightarrow> a_TS (scanAudit r) < cutoff"
proof -
  obtain t where "four_digit_year t" "ar_ts r = Format_RFC3339 t" using assms(1,3) by (auto simp: db_ok_def)
  then show ?thesis using assms(2) by (simp add: scanAudit_def Format_mono parse_ts_Format)
qed

lemma scan_ids [simp]: "cn_ID (scanConn r) = cr_id r" "g_ID (scanGrant h) = gr_id h" "g_ConnID (scanGrant h) = gr_conn_id h"
  "g_Subject (scanGrant h) = gr_subject h"
  by (simp_all add: scanConn_def scanGrant_def)

lemma map_scan_filter: "(\<And>r. r \<in> set rs \<Longrightarrow> P r = Q (scan r)) \<Longrightarrow> map scan (filter P rs) = filter Q (map scan rs)"
  by (induction rs) auto

lemma load_exec:
  assumes "db_ok db" and "call_ok call"
  shows "store_exec call (load driver db) = (fst (db_exec call db), load driver (snd (db_exec call db)))"
proof (cases call)
  case (CCreateConnection now c)
  then show ?thesis using assms(2)
    by (simp add: CreateConnection_def load_def scanConn_def conn_rec_of_def parse_ts_Format)
next
  case (CUpdateConnection c updatePw)
  have "scanConn (conn_rec_set c updatePw r) = set_fields c updatePw (scanConn r)" for r
    by (simp add: scanConn_def conn_rec_set_def set_fields_def)
  then show ?thesis by (simp add: CUpdateConnection UpdateConnection_def load_def)
next
  case (CUpdatePasswordEnc i enc)
  have "scanConn (r\<lparr>cr_password_enc := enc\<rparr>) = (scanConn r)\<lparr>cn_PasswordEnc := enc\<rparr>" for r by (simp add: scanConn_def)
  then show ?thesis by (simp add: CUpdatePasswordEnc UpdatePasswordEnc_def load_def)
next
  case (CDeleteConnection i)
  then show ?thesis by (simp add: DeleteConnection_def load_def filter_map comp_def)
next
  case (CAddAudit now a)
  then show ?thesis using assms(2) by (simp add: AddAudit_def load_def scanAudit_def parse_ts_Format Let_def)
next
  case (CPurgeAudit cutoff)
  then have "map scanAudit (filter (\<lambda>r. \<not> map code (ar_ts r) < map code (Format_RFC3339 cutoff)) (db_audit db))
      = filter (\<lambda>a. \<not> a_TS a < cutoff) (map scanAudit (db_audit db))"
    using purge_texts [OF assms(1)] assms(2) by (intro map_scan_filter) simp
  with CPurgeAudit show ?thesis by (simp add: PurgeAuditOlderThan_def load_def)
next
  case (CSetGrant now g)
  have ex: "list_ex (same_grant g) (map scanGrant (db_grants db))
      = list_ex (\<lambda>r. gr_conn_id r = g_ConnID g \<and> gr_subject r = g_Subject g) (db_grants db)"
    by (simp add: list_ex_iff same_grant_def)
  have ids: "cn_ID ` set (map scanConn (db_conns db)) = cr_id ` set (db_conns db)" by (simp add: image_image)
  show ?thesis using CSetGrant assms(2)
    by (simp add: SetGrant_def load_def ids [simplified] ex same_grant_def scanGrant_def parse_ts_Format)
next
  case (CDeleteGrant connID i)
  then show ?thesis by (simp add: DeleteGrant_def load_def filter_map comp_def)
qed simp_all

fun run_calls :: "(store_call \<Rightarrow> 's \<Rightarrow> go_error option \<times> 's) \<Rightarrow> store_call list \<Rightarrow> 's \<Rightarrow> go_error option list \<times> 's" where
  "run_calls exec [] s = ([], s)"
| "run_calls exec (c # cs) s =
     (case exec c s of (e, s1) \<Rightarrow> (case run_calls exec cs s1 of (es, s2) \<Rightarrow> (e # es, s2)))"

lemma run_calls_refine:
  assumes "db_ok db" and "list_all call_ok calls"
  shows "run_calls store_exec calls (load driver db)
    = (fst (run_calls db_exec calls db), load driver (snd (run_calls db_exec calls db)))"
  using assms
proof (induction calls arbitrary: db)
  case (Cons c calls)
  then have "db_ok (snd (db_exec c db))" by (simp add: db_exec_ok)
  with Cons.IH [OF this] Cons.prems load_exec [OF Cons.prems(1), of c driver] show ?case
    by (cases "db_exec c db") (auto split: prod.split)
qed simp

text \<open>So rows that only the calls of the store have written satisfy its invariant when they are read back.\<close>

lemma store_ok_sink: "store_ok (s\<lparr>st_sink := x\<rparr>) = store_ok s"
  by (simp add: store_ok_def)

lemma store_exec_ok: "store_ok s \<Longrightarrow> store_ok (snd (store_exec call s))"
  by (cases "(call, s)" rule: store_exec.cases)
     (auto simp: store_ok_sink store_ok_audit intro: store_ok_ops store_ok_purge surjective_pairing)

lemma run_calls_ok: "store_ok s \<Longrightarrow> store_ok (snd (run_calls store_exec calls s))"
proof (induction calls arbitrary: s)
  case (Cons c calls)
  then have "store_ok (snd (store_exec c s))" by (simp add: store_exec_ok)
  from Cons.IH [OF this] show ?case by (auto split: prod.split)
qed simp

definition written_rows :: "store_call list \<Rightarrow> database" where
  "written_rows calls = snd (run_calls db_exec calls empty_db)"

lemma written_rows_ok:
  assumes "list_all call_ok calls"
  shows "store_ok (load driver (written_rows calls))"
proof -
  have "db_ok empty_db" "store_ok (load driver empty_db)"
    by (simp_all add: db_ok_def empty_db_def load_def store_ok_def)
  with run_calls_refine [OF _ assms, of empty_db driver] run_calls_ok [of "load driver empty_db" calls] show ?thesis
    by (simp add: written_rows_def)
qed

section \<open>Properties\<close>

text \<open>
  C11: the rows in the database, with their times as RFC 3339 texts and their flags as numbers, implement the
  metadata store: after any sequence of changing calls whose times have years of four digits, reading
  the rows back gives the state of the model after the same calls, with the same errors. In particular the
  retention purge, which compares timestamps as texts, deletes exactly the rows that are older.
\<close>

theorem rows_refine_store:
  assumes "list_all call_ok calls"
  shows "run_calls store_exec calls (empty_store driver)
    = (fst (run_calls db_exec calls empty_db), load driver (snd (run_calls db_exec calls empty_db)))"
proof -
  have "db_ok empty_db" "load driver empty_db = empty_store driver"
    by (simp_all add: db_ok_def empty_db_def load_def empty_store_def)
  with run_calls_refine [OF _ assms, of empty_db driver] show ?thesis by simp
qed

definition demo_calls :: "store_call list" where
  "demo_calls = [CAddAudit 1700000000 \<lparr>a_ID = 0, a_TS = 0, a_User = ''ann'', a_ConnID = 0, a_Action = ''auth_login'',
     a_Detail = ''ann'', a_Success = True\<rparr>, CPurgeAudit 1600000000, CPurgeAudit 1700000001]"

theorem rows_refine_store_witness:
  "st_audit (snd (run_calls store_exec demo_calls (empty_store ''sqlite''))) = []
   \<and> map scanAudit (db_audit (snd (run_calls db_exec demo_calls empty_db))) = []"
proof -
  have "list_all call_ok demo_calls" by (simp add: demo_calls_def four_digit_year_def)
  from rows_refine_store [OF this, of "''sqlite''"]
  have "st_audit (snd (run_calls store_exec demo_calls (empty_store ''sqlite'')))
      = map scanAudit (db_audit (snd (run_calls db_exec demo_calls empty_db)))" by (simp add: load_def)
  moreover have "st_audit (snd (run_calls store_exec demo_calls (empty_store ''sqlite''))) = []"
    by (simp add: demo_calls_def empty_store_def AddAudit_def PurgeAuditOlderThan_def)
  ultimately show ?thesis by simp
qed

text \<open>
  C34: every statement of the store has exactly one placeholder per argument, for any list of subjects, and
  on Postgres the placeholders become \<^verbatim>\<open>$1\<close>, \<^verbatim>\<open>$2\<close> and so on from left to right, in the order of the arguments, with
  everything between them unchanged.
\<close>

theorem statements_match_arguments:
  "length (Split (fst (sql_of call)) (CHR ''?'')) = Suc (length (snd (sql_of call)))
   \<and> sent_sql ''postgres'' call = (numbered 0 (Split (fst (sql_of call)) (CHR ''?'')), snd (sql_of call))
   \<and> sent_sql ''sqlite'' call = sql_of call"
  using sql_of_arity [of call] by (cases "sql_of call") (simp add: length_Split sent_sql_def rebind_def rebind_numbered)

end
