(* ===== verification/WebCore.thy ===== *)
theory WebCore
  imports Redact Registry RedisDb MongoDb Egress Rows
begin

text \<open>
  The request gates of \<^verbatim>\<open>internal/web\<close>: \<^verbatim>\<open>api.go\<close>, \<^verbatim>\<open>idParam\<close> and \<^verbatim>\<open>connFor\<close> of \<^verbatim>\<open>server.go\<close>, \<^verbatim>\<open>sqlEngineFor\<close>.
  A handler is a function from the environment of the request and the world to the response and the new
  world. The environment holds what the request and the surroundings deliver: the authenticated user,
  the outcome of the CSRF check, the URL parameters, the time, the faults of the store's SQL calls, and
  the target database as a server. The world holds the store, the pool registry, and the log of the
  commands that were sent to target databases, by connection.
\<close>

section \<open>Requests, responses, world\<close>

record world =
  wd_st :: store
  wd_rg :: registry
  wd_sent :: "(int \<times> sql_trace) list"

record web_env =
  en_cfg :: config
  en_reg :: reg_env
  en_user :: user
  en_csrf :: bool
  en_id :: string
  en_now :: int
  en_f_conn :: fault
  en_f_grant :: fault
  en_f_audit :: fault
  en_f_write :: fault
  en_target :: sql_server

text \<open>The values of the JSON objects that the handlers write.\<close>

record column_dto =
  cd_Name :: string
  cd_Type :: string
  cd_TypeText :: string
  cd_Cat :: string
  cd_NotNull :: bool
  cd_Default :: string
  cd_PK :: bool
  cd_AutoInc :: bool

record conn_dto =
  co_ID :: int
  co_Name :: string
  co_Kind :: string
  co_Host :: string
  co_Port :: int
  co_DBName :: string
  co_Username :: string
  co_Options :: string
  co_ReadOnly :: bool

record grant_dto =
  gd_ID :: int
  gd_Subject :: string
  gd_Level :: string

record audit_dto =
  ad_TS :: string
  ad_User :: string
  ad_ConnID :: int
  ad_Action :: string
  ad_Detail :: string
  ad_Success :: bool

datatype jfield =
    FStr string
  | FBool bool
  | FInt int
  | FResult "db_result option"
  | FSchemas "db_schema list"
  | FColumns "column_dto list"
  | FIndexes "db_index list"
  | FKeys "db_key list"
  | FRoles "db_role list"
  | FUsages "db_usage list"
  | FConn conn_dto
  | FConns "conn_dto list"
  | FGrants "grant_dto list"
  | FAudit "audit_dto list"
  | FDatabases "mongo_db list"
  | FMongoIndexes "mongo_index list"
  | FStrs "string list"
  | FKeyInfos "key_info list"
  | FValue redis_value

type_synonym response = "int \<times> (string \<times> jfield) list"

definition writeJSON :: "int \<Rightarrow> (string \<times> jfield) list \<Rightarrow> response" where
  "writeJSON status v = (status, v)"

definition apiErr :: "int \<Rightarrow> string \<Rightarrow> response" where
  "apiErr status msg = writeJSON status [(''error'', FStr msg)]"

definition ok_response :: response where
  "ok_response = writeJSON 200 [(''ok'', FBool True)]"

section \<open>Effects\<close>

definition new_audit :: "string \<Rightarrow> int \<Rightarrow> string \<Rightarrow> string \<Rightarrow> bool \<Rightarrow> audit_row" where
  "new_audit user conn action detail success =
     \<lparr>a_ID = 0, a_TS = 0, a_User = user, a_ConnID = conn, a_Action = action, a_Detail = detail, a_Success = success\<rparr>"

definition add_audit :: "web_env \<Rightarrow> audit_row \<Rightarrow> world \<Rightarrow> world" where
  "add_audit rq a w = w\<lparr>wd_st := AddAudit (en_f_audit rq) (en_now rq) a (wd_st w)\<rparr>"

text \<open>What \<^verbatim>\<open>main\<close> registers with \<^verbatim>\<open>OnCredentialAccess\<close>.\<close>

definition cred_access :: "connection \<Rightarrow> audit_row" where
  "cred_access c = new_audit [] (cn_ID c) ''cred_access'' (cn_Name c) True"

definition log_sent :: "int \<Rightarrow> sql_trace \<Rightarrow> world \<Rightarrow> world" where
  "log_sent i tr w = w\<lparr>wd_sent := wd_sent w @ [(i, tr)]\<rparr>"

definition pool_for :: "web_env \<Rightarrow> family \<Rightarrow> connection \<Rightarrow> world \<Rightarrow> nat result \<times> world" where
  "pool_for rq fam c w =
     (case get_pool (en_reg rq) fam (en_now rq) c (wd_rg w) of
        (r, rg', used) \<Rightarrow>
          (r, (if used then add_audit rq (cred_access c) else (\<lambda>w. w)) (w\<lparr>wd_rg := rg'\<rparr>)))"

definition open_engine :: "web_env \<Rightarrow> connection \<Rightarrow> world \<Rightarrow> engine result \<times> world" where
  "open_engine rq c w =
     (case reg_Engine (en_reg rq) (en_now rq) c (wd_rg w) of
        (r, rg', used) \<Rightarrow>
          (r, (if used then add_audit rq (cred_access c) else (\<lambda>w. w)) (w\<lparr>wd_rg := rg'\<rparr>)))"

section \<open>Gates\<close>

definition idParam :: "web_env \<Rightarrow> int" where
  "idParam rq = Atoi_lax (en_id rq)"

definition req_access :: "web_env \<Rightarrow> world \<Rightarrow> connection \<Rightarrow> conn_access" where
  "req_access rq w c = access (en_cfg rq) (en_f_grant rq) (wd_st w) (en_user rq) c"

definition connFor :: "web_env \<Rightarrow> world \<Rightarrow> connection result" where
  "connFor rq w =
     (case GetConnection (en_f_conn rq) (wd_st w) (idParam rq) of
        Inl e \<Rightarrow> Inl e
      | Inr c \<Rightarrow> (if \<not> ca_Read (req_access rq w c) then Inl ''no access to connection'' else Inr c))"

definition apiRequireAdmin :: "web_env \<Rightarrow> response + user" where
  "apiRequireAdmin rq =
     (if \<not> en_csrf rq then Inl (apiErr 403 ''bad csrf'')
      else if \<not> u_Admin (en_user rq) then Inl (apiErr 403 ''admin required'')
      else Inr (en_user rq))"

definition apiSQL :: "web_env \<Rightarrow> world \<Rightarrow> (response + connection \<times> engine) \<times> world" where
  "apiSQL rq w =
     (case connFor rq w of
        Inl _ \<Rightarrow> (Inl (apiErr 404 ''connection not found''), w)
      | Inr c \<Rightarrow>
          (case open_engine rq c w of
             (Inl e, w') \<Rightarrow> (Inl (apiErr 502 (''connect: '' @ e)), w')
           | (Inr eng, w') \<Rightarrow> (Inr (c, eng), w')))"

definition apiRequireWrite :: "web_env \<Rightarrow> bool \<Rightarrow> world \<Rightarrow> (response + connection \<times> engine) \<times> world" where
  "apiRequireWrite rq admin w =
     (if \<not> en_csrf rq then (Inl (apiErr 403 ''bad csrf''), w)
      else if admin \<and> \<not> u_Admin (en_user rq) then (Inl (apiErr 403 ''admin required''), w)
      else case connFor rq w of
             Inl _ \<Rightarrow> (Inl (apiErr 404 ''connection not found''), w)
           | Inr c \<Rightarrow>
               (if \<not> ca_Write (req_access rq w c) then (Inl (apiErr 403 ''write access required''), w)
                else if cn_ReadOnly c then (Inl (apiErr 409 ''connection is read-only''), w)
                else case open_engine rq c w of
                       (Inl e, w') \<Rightarrow> (Inl (apiErr 502 (''connect: '' @ e)), w')
                     | (Inr eng, w') \<Rightarrow> (Inr (c, eng), w')))"

text \<open>The twin of \<^verbatim>\<open>apiSQL\<close> for the export, which answers with plain text.\<close>

definition sqlEngineFor :: "web_env \<Rightarrow> world \<Rightarrow> (int \<times> string + connection \<times> engine) \<times> world" where
  "sqlEngineFor rq w =
     (case connFor rq w of
        Inl _ \<Rightarrow> (Inl (404, ''connection not found''), w)
      | Inr c \<Rightarrow>
          (case open_engine rq c w of
             (Inl e, w') \<Rightarrow> (Inl (502, ''connect: '' @ e), w')
           | (Inr eng, w') \<Rightarrow> (Inr (c, eng), w')))"

definition apiMe :: "web_env \<Rightarrow> response" where
  "apiMe rq =
     (let u = en_user rq in
      writeJSON 200 [(''user.name'', FStr (u_Name u)), (''user.email'', FStr (u_Email u)),
        (''user.admin'', FBool (u_Admin u)), (''user.write'', FBool (u_Write u)),
        (''csrf'', FStr (u_CSRF u)), (''scopedAccess'', FBool (cfg_ScopedAccess (en_cfg rq)))])"

section \<open>Lemmas on the gates\<close>

lemma wd_sent_add_audit [simp]: "wd_sent (add_audit rq a w) = wd_sent w"
  by (simp add: add_audit_def)

lemma wd_rg_add_audit [simp]: "wd_rg (add_audit rq a w) = wd_rg w"
  by (simp add: add_audit_def)

lemma log_sent_simps [simp]:
  "wd_sent (log_sent i tr w) = wd_sent w @ [(i, tr)]" "wd_st (log_sent i tr w) = wd_st w"
  "wd_rg (log_sent i tr w) = wd_rg w"
  by (simp_all add: log_sent_def)

lemma AddAudit_keeps [simp]:
  "st_conns (AddAudit f now a s) = st_conns s" "st_grants (AddAudit f now a s) = st_grants s"
  by (simp_all add: AddAudit_def Let_def split: option.splits)

lemma AddAudit_sink [simp]: "st_sink (AddAudit f now a s) = st_sink s @ [a\<lparr>a_TS := now\<rparr>]"
  by (simp add: AddAudit_def Let_def split: option.splits)

text \<open>
  A handler is tame when all it does to the metadata store is to append audit rows, and when it keeps the
  invariant of the pool registry.
\<close>

definition tame :: "web_env \<Rightarrow> world \<Rightarrow> world \<Rightarrow> bool" where
  "tame rq w w' \<longleftrightarrow>
     (\<exists>as. wd_st w' = foldl (\<lambda>s a. AddAudit (en_f_audit rq) (en_now rq) a s) (wd_st w) as)
     \<and> reg_kept (wd_rg w) (wd_rg w')"

lemma tame_refl [simp, intro]: "tame rq w w"
  unfolding tame_def by (auto intro: exI [of _ "[]"])

lemma tame_add_audit: "tame rq w w' \<Longrightarrow> tame rq w (add_audit rq a w')"
proof -
  assume "tame rq w w'"
  then obtain as where "wd_st w' = foldl (\<lambda>s a. AddAudit (en_f_audit rq) (en_now rq) a s) (wd_st w) as"
    and "reg_kept (wd_rg w) (wd_rg w')" unfolding tame_def by blast
  then show ?thesis unfolding tame_def add_audit_def by (intro conjI exI [of _ "as @ [a]"]) simp_all
qed

lemma tame_log_sent: "tame rq w w' \<Longrightarrow> tame rq w (log_sent i tr w')"
  by (simp add: tame_def)

lemma tame_trans: "tame rq w w' \<Longrightarrow> tame rq w' w'' \<Longrightarrow> tame rq w w''"
  unfolding tame_def by (metis foldl_append reg_kept_trans)

text \<open>Opening an engine sends nothing to the target and records at most the use of the credential.\<close>

definition quiet_step :: "web_env \<Rightarrow> connection \<Rightarrow> world \<Rightarrow> world \<Rightarrow> bool" where
  "quiet_step rq c w w' \<longleftrightarrow>
     wd_sent w' = wd_sent w \<and>
     (wd_st w' = wd_st w \<or> wd_st w' = AddAudit (en_f_audit rq) (en_now rq) (cred_access c) (wd_st w))
     \<and> reg_kept (wd_rg w) (wd_rg w')"

lemma open_engine_quiet: "open_engine rq c w = (r, w') \<Longrightarrow> quiet_step rq c w w'"
  by (auto simp: open_engine_def quiet_step_def add_audit_def split: prod.splits if_splits dest: reg_Engine_kept)

lemma pool_for_quiet: "pool_for rq fam c w = (r, w') \<Longrightarrow> quiet_step rq c w w'"
  by (auto simp: pool_for_def quiet_step_def add_audit_def split: prod.splits if_splits dest: get_pool_kept)

lemma quiet_tame: "quiet_step rq c w w' \<Longrightarrow> tame rq w w'"
  unfolding quiet_step_def tame_def by (auto intro: exI [of _ "[]"] exI [of _ "[cred_access c]"])

lemma open_engine_kind: "open_engine rq c w = (Inr eng, w') \<Longrightarrow> eng = engine_of c"
  by (auto simp: open_engine_def reg_Engine_def split: prod.splits sum.splits)

lemma connFor_Inr:
  "connFor rq w = Inr c \<longleftrightarrow>
     GetConnection (en_f_conn rq) (wd_st w) (idParam rq) = Inr c \<and> ca_Read (req_access rq w c)"
  by (auto simp: connFor_def split: sum.splits if_splits)

lemma apiRequireWrite_Inr:
  "apiRequireWrite rq admin w = (Inr (c, eng), w') \<Longrightarrow>
     en_csrf rq \<and> (admin \<longrightarrow> u_Admin (en_user rq)) \<and> connFor rq w = Inr c \<and>
     ca_Write (req_access rq w c) \<and> \<not> cn_ReadOnly c \<and> eng = engine_of c \<and> quiet_step rq c w w'"
  by (auto simp: apiRequireWrite_def split: if_splits sum.splits prod.splits
      dest: open_engine_kind open_engine_quiet)

lemma apiRequireWrite_Inl:
  "apiRequireWrite rq admin w = (Inl resp, w') \<Longrightarrow> wd_sent w' = wd_sent w \<and> tame rq w w'"
  by (auto simp: apiRequireWrite_def split: if_splits sum.splits prod.splits
      dest!: open_engine_quiet simp: quiet_tame) (simp_all add: quiet_step_def)

lemma apiSQL_Inr:
  "apiSQL rq w = (Inr (c, eng), w') \<Longrightarrow> connFor rq w = Inr c \<and> eng = engine_of c \<and> quiet_step rq c w w'"
  by (auto simp: apiSQL_def split: sum.splits prod.splits dest: open_engine_kind open_engine_quiet)

lemma apiSQL_Inl: "apiSQL rq w = (Inl resp, w') \<Longrightarrow> wd_sent w' = wd_sent w \<and> tame rq w w'"
  by (auto simp: apiSQL_def split: sum.splits prod.splits dest!: open_engine_quiet simp: quiet_tame)
     (simp_all add: quiet_step_def)

section \<open>A small deployment\<close>

text \<open>One Postgres connection and a user with global write access, for the concrete runs.\<close>

definition demo_pg :: connection where
  "demo_pg = \<lparr>cn_ID = 1, cn_Name = ''d'', cn_Kind = ''postgres'', cn_Host = ''db'', cn_Port = 1, cn_DBName = ''x'',
     cn_Username = ''u'', cn_PasswordEnc = [], cn_Options = [], cn_ReadOnly = False, cn_CreatedBy = [], cn_CreatedAt = 0\<rparr>"

definition demo_world :: world where
  "demo_world = \<lparr>wd_st = (empty_store ''sqlite'')\<lparr>st_conns := [demo_pg]\<rparr>, wd_rg = NewRegistry 4 [], wd_sent = []\<rparr>"

definition demo_rq :: web_env where
  "demo_rq =
     \<lparr>en_cfg = read_config (\<lambda>_. []),
      en_reg = \<lparr>re_cipher = (\<lambda>_ b. b), re_box = \<lparr>b_primaryID = [], b_keys = (\<lambda>_. None), b_order = []\<rparr>, re_cwd = Inr [],
                re_links = Inr, re_FormatDSN = (\<lambda>_. []), re_dial = (\<lambda>_ _. Opened)\<rparr>,
      en_user = no_user\<lparr>u_Email := ''w'', u_Read := True, u_Write := True\<rparr>, en_csrf = True, en_id = ''1'', en_now = 0,
      en_f_conn = None, en_f_grant = None, en_f_audit = None, en_f_write = None, en_target = (\<lambda>_ _. AOk 0)\<rparr>"

lemma demo_connFor: "connFor demo_rq demo_world = Inr demo_pg" by code_simp

end
