(* ===== verification/Observ.thy ===== *)
theory Observ
  imports RateLimit WebCore
begin

text \<open>
  The operational surface (\<^verbatim>\<open>internal/web/observ.go\<close>), the embedded single page application
  (\<^verbatim>\<open>internal/web/spa.go\<close>) and the pieces of the process that \<^verbatim>\<open>cmd/server/main.go\<close> puts together: logger,
  audit retention, choice of the metadata store, construction of the authenticator and the start-up
  sequence. Counters are functions from label values to numbers; the log is the list of its lines;
  time is in seconds, and durations in nanoseconds wrap at 64 bits as \<^verbatim>\<open>time.Duration\<close> does.
\<close>

section \<open>Metrics and request log\<close>

datatype log_level = LDebug | LInfo | LWarn | LError

datatype log_attr = AStr string | AInt int | ABool bool

type_synonym log_line = "log_level \<times> string \<times> (string \<times> log_attr) list"

record metrics =
  mt_reqTotal :: "string \<times> string \<times> string \<Rightarrow> nat"
  mt_reqDur :: "string \<times> string \<Rightarrow> nat"
  mt_authTotal :: "string \<Rightarrow> nat"
  mt_log :: "log_line list"

definition newMetrics :: metrics where
  "newMetrics = \<lparr>mt_reqTotal = (\<lambda>_. 0), mt_reqDur = (\<lambda>_. 0), mt_authTotal = (\<lambda>_. 0), mt_log = []\<rparr>"

definition inc :: "('k \<Rightarrow> nat) \<Rightarrow> 'k \<Rightarrow> ('k \<Rightarrow> nat)" where
  "inc f k = f(k := Suc (f k))"

definition isInfraPath :: "string \<Rightarrow> bool" where
  "isInfraPath p \<longleftrightarrow> p \<in> {''/healthz'', ''/readyz'', ''/metrics''}"

text \<open>
  What the middleware \<^verbatim>\<open>observe\<close> reads of a request that has been served: \<open>ob_pattern\<close> is the route that
  the router matched, \<open>ob_status\<close> the status written (0 if none), and \<open>ob_ctx_user\<close> the user in the
  context of the request that the middleware itself got.
\<close>

record observed =
  ob_method :: string
  ob_path :: string
  ob_pattern :: string
  ob_status :: int
  ob_bytes :: int
  ob_millis :: int
  ob_remote :: string
  ob_reqid :: string
  ob_ctx_user :: "user option"

definition status_level :: "int \<Rightarrow> log_level" where
  "status_level status = (if status \<ge> 500 then LError else if status \<ge> 400 then LWarn else LInfo)"

definition observe :: "observed \<Rightarrow> metrics \<Rightarrow> metrics" where
  "observe b m =
     (if isInfraPath (ob_path b) then m
      else
        (let route = (if ob_pattern b = [] then ''other'' else ob_pattern b);
             status = (if ob_status b = 0 then 200 else ob_status b);
             attrs = [(''method'', AStr (ob_method b)), (''route'', AStr route), (''path'', AStr (ob_path b)),
                      (''status'', AInt status), (''bytes'', AInt (ob_bytes b)), (''duration_ms'', AInt (ob_millis b)),
                      (''ip'', AStr (clientIP (ob_remote b))), (''request_id'', AStr (ob_reqid b))]
                     @ (case ob_ctx_user b of
                          Some u \<Rightarrow> (if u_Email u \<noteq> [] then [(''user'', AStr (u_Email u))] else [])
                        | None \<Rightarrow> [])
         in m\<lparr>mt_reqDur := inc (mt_reqDur m) (ob_method b, route),
              mt_reqTotal := inc (mt_reqTotal m) (ob_method b, route, Itoa status),
              mt_log := mt_log m @ [(status_level status, ''http_request'', attrs)]\<rparr>))"

definition ObserveAudit :: "audit_row \<Rightarrow> metrics \<Rightarrow> metrics" where
  "ObserveAudit a m =
     (let m = m\<lparr>mt_log := mt_log m @ [(LInfo, ''audit'',
                [(''action'', AStr (a_Action a)), (''user'', AStr (a_User a)), (''conn_id'', AInt (a_ConnID a)),
                 (''detail'', AStr (a_Detail a)), (''success'', ABool (a_Success a))])]\<rparr>
      in if a_Action a = ''auth_login'' then m\<lparr>mt_authTotal := inc (mt_authTotal m) ''success''\<rparr>
         else if a_Action a = ''auth_login_failed'' then m\<lparr>mt_authTotal := inc (mt_authTotal m) ''failure''\<rparr>
         else m)"

text \<open>The exposition itself is written by the Prometheus handler: \<open>True\<close> says that the request reaches it.\<close>

definition metricsHandler :: "config \<Rightarrow> string \<Rightarrow> bool" where
  "metricsHandler cfg authorization =
     (if cfg_MetricsToken cfg \<noteq> []
      then TrimPrefix authorization ''Bearer '' = cfg_MetricsToken cfg
      else True)"

definition readyz :: "go_error option \<Rightarrow> metrics \<Rightarrow> response \<times> metrics" where
  "readyz ping m =
     (case ping of
        Some e \<Rightarrow> (writeJSON 503 [(''status'', FStr ''unavailable'')],
                   m\<lparr>mt_log := mt_log m @ [(LWarn, ''readyz_store_unavailable'', [(''error'', AStr e)])]\<rparr>)
      | None \<Rightarrow> (writeJSON 200 [(''status'', FStr ''ok'')], m))"

section \<open>The single page application\<close>

text \<open>\<open>stat\<close> looks a name up in the embedded directory: no entry, or an entry and whether it is a directory.\<close>

datatype spa_answer = SpaIndex | SpaFile string bool

definition spaHandler :: "(string \<Rightarrow> bool option) \<Rightarrow> string \<Rightarrow> spa_answer" where
  "spaHandler stat path =
     (let p = TrimPrefix (TrimPrefix path ''/app'') ''/''
      in if p = [] \<or> p = ''index.html'' then SpaIndex
         else case stat p of
                None \<Rightarrow> SpaIndex
              | Some True \<Rightarrow> SpaIndex
              | Some False \<Rightarrow> SpaFile (''/'' @ p) (HasPrefix p ''assets/''))"

text \<open>The headers of \<^verbatim>\<open>serveIndex\<close> and of a file; the file server adds the rest.\<close>

definition serveIndex :: "(string \<times> string) list" where
  "serveIndex = [(''Content-Type'', ''text/html; charset=utf-8''), (''Cache-Control'', ''no-cache'')]"

fun spa_headers :: "spa_answer \<Rightarrow> (string \<times> string) list" where
  "spa_headers SpaIndex = serveIndex"
| "spa_headers (SpaFile path asset) =
     (if asset then [(''Cache-Control'', ''public, max-age=31536000, immutable'')] else [])"

section \<open>Logger, store, retention\<close>

datatype log_format = TextLog | JSONLog

definition newLogger :: "config \<Rightarrow> log_level \<times> log_format" where
  "newLogger cfg =
     (let l = ToLower (cfg_LogLevel cfg)
      in ((if l = ''debug'' then LDebug else if l = ''warn'' then LWarn else if l = ''error'' then LError else LInfo),
          (if ToLower (cfg_LogFormat cfg) = ''text'' then TextLog else JSONLog)))"

definition openStore ::
    "config \<Rightarrow> (string \<Rightarrow> string \<Rightarrow> go_error option) \<Rightarrow> (string \<Rightarrow> string \<Rightarrow> string \<Rightarrow> go_error option)
     \<Rightarrow> store_handle result \<times> db_event list" where
  "openStore cfg sql_open exec =
     (if cfg_StoreDriver cfg = ''postgres'' then OpenPostgres sql_open exec (cfg_StoreDSN cfg)
      else store_Open sql_open exec (cfg_SQLitePath cfg))"

text \<open>
  One purge of \<^verbatim>\<open>retainAudit\<close>. The window is a \<^verbatim>\<open>time.Duration\<close>, a number of nanoseconds that wraps at
  64 bits; the cutoff goes to the store in whole seconds.
\<close>

definition retention_shift :: "int \<Rightarrow> int" where
  "retention_shift days = mul_int64 (mul_int64 (- days) 24) (3600 * 10 ^ 9)"

definition retention_cutoff :: "int \<Rightarrow> int \<Rightarrow> int" where
  "retention_cutoff now days = (now * 10 ^ 9 + retention_shift days) div 10 ^ 9"

definition retain_purge :: "fault \<Rightarrow> int \<Rightarrow> int \<Rightarrow> store \<Rightarrow> metrics \<Rightarrow> store \<times> metrics" where
  "retain_purge f now days st m =
     (case PurgeAuditOlderThan f (retention_cutoff now days) st of
        (Inl e, st') \<Rightarrow> (st', m\<lparr>mt_log := mt_log m @ [(LError, ''audit retention purge failed'', [(''err'', AStr e)])]\<rparr>)
      | (Inr n, st') \<Rightarrow>
          (st', (if n > 0 then m\<lparr>mt_log := mt_log m @ [(LInfo, ''audit retention purge'',
                   [(''removed'', AInt n), (''older_than_days'', AInt days)])]\<rparr> else m)))"

text \<open>
  The loop of \<^verbatim>\<open>retainAudit\<close>: a purge at once and one at every tick of the daily timer. A round is the time of the
  purge and the fault of the database, if any.
\<close>

fun retainAudit :: "int \<Rightarrow> (fault \<times> int) list \<Rightarrow> store \<Rightarrow> metrics \<Rightarrow> store \<times> metrics" where
  "retainAudit days [] st m = (st, m)"
| "retainAudit days ((f, now) # rounds) st m =
     (case retain_purge f now days st m of (st', m') \<Rightarrow> retainAudit days rounds st' m')"

lemma retainAudit_rows:
  "fst (retainAudit days rounds st m) =
     st\<lparr>st_audit := filter (\<lambda>a. \<forall>(f, now)\<in>set rounds. f = None \<longrightarrow> retention_cutoff now days \<le> a_TS a) (st_audit st)\<rparr>"
proof (induction days rounds st m rule: retainAudit.induct)
  case (2 days f now rounds st m)
  obtain st' m' where r: "retain_purge f now days st m = (st', m')" by force
  then have "st' = st\<lparr>st_audit := filter (\<lambda>a. f = None \<longrightarrow> retention_cutoff now days \<le> a_TS a) (st_audit st)\<rparr>"
    by (cases f) (auto simp: retain_purge_def PurgeAuditOlderThan_def not_less)
  with 2 [OF r [symmetric]] r show ?case by (simp add: conj_commute)
qed simp

section \<open>Start-up\<close>

text \<open>
  \<^verbatim>\<open>auth.New\<close>: the session store first, then the discovery of the provider unless in dev mode.
  \<open>discover\<close> is \<^verbatim>\<open>oidc.NewProvider\<close>. A discovered provider has the operations of the OIDC library, which take the
  configuration of the client or of a verifier; \<open>oidc_client\<close> is what the handlers use of it.
\<close>

record oauth_config =
  oc_ClientID :: string
  oc_ClientSecret :: string
  oc_RedirectURL :: string
  oc_Scopes :: "string list"

record verifier_config =
  vc_ClientID :: string
  vc_SkipClientIDCheck :: bool

record provider =
  pv_Exchange :: "oauth_config \<Rightarrow> string \<Rightarrow> string \<Rightarrow> oauth_token option"
  pv_AuthCodeURL :: "oauth_config \<Rightarrow> string \<Rightarrow> string \<Rightarrow> string \<Rightarrow> string"
  pv_Verify :: "verifier_config \<Rightarrow> string \<Rightarrow> id_token option"
  pv_VerifyAT :: "verifier_config \<Rightarrow> string \<Rightarrow> (string list \<times> string list) option option"
  pv_end_session :: "string option"

definition oauth_client :: "config \<Rightarrow> oauth_config" where
  "oauth_client cfg =
     \<lparr>oc_ClientID = cfg_OIDCClientID cfg, oc_ClientSecret = cfg_OIDCClientSecret cfg,
      oc_RedirectURL = cfg_OIDCRedirectURL cfg, oc_Scopes = [''openid'', ''profile'', ''email'']\<rparr>"

definition oidc_client :: "config \<Rightarrow> provider \<Rightarrow> idp" where
  "oidc_client cfg p =
     \<lparr>idp_Exchange = pv_Exchange p (oauth_client cfg),
      idp_Verify = pv_Verify p \<lparr>vc_ClientID = cfg_OIDCClientID cfg, vc_SkipClientIDCheck = False\<rparr>,
      idp_VerifyAT = pv_VerifyAT p \<lparr>vc_ClientID = cfg_OIDCClientID cfg, vc_SkipClientIDCheck = True\<rparr>,
      idp_AuthCodeURL = pv_AuthCodeURL p (oauth_client cfg),
      idp_endSession = (case pv_end_session p of None \<Rightarrow> [] | Some url \<Rightarrow> url)\<rparr>"

definition auth_New ::
    "config \<Rightarrow> (string \<Rightarrow> go_error option) \<Rightarrow> go_error option \<Rightarrow> (string \<Rightarrow> provider result) \<Rightarrow> (backend \<times> idp option) result" where
  "auth_New cfg parse_url ping discover =
     (case newSessionStore cfg parse_url ping of
        Inl e \<Rightarrow> Inl e
      | Inr sessions \<Rightarrow>
          (if cfg_DevMode cfg then Inr (sessions, None)
           else case discover (cfg_OIDCIssuer cfg) of
                  Inl e \<Rightarrow> Inl e
                | Inr p \<Rightarrow> Inr (sessions, Some (oidc_client cfg p))))"

text \<open>
  The outside world of \<^verbatim>\<open>main\<close>: the directory it makes for the SQLite file, the random bytes of an
  ephemeral key, the databases by driver and data source (whether one opens, how it answers a statement,
  its rows), and the world of \<^verbatim>\<open>auth.New\<close>.
\<close>

record boot_env =
  bt_mkdir :: "go_error option"
  bt_ephemeral :: "string result"
  bt_sql_open :: "string \<Rightarrow> string \<Rightarrow> go_error option"
  bt_exec :: "string \<Rightarrow> string \<Rightarrow> string \<Rightarrow> go_error option"
  bt_rows :: "string \<Rightarrow> string \<Rightarrow> database"
  bt_parse_url :: "string \<Rightarrow> go_error option"
  bt_ping :: "go_error option"
  bt_discover :: "string \<Rightarrow> provider result"

record process =
  pr_cfg :: config
  pr_box :: box
  pr_store :: store
  pr_registry :: registry
  pr_sessions :: backend
  pr_idp :: "idp option"
  pr_retain :: bool

text \<open>The left result is an exit with the message and the error that are logged.\<close>

definition main_boot :: "boot_env \<Rightarrow> environment \<Rightarrow> process result" where
  "main_boot b e =
     (case Load e of
        Inl err \<Rightarrow> Inl (''config: '' @ err)
      | Inr cfg \<Rightarrow>
      (case (if cfg_StoreDriver cfg \<noteq> ''postgres'' then bt_mkdir b else None) of
         Some err \<Rightarrow> Inl (''mkdir data dir: '' @ err)
       | None \<Rightarrow>
      (case ParseKeyring (bt_ephemeral b) (cfg_EncKey cfg) (cfg_EncKeys cfg) of
         Inl err \<Rightarrow> Inl (''crypto: '' @ err)
       | Inr box \<Rightarrow>
      (case fst (openStore cfg (bt_sql_open b) (bt_exec b)) of
         Inl err \<Rightarrow> Inl (''store: '' @ err)
       | Inr st \<Rightarrow>
      (case auth_New cfg (bt_parse_url b) (bt_ping b) (bt_discover b) of
         Inl err \<Rightarrow> Inl (''auth: '' @ err)
       | Inr (sessions, provider) \<Rightarrow>
           Inr \<lparr>pr_cfg = cfg, pr_box = box, pr_store = load (sh_driver st) (bt_rows b (sh_sql st) (sh_dsn st)),
                pr_registry = NewRegistry (cfg_PGPoolMaxConns cfg) (cfg_SQLiteDir cfg),
                pr_sessions = sessions, pr_idp = provider, pr_retain = cfg_AuditRetentionDays cfg > 0\<rparr>)))))"

text \<open>
  The rest of \<^verbatim>\<open>main\<close>: the listener runs beside the main goroutine, which waits for a signal. An error of the listener
  other than the one of a shutdown ends the process with status 1; a signal ends it with status 0 after the
  server has shut down.
\<close>

datatype run_event = ListenFailed go_error | ListenClosed | StopSignal

definition listening_line :: "config \<Rightarrow> log_line" where
  "listening_line cfg =
     (LInfo, ''listening'',
      [(''addr'', AStr (cfg_Addr cfg)), (''dev'', ABool (cfg_DevMode cfg)), (''scoped_access'', ABool (cfg_ScopedAccess cfg))])"

definition fatal :: "string \<Rightarrow> go_error \<Rightarrow> log_line \<times> nat" where
  "fatal msg err = ((LError, msg, [(''err'', AStr err)]), 1)"

fun main_wait :: "run_event list \<Rightarrow> log_line list \<times> nat option" where
  "main_wait [] = ([], None)"
| "main_wait (ListenFailed e # evs) = (case fatal ''listen'' e of (line, status) \<Rightarrow> ([line], Some status))"
| "main_wait (ListenClosed # evs) = main_wait evs"
| "main_wait (StopSignal # evs) = ([(LInfo, ''shutting down'', [])], Some 0)"

definition main_run :: "process \<Rightarrow> run_event list \<Rightarrow> log_line list \<times> nat option" where
  "main_run p evs = (case main_wait evs of (lines, status) \<Rightarrow> (listening_line (pr_cfg p) # lines, status))"

section \<open>Properties\<close>

lemma mul_int64_small: "- (2 ^ 63) \<le> a * b \<Longrightarrow> a * b < 2 ^ 63 \<Longrightarrow> mul_int64 a b = a * b"
  unfolding mul_int64_def sint_sbintrunc' by (rule signed_take_bit_int_eq_self) simp_all

lemma retention_cutoff_small:
  assumes "0 \<le> days" and "days \<le> 106751"
  shows "retention_cutoff now days = now - days * 86400"
proof -
  have "mul_int64 (- days) 24 = - days * 24" using assms by (intro mul_int64_small) simp_all
  then have "retention_shift days = - days * 24 * (3600 * 10 ^ 9)"
    unfolding retention_shift_def using assms by (simp only:) (intro mul_int64_small, simp_all)
  then have "now * 10 ^ 9 + retention_shift days = (now - days * 86400) * 10 ^ 9" by (simp add: algebra_simps)
  then show ?thesis unfolding retention_cutoff_def by (simp only:) simp
qed

text \<open>
  A retention purge removes exactly the audit rows that are older than the configured number of days
  and touches nothing else in the store, for every window up to 106751 days; a failing purge changes
  nothing.
\<close>

theorem retention_purge_exact:
  assumes "0 \<le> days" and "days \<le> 106751"
  shows "fst (retain_purge None now days st m) = st\<lparr>st_audit := filter (\<lambda>a. now - days * 86400 \<le> a_TS a) (st_audit st)\<rparr>
    \<and> fst (retain_purge (Some e) now days st m) = st"
  by (simp add: retain_purge_def PurgeAuditOlderThan_def retention_cutoff_small [OF assms] not_less)

theorem retention_purge_exact_witness:
  "fst (retain_purge None 200000 1 (empty_store ''sqlite'') newMetrics) = empty_store ''sqlite''"
  using retention_purge_exact [of 1 200000 "empty_store ''sqlite''" newMetrics] by (simp add: empty_store_def)

text \<open>One day more and the duration wraps: the cutoff lies centuries in the future, and every row goes.\<close>

lemma retention_overflow_purges_all:
  assumes "\<forall>a\<in>set (st_audit st). a_TS a \<le> now"
  shows "st_audit (fst (retain_purge None now 106752 st m)) = []"
proof -
  have "retention_shift 106752 = 9223371273709551616" by code_simp
  then have "retention_cutoff now 106752 = now + 9223371273" unfolding retention_cutoff_def by (simp only:) simp
  with assms show ?thesis by (force simp: retain_purge_def PurgeAuditOlderThan_def filter_empty_conv)
qed

text \<open>
  With a metrics token configured, the metrics are served only to a request whose Authorization header
  is the token behind \<^verbatim>\<open>Bearer\<close> or the bare token; without one they are open.
\<close>

theorem metrics_token_exact:
  "metricsHandler cfg h =
     (cfg_MetricsToken cfg = [] \<or> h = ''Bearer '' @ cfg_MetricsToken cfg
      \<or> h = cfg_MetricsToken cfg \<and> \<not> HasPrefix h ''Bearer '')"
  unfolding metricsHandler_def TrimPrefix_def HasPrefix_def
  by (metis append_eq_conv_conj append_take_drop_id)

text \<open>The handle of the configured metadata database.\<close>

definition configured_db :: "config \<Rightarrow> store_handle" where
  "configured_db cfg =
     (if cfg_StoreDriver cfg = ''postgres''
      then \<lparr>sh_sql = ''pgx'', sh_dsn = cfg_StoreDSN cfg, sh_driver = ''postgres''\<rparr>
      else \<lparr>sh_sql = ''sqlite'',
            sh_dsn = cfg_SQLitePath cfg @ ''?_pragma=busy_timeout(5000)&_pragma=journal_mode(WAL)&_pragma=foreign_keys(1)'',
            sh_driver = ''sqlite''\<rparr>)"

lemma openStore_ok:
  "fst (openStore cfg sql_open exec) = Inr st
   \<longleftrightarrow> st = configured_db cfg \<and> sql_open (sh_sql st) (sh_dsn st) = None
     \<and> exec (sh_sql st) (sh_dsn st) (migrate_sql (sh_driver st)) = None"
  by (auto simp: openStore_def configured_db_def OpenPostgres_def store_Open_def Open_dsn_def open_with_def finishOpen_def
      split: option.splits prod.splits)

lemma main_boot_cases:
  assumes "main_boot b e = Inr p"
  obtains "Load e = Inr (pr_cfg p)"
    and "ParseKeyring (bt_ephemeral b) (cfg_EncKey (pr_cfg p)) (cfg_EncKeys (pr_cfg p)) = Inr (pr_box p)"
    and "auth_New (pr_cfg p) (bt_parse_url b) (bt_ping b) (bt_discover b) = Inr (pr_sessions p, pr_idp p)"
    and "pr_registry p = NewRegistry (cfg_PGPoolMaxConns (pr_cfg p)) (cfg_SQLiteDir (pr_cfg p))"
    and "\<exists>st. fst (openStore (pr_cfg p) (bt_sql_open b) (bt_exec b)) = Inr st
       \<and> pr_store p = load (sh_driver st) (bt_rows b (sh_sql st) (sh_dsn st))"
  using assms unfolding main_boot_def by (auto split: sum.splits option.splits if_splits prod.splits)

lemma Load_InrD: "Load e = Inr cfg \<Longrightarrow> cfg = read_config e"
  unfolding Load_def Let_def by (simp split: if_split_asm)

lemma ParseKeyring_persistent:
  "single \<noteq> [] \<or> TrimSpace multi \<noteq> [] \<Longrightarrow> ParseKeyring eph single multi = ParseKeyring eph' single multi"
  by (auto simp: ParseKeyring_def New_box_def)

lemma ParseKeyring_ok: "ParseKeyring eph single multi = Inr b \<Longrightarrow> box_ok b"
  using NewFromProvider_box_ok
  by (auto simp: ParseKeyring_def New_box_def split: if_splits sum.splits prod.splits)

text \<open>
  C18: the process starts only in a usable state. Its key ring is well formed, and every other process that
  starts from the same environment with a key set has the same ring, whatever the random source, so that
  replicas read each other's ciphertexts. Its store holds the rows of the configured database (Postgres under the
  configured data source, or else the SQLite file of the configured path with its pragmas), which was opened and
  whose schema script ran without an error, and when only earlier runs have written these rows, it satisfies the
  constraints of the store. Outside dev mode the identity provider of the configured
  issuer was discovered before the first request is served, and its ID tokens are verified for the configured
  client; in dev mode, which only the exact value
  \<^verbatim>\<open>true\<close> requests, there is none.
\<close>

theorem started_process_is_usable:
  assumes "main_boot b e = Inr p" and "main_boot b' e = Inr p'"
  shows "box_ok (pr_box p) \<and> pr_cfg p = read_config e \<and> pr_cfg p' = read_config e
    \<and> (e ''DBM_ENC_KEY'' \<noteq> [] \<or> TrimSpace (e ''DBM_ENC_KEYS'') \<noteq> [] \<longrightarrow> pr_box p' = pr_box p)
    \<and> (let st = configured_db (read_config e); rows = bt_rows b (sh_sql st) (sh_dsn st)
       in bt_sql_open b (sh_sql st) (sh_dsn st) = None
          \<and> bt_exec b (sh_sql st) (sh_dsn st) (migrate_sql (sh_driver st)) = None
          \<and> pr_store p = load (sh_driver st) rows
          \<and> (\<forall>calls. list_all call_ok calls \<longrightarrow> rows = written_rows calls \<longrightarrow> store_ok (pr_store p)))
    \<and> (if e ''DBM_DEV_MODE'' = ''true'' then pr_idp p = None
       else e ''OIDC_ISSUER'' \<noteq> [] \<and> (\<exists>provider. bt_discover b (e ''OIDC_ISSUER'') = Inr provider
              \<and> pr_idp p = Some (oidc_client (pr_cfg p) provider)
              \<and> idp_Verify (oidc_client (pr_cfg p) provider)
                 = pv_Verify provider \<lparr>vc_ClientID = e ''OIDC_CLIENT_ID'', vc_SkipClientIDCheck = False\<rparr>))"
proof -
  note p = main_boot_cases [OF assms(1)] and p' = main_boot_cases [OF assms(2)]
  have cfg: "pr_cfg p = read_config e" "pr_cfg p' = read_config e"
    using p p' Load_InrD by metis+
  have ring: "ParseKeyring (bt_ephemeral b) (e ''DBM_ENC_KEY'') (e ''DBM_ENC_KEYS'') = Inr (pr_box p)"
    "ParseKeyring (bt_ephemeral b') (e ''DBM_ENC_KEY'') (e ''DBM_ENC_KEYS'') = Inr (pr_box p')"
    using p p' cfg by (simp_all add: read_config_simps)
  have auth: "auth_New (read_config e) (bt_parse_url b) (bt_ping b) (bt_discover b) = Inr (pr_sessions p, pr_idp p)"
    using p cfg by simp
  have load: "Load e = Inr (read_config e)" using p cfg by simp
  have "box_ok (pr_box p)" by (rule ParseKeyring_ok [OF ring(1)])
  moreover have "pr_box p' = pr_box p" if "e ''DBM_ENC_KEY'' \<noteq> [] \<or> TrimSpace (e ''DBM_ENC_KEYS'') \<noteq> []"
    using ring ParseKeyring_persistent [OF that, of "bt_ephemeral b" "bt_ephemeral b'"] by simp
  moreover have db: "bt_sql_open b (sh_sql (configured_db (read_config e))) (sh_dsn (configured_db (read_config e))) = None"
    "bt_exec b (sh_sql (configured_db (read_config e))) (sh_dsn (configured_db (read_config e)))
       (migrate_sql (sh_driver (configured_db (read_config e)))) = None"
    "pr_store p = load (sh_driver (configured_db (read_config e)))
       (bt_rows b (sh_sql (configured_db (read_config e))) (sh_dsn (configured_db (read_config e))))"
    using p unfolding openStore_ok cfg by metis+
  moreover from db(3) have "\<forall>calls. list_all call_ok calls \<longrightarrow>
       bt_rows b (sh_sql (configured_db (read_config e))) (sh_dsn (configured_db (read_config e))) = written_rows calls \<longrightarrow>
       store_ok (pr_store p)"
    using written_rows_ok by metis
  moreover have "pr_idp p = None" if "cfg_DevMode (read_config e)"
    using auth that unfolding auth_New_def by (simp split: sum.splits)
  moreover have "\<exists>provider. bt_discover b (e ''OIDC_ISSUER'') = Inr provider \<and> pr_idp p = Some (oidc_client (read_config e) provider)
      \<and> idp_Verify (oidc_client (read_config e) provider)
         = pv_Verify provider \<lparr>vc_ClientID = e ''OIDC_CLIENT_ID'', vc_SkipClientIDCheck = False\<rparr>"
    if "\<not> cfg_DevMode (read_config e)"
    using auth that unfolding auth_New_def by (simp add: read_config_simps oidc_client_def split: sum.splits)
  moreover have "e ''OIDC_ISSUER'' \<noteq> []" if "\<not> cfg_DevMode (read_config e)"
    using load that unfolding Load_def Let_def by (auto simp: read_config_simps split: if_split_asm)
  ultimately show ?thesis unfolding read_config_simps(1) Let_def unfolding cfg by (simp only: split: if_split) blast
qed

definition boot_vars :: environment where
  "boot_vars k =
     (if k = ''OIDC_ISSUER'' \<or> k = ''OIDC_CLIENT_ID'' then ''x''
      else if k = ''DBM_ENC_KEY'' then replicate 64 CHR ''0'' else [])"

definition demo_provider :: provider where
  "demo_provider =
     \<lparr>pv_Exchange = (\<lambda>_. idp_Exchange demo_idp), pv_AuthCodeURL = (\<lambda>_. idp_AuthCodeURL demo_idp),
      pv_Verify = (\<lambda>_. idp_Verify demo_idp), pv_VerifyAT = (\<lambda>_. idp_VerifyAT demo_idp), pv_end_session = None\<rparr>"

definition boot_world :: "string result \<Rightarrow> boot_env" where
  "boot_world eph = \<lparr>bt_mkdir = None, bt_ephemeral = eph, bt_sql_open = (\<lambda>_ _. None), bt_exec = (\<lambda>_ _ _. None), bt_rows = (\<lambda>_ _. empty_db),
     bt_parse_url = (\<lambda>_. None), bt_ping = None, bt_discover = (\<lambda>_. Inr demo_provider)\<rparr>"

lemma boot_driver: "cfg_StoreDriver (read_config boot_vars) = ''sqlite''" by code_simp

theorem started_process_is_usable_witness:
  "\<exists>p p'. main_boot (boot_world (Inl ''no entropy'')) boot_vars = Inr p
     \<and> main_boot (boot_world (Inr (replicate 32 CHR ''k''))) boot_vars = Inr p'
     \<and> pr_box p' = pr_box p \<and> pr_idp p = Some demo_idp \<and> pr_store p = empty_store ''sqlite''"
proof -
  have ok: "case main_boot (boot_world (Inl ''no entropy'')) boot_vars of Inl _ \<Rightarrow> False | Inr _ \<Rightarrow> True"
    "case main_boot (boot_world (Inr (replicate 32 CHR ''k''))) boot_vars of Inl _ \<Rightarrow> False | Inr _ \<Rightarrow> True"
    by code_simp+
  then obtain p p' where p: "main_boot (boot_world (Inl ''no entropy'')) boot_vars = Inr p"
    "main_boot (boot_world (Inr (replicate 32 CHR ''k''))) boot_vars = Inr p'"
    by (metis old.sum.simps(5) sumE)
  have vars: "boot_vars ''DBM_ENC_KEY'' \<noteq> []" "boot_vars ''DBM_DEV_MODE'' \<noteq> ''true''" by code_simp+
  have "bt_discover (boot_world eph) x = Inr demo_provider" "bt_rows (boot_world eph) d n = empty_db" for eph x d n
    by (simp_all add: boot_world_def)
  moreover have "oidc_client cfg demo_provider = demo_idp" for cfg
    by (simp add: oidc_client_def demo_provider_def demo_idp_def)
  moreover have "load d empty_db = empty_store d" for d by (simp add: load_def empty_db_def empty_store_def)
  moreover have "sh_driver (configured_db (read_config boot_vars)) = ''sqlite''"
    unfolding configured_db_def boot_driver by simp
  ultimately have "pr_box p' = pr_box p \<and> pr_idp p = Some demo_idp \<and> pr_store p = empty_store ''sqlite''"
    using started_process_is_usable [OF p] vars by (simp add: Let_def)
  with p show ?thesis by blast
qed

end
