(* ===== verification/Catalog.thy ===== *)
theory Catalog
  imports Engines
begin

text \<open>
  How the engines answer introspection: the catalogue statements of \<^verbatim>\<open>internal/postgres\<close>, \<^verbatim>\<open>internal/mysql\<close> and
  \<^verbatim>\<open>internal/sqlite\<close> with their arguments, and the methods of \<^verbatim>\<open>dbsql.Engine\<close> that run them and convert the rows.
  The database is the record \<open>catalog\<close>: for each shape of row, what it answers to a statement. A method returns
  its result together with the statements it sent, in order. The Postgres methods copy
  structs of their package into those of \<^verbatim>\<open>dbsql\<close>; both are the same records here and the copies are written out.
\<close>

section \<open>Statements\<close>

type_synonym stmt = "string \<times> string list"

definition sq :: "string \<Rightarrow> string" where "sq s = [SQ] @ s @ [SQ]"

definition dq :: "string \<Rightarrow> string" where "dq s = [DQ] @ s @ [DQ]"

subsection \<open>Postgres\<close>

definition pg_schemas_sql :: stmt where
  "pg_schemas_sql =
     (Join
      [[],
       ''SELECT n.nspname AS schema,'',
       ''       c.relname AS name,'',
       ''       CASE c.relkind WHEN '' @ sq ''r'' @ '' THEN '' @ sq ''table'' @ '' WHEN '' @ sq ''v'' @ '' THEN '' @ sq ''view'' @ '' WHEN ''
         @ sq ''m'' @ '' THEN '' @ sq ''matview'' @ '' WHEN '' @ sq ''p'' @ '' THEN '' @ sq ''table'' @ '' ELSE c.relkind::text END AS kind,'',
       ''       COALESCE(c.reltuples,0)::bigint AS est_rows'',
       ''FROM pg_namespace n'',
       ''LEFT JOIN pg_class c'',
       ''       ON c.relnamespace = n.oid'',
       ''      AND c.relkind IN ('' @ sq ''r'' @ '','' @ sq ''v'' @ '','' @ sq ''m'' @ '','' @ sq ''p'' @ '')'',
       ''WHERE n.nspname NOT IN ('' @ sq ''pg_catalog'' @ '','' @ sq ''information_schema'' @ '')'',
       ''  AND n.nspname NOT LIKE '' @ sq ''pg_toast%'',
       ''  AND n.nspname NOT LIKE '' @ sq ''pg_temp%'',
       ''  AND n.nspname NOT LIKE '' @ sq ''pg_toast_temp%'',
       ''ORDER BY n.nspname, c.relname''] [NL],
      [])"

definition pg_columns_sql :: "string \<Rightarrow> string \<Rightarrow> stmt" where
  "pg_columns_sql schema table =
     (Join
      [[],
       ''SELECT a.attname,'',
       ''       format_type(a.atttypid, a.atttypmod) AS type,'',
       ''       a.attnotnull,'',
       ''       COALESCE(pg_get_expr(d.adbin, d.adrelid), '' @ sq [] @ '') AS dflt,'',
       ''       COALESCE((SELECT true FROM pg_index ix'',
       ''                  WHERE ix.indrelid = a.attrelid AND ix.indisprimary'',
       ''                    AND a.attnum = ANY(ix.indkey)), false) AS pk,'',
       ''       (a.attidentity <> '' @ sq [] @ '') AS ident'',
       ''FROM pg_attribute a'',
       ''JOIN pg_class c     ON c.oid = a.attrelid'',
       ''JOIN pg_namespace n ON n.oid = c.relnamespace'',
       ''LEFT JOIN pg_attrdef d ON d.adrelid = a.attrelid AND d.adnum = a.attnum'',
       ''WHERE n.nspname = $1 AND c.relname = $2 AND a.attnum > 0 AND NOT a.attisdropped'',
       ''ORDER BY a.attnum''] [NL],
      [schema, table])"

definition pg_indexes_sql :: "string \<Rightarrow> string \<Rightarrow> stmt" where
  "pg_indexes_sql schema table =
     (Join
      [[],
       ''SELECT c2.relname, i.indisunique, i.indisprimary, pg_get_indexdef(i.indexrelid)'',
       ''FROM pg_index i'',
       ''JOIN pg_class c      ON c.oid = i.indrelid'',
       ''JOIN pg_namespace n  ON n.oid = c.relnamespace'',
       ''JOIN pg_class c2     ON c2.oid = i.indexrelid'',
       ''WHERE n.nspname = $1 AND c.relname = $2'',
       ''ORDER BY c2.relname''] [NL],
      [schema, table])"

definition pg_keys_sql :: "string \<Rightarrow> string \<Rightarrow> stmt" where
  "pg_keys_sql schema table =
     (Join
      [[],
       ''SELECT con.conname, con.contype, pg_get_constraintdef(con.oid)'',
       ''FROM pg_constraint con'',
       ''JOIN pg_class c      ON c.oid = con.conrelid'',
       ''JOIN pg_namespace n  ON n.oid = c.relnamespace'',
       ''WHERE n.nspname = $1 AND c.relname = $2'',
       ''ORDER BY con.contype, con.conname''] [NL],
      [schema, table])"

definition pg_roles_sql :: stmt where
  "pg_roles_sql =
     (Join
      [[],
       ''SELECT rolname, rolsuper, rolcreatedb, rolcreaterole, rolcanlogin, rolreplication,'',
       ''       rolconnlimit, COALESCE(rolvaliduntil::text, '' @ sq [] @ '')'',
       ''FROM pg_roles'',
       ''WHERE rolname NOT LIKE '' @ sq (''pg'' @ [BSL] @ ''_%''),
       ''ORDER BY rolname''] [NL],
      [])"

definition pg_comment_sql :: "string \<Rightarrow> string \<Rightarrow> stmt" where
  "pg_comment_sql schema table =
     (Join
      [[],
       ''SELECT COALESCE(obj_description(c.oid), '' @ sq [] @ '')'',
       ''FROM pg_class c JOIN pg_namespace n ON n.oid = c.relnamespace'',
       ''WHERE n.nspname = $1 AND c.relname = $2''] [NL],
      [schema, table])"

definition pg_usages_sql :: "string \<Rightarrow> string \<Rightarrow> stmt" where
  "pg_usages_sql schema table =
     (Join
      [[],
       ''SELECT n.nspname, c.relname, con.conname, pg_get_constraintdef(con.oid)'',
       ''FROM pg_constraint con'',
       ''JOIN pg_class c       ON c.oid = con.conrelid'',
       ''JOIN pg_namespace n   ON n.oid = c.relnamespace'',
       ''JOIN pg_class tc      ON tc.oid = con.confrelid'',
       ''JOIN pg_namespace tn  ON tn.oid = tc.relnamespace'',
       ''WHERE con.contype = '' @ sq ''f'' @ '' AND tn.nspname = $1 AND tc.relname = $2'',
       ''ORDER BY n.nspname, c.relname, con.conname''] [NL],
      [schema, table])"

definition pg_database_sql :: stmt where
  "pg_database_sql = (''SELECT current_database()'', [])"

subsection \<open>MySQL\<close>

definition my_schemas_sql :: stmt where
  "my_schemas_sql =
     (Join
      [[],
       ''SELECT s.SCHEMA_NAME AS db,'',
       ''       t.TABLE_NAME  AS name,'',
       ''       CASE t.TABLE_TYPE WHEN '' @ sq ''BASE TABLE'' @ '' THEN '' @ sq ''table'',
       ''                         WHEN '' @ sq ''VIEW'' @ '' THEN '' @ sq ''view'',
       ''                         ELSE LOWER(COALESCE(t.TABLE_TYPE,'' @ sq [] @ '')) END AS kind,'',
       ''       COALESCE(t.TABLE_ROWS, 0) AS est_rows'',
       ''FROM information_schema.SCHEMATA s'',
       ''LEFT JOIN information_schema.TABLES t'',
       ''       ON t.TABLE_SCHEMA = s.SCHEMA_NAME'',
       ''WHERE s.SCHEMA_NAME NOT IN ('' @ sq ''mysql'' @ '','' @ sq ''sys'' @ '','' @ sq ''performance_schema'' @ '','' @ sq ''information_schema'' @ '')'',
       ''ORDER BY s.SCHEMA_NAME, t.TABLE_NAME''] [NL],
      [])"

definition my_columns_sql :: "string \<Rightarrow> string \<Rightarrow> stmt" where
  "my_columns_sql schema table =
     (Join
      [[],
       ''SELECT c.COLUMN_NAME,'',
       ''       c.COLUMN_TYPE,'',
       ''       (c.IS_NULLABLE = '' @ sq ''NO'' @ '')            AS not_null,'',
       ''       COALESCE(c.COLUMN_DEFAULT, '' @ sq [] @ '')    AS dflt,'',
       ''       (c.COLUMN_KEY = '' @ sq ''PRI'' @ '')            AS pk,'',
       ''       (c.EXTRA LIKE '' @ sq ''%auto_increment%'' @ '') AS auto_inc'',
       ''FROM information_schema.COLUMNS c'',
       ''WHERE c.TABLE_SCHEMA = ? AND c.TABLE_NAME = ?'',
       ''ORDER BY c.ORDINAL_POSITION''] [NL],
      [schema, table])"

definition my_indexes_sql :: "string \<Rightarrow> string \<Rightarrow> stmt" where
  "my_indexes_sql schema table =
     (Join
      [[],
       ''SELECT INDEX_NAME,'',
       ''       (NON_UNIQUE = 0)         AS is_unique,'',
       ''       (INDEX_NAME = '' @ sq ''PRIMARY'' @ '') AS is_primary,'',
       ''       GROUP_CONCAT(COLUMN_NAME ORDER BY SEQ_IN_INDEX SEPARATOR '' @ sq '', '' @ '') AS cols'',
       ''FROM information_schema.STATISTICS'',
       ''WHERE TABLE_SCHEMA = ? AND TABLE_NAME = ?'',
       ''GROUP BY INDEX_NAME, NON_UNIQUE'',
       ''ORDER BY (INDEX_NAME = '' @ sq ''PRIMARY'' @ '') DESC, INDEX_NAME''] [NL],
      [schema, table])"

definition my_keys_sql :: "string \<Rightarrow> string \<Rightarrow> stmt" where
  "my_keys_sql schema table =
     (Join
      [[],
       ''SELECT tc.CONSTRAINT_NAME, tc.CONSTRAINT_TYPE,'',
       ''       GROUP_CONCAT(kcu.COLUMN_NAME ORDER BY kcu.ORDINAL_POSITION SEPARATOR '' @ sq '', '' @ '') AS cols'',
       ''FROM information_schema.TABLE_CONSTRAINTS tc'',
       ''JOIN information_schema.KEY_COLUMN_USAGE kcu'',
       ''  ON kcu.CONSTRAINT_SCHEMA = tc.CONSTRAINT_SCHEMA'',
       '' AND kcu.CONSTRAINT_NAME  = tc.CONSTRAINT_NAME'',
       '' AND kcu.TABLE_SCHEMA = tc.TABLE_SCHEMA'',
       '' AND kcu.TABLE_NAME   = tc.TABLE_NAME'',
       ''WHERE tc.TABLE_SCHEMA = ? AND tc.TABLE_NAME = ?'',
       ''  AND tc.CONSTRAINT_TYPE IN ('' @ sq ''PRIMARY KEY'' @ '','' @ sq ''UNIQUE'' @ '','' @ sq ''FOREIGN KEY'' @ '')'',
       ''GROUP BY tc.CONSTRAINT_NAME, tc.CONSTRAINT_TYPE'',
       ''ORDER BY FIELD(tc.CONSTRAINT_TYPE,'' @ sq ''PRIMARY KEY'' @ '','' @ sq ''UNIQUE'' @ '','' @ sq ''FOREIGN KEY'' @ ''), tc.CONSTRAINT_NAME''] [NL],
      [schema, table])"

definition my_fks_sql :: "string \<Rightarrow> string \<Rightarrow> stmt" where
  "my_fks_sql schema table =
     (Join
      [[],
       ''SELECT rc.CONSTRAINT_NAME,'',
       ''       GROUP_CONCAT(kcu.COLUMN_NAME ORDER BY kcu.ORDINAL_POSITION SEPARATOR '' @ sq '', '' @ '')            AS cols,'',
       ''       rc.REFERENCED_TABLE_NAME,'',
       ''       GROUP_CONCAT(kcu.REFERENCED_COLUMN_NAME ORDER BY kcu.ORDINAL_POSITION SEPARATOR '' @ sq '', '' @ '') AS ref_cols,'',
       ''       rc.UPDATE_RULE, rc.DELETE_RULE'',
       ''FROM information_schema.REFERENTIAL_CONSTRAINTS rc'',
       ''JOIN information_schema.KEY_COLUMN_USAGE kcu'',
       ''  ON kcu.CONSTRAINT_SCHEMA = rc.CONSTRAINT_SCHEMA'',
       '' AND kcu.CONSTRAINT_NAME  = rc.CONSTRAINT_NAME'',
       ''WHERE rc.CONSTRAINT_SCHEMA = ? AND rc.TABLE_NAME = ?'',
       ''GROUP BY rc.CONSTRAINT_NAME, rc.REFERENCED_TABLE_NAME, rc.UPDATE_RULE, rc.DELETE_RULE''] [NL],
      [schema, table])"

definition my_usages_sql :: "string \<Rightarrow> string \<Rightarrow> stmt" where
  "my_usages_sql schema table =
     (Join
      [[],
       ''SELECT kcu.TABLE_SCHEMA, kcu.TABLE_NAME, kcu.CONSTRAINT_NAME,'',
       ''       GROUP_CONCAT(kcu.COLUMN_NAME ORDER BY kcu.ORDINAL_POSITION SEPARATOR '' @ sq '', '' @ '')            AS cols,'',
       ''       GROUP_CONCAT(kcu.REFERENCED_COLUMN_NAME ORDER BY kcu.ORDINAL_POSITION SEPARATOR '' @ sq '', '' @ '') AS ref_cols'',
       ''FROM information_schema.KEY_COLUMN_USAGE kcu'',
       ''WHERE kcu.REFERENCED_TABLE_SCHEMA = ? AND kcu.REFERENCED_TABLE_NAME = ?'',
       ''GROUP BY kcu.TABLE_SCHEMA, kcu.TABLE_NAME, kcu.CONSTRAINT_NAME'',
       ''ORDER BY kcu.TABLE_SCHEMA, kcu.TABLE_NAME, kcu.CONSTRAINT_NAME''] [NL],
      [schema, table])"

definition my_roles_sql :: stmt where
  "my_roles_sql =
     (''SELECT User, Host, Super_priv, Create_priv, Create_user_priv FROM mysql.user ORDER BY User, Host'',
      [])"

definition my_comment_sql :: "string \<Rightarrow> string \<Rightarrow> stmt" where
  "my_comment_sql schema table =
     (''SELECT TABLE_COMMENT FROM information_schema.TABLES WHERE TABLE_SCHEMA = ? AND TABLE_NAME = ?'',
      [schema, table])"

definition my_create_sql :: "string \<Rightarrow> string \<Rightarrow> stmt" where
  "my_create_sql schema table = (''SHOW CREATE TABLE '' @ my_qualified schema table, [])"

definition my_database_sql :: stmt where
  "my_database_sql = (''SELECT DATABASE()'', [])"

subsection \<open>SQLite\<close>

definition lite_schemas_sql :: stmt where
  "lite_schemas_sql =
     (Join
      [[],
       ''SELECT name,'',
       ''       CASE type WHEN '' @ sq ''view'' @ '' THEN '' @ sq ''view'' @ '' ELSE '' @ sq ''table'' @ '' END AS kind'',
       ''FROM sqlite_master'',
       ''WHERE type IN ('' @ sq ''table'' @ '','' @ sq ''view'' @ '') AND name NOT LIKE '' @ sq ''sqlite_%'',
       ''ORDER BY type, name''] [NL],
      [])"

definition lite_columns_sql :: "string \<Rightarrow> stmt" where
  "lite_columns_sql table =
     (''SELECT name, type, '' @ dq ''notnull'' @ '', IFNULL(dflt_value,'' @ sq [] @ ''), pk FROM pragma_table_info(?) ORDER BY cid'',
      [table])"

definition lite_index_list_sql :: "string \<Rightarrow> stmt" where
  "lite_index_list_sql table =
     (''SELECT name, '' @ dq ''unique'' @ '', origin FROM pragma_index_list(?) ORDER BY seq'',
      [table])"

definition lite_index_info_sql :: "string \<Rightarrow> stmt" where
  "lite_index_info_sql index =
     (''SELECT name FROM pragma_index_info(?) ORDER BY seqno'',
      [index])"

definition lite_index_def_sql :: "string \<Rightarrow> stmt" where
  "lite_index_def_sql index =
     (''SELECT sql FROM sqlite_master WHERE type='' @ sq ''index'' @ '' AND name=?'',
      [index])"

definition lite_primary_sql :: "string \<Rightarrow> stmt" where
  "lite_primary_sql table =
     (''SELECT name FROM pragma_table_info(?) WHERE pk>0 ORDER BY pk'',
      [table])"

definition lite_uniques_sql :: "string \<Rightarrow> stmt" where
  "lite_uniques_sql table =
     (''SELECT name FROM pragma_index_list(?) WHERE origin='' @ sq ''u'' @ '' ORDER BY seq'',
      [table])"

definition lite_foreign_sql :: "string \<Rightarrow> stmt" where
  "lite_foreign_sql table =
     (''SELECT id, '' @ dq ''from'' @ '', '' @ dq ''table'' @ '', '' @ dq ''to'' @ '' FROM pragma_foreign_key_list(?) ORDER BY id, seq'',
      [table])"

definition lite_usages_sql :: "string \<Rightarrow> stmt" where
  "lite_usages_sql table =
     (Join
      [[],
       ''SELECT m.name AS child, fk.id AS fkid, fk.'' @ dq ''from'' @ '' AS col, fk.'' @ dq ''to'' @ '' AS refcol'',
       ''FROM sqlite_master m'',
       ''JOIN pragma_foreign_key_list(m.name) fk'',
       ''WHERE m.type='' @ sq ''table'' @ '' AND fk.'' @ dq ''table'' @ '' = ?'',
       ''ORDER BY m.name, fk.id, fk.seq''] [NL],
      [table])"

definition lite_create_sql :: "string \<Rightarrow> stmt" where
  "lite_create_sql table =
     (''SELECT sql FROM sqlite_master WHERE type IN ('' @ sq ''table'' @ '','' @ sq ''view'' @ '') AND name=?'',
      [table])"

definition lite_database_sql :: stmt where
  "lite_database_sql = (''SELECT name, file FROM pragma_database_list'', [])"

section \<open>The engine methods\<close>

text \<open>
  One field per shape of row. A scalar answer is an error, no row, or one row whose text may be NULL;
  scanning into a plain string has no other outcome than an error and a text.
\<close>

record catalog =
  ct_relations :: "stmt \<Rightarrow> (string \<times> string option \<times> string option \<times> int option) rowset"
  ct_columns :: "stmt \<Rightarrow> (string \<times> string \<times> bool \<times> string \<times> bool \<times> bool) rowset"
  ct_pg_indexes :: "stmt \<Rightarrow> (string \<times> bool \<times> bool \<times> string) rowset"
  ct_pg_keys :: "stmt \<Rightarrow> (string \<times> string \<times> string) rowset"
  ct_pg_roles :: "stmt \<Rightarrow> (string \<times> bool \<times> bool \<times> bool \<times> bool \<times> bool \<times> int \<times> string) rowset"
  ct_pg_usages :: "stmt \<Rightarrow> (string \<times> string \<times> string \<times> string) rowset"
  ct_pg_text :: "stmt \<Rightarrow> string result"
  ct_my_indexes :: "stmt \<Rightarrow> (string \<times> bool \<times> bool \<times> string option) rowset"
  ct_my_keys :: "stmt \<Rightarrow> (string \<times> string \<times> string option) rowset"
  ct_my_fks :: "stmt \<Rightarrow> (string \<times> string \<times> string \<times> string \<times> string \<times> string) rowset"
  ct_my_usages :: "stmt \<Rightarrow> (string \<times> string \<times> string \<times> string \<times> string) rowset"
  ct_my_roles ::
    "stmt \<Rightarrow> db_error + ((go_error + (string \<times> string \<times> string \<times> string \<times> string)) list \<times> go_error option)"
  ct_my_create :: "stmt \<Rightarrow> (string \<times> string) result"
  ct_text :: "stmt \<Rightarrow> string option option result"
  ct_pairs :: "stmt \<Rightarrow> (string \<times> string) rowset"
  ct_lite_columns :: "stmt \<Rightarrow> (string \<times> string \<times> int \<times> string \<times> int) rowset"
  ct_lite_index_list :: "stmt \<Rightarrow> (string \<times> int \<times> string) rowset"
  ct_lite_index_info :: "stmt \<Rightarrow> string option rowset"
  ct_names :: "stmt \<Rightarrow> string rowset"
  ct_lite_fks :: "stmt \<Rightarrow> (int \<times> string \<times> string \<times> string) rowset"
  ct_lite_usages :: "stmt \<Rightarrow> (string \<times> int \<times> string \<times> string) rowset"

subsection \<open>Postgres: \<^verbatim>\<open>engine.go\<close>\<close>

text \<open>The structs of the package; they have the fields of their counterparts in \<^verbatim>\<open>dbsql\<close>, \<^verbatim>\<open>Role\<close> without a host.\<close>

type_synonym pg_table = db_table
type_synonym pg_schema = db_schema
type_synonym pg_column = db_column
type_synonym pg_index = db_index
type_synonym pg_key = db_key
type_synonym pg_role = db_role
type_synonym pg_usage = db_usage
type_synonym pg_query_result = db_result

definition toDBTable :: "pg_table \<Rightarrow> db_table" where
  "toDBTable t = \<lparr>t_Schema = t_Schema t, t_Name = t_Name t, t_Kind = t_Kind t, t_EstRows = t_EstRows t\<rparr>"

definition toDBColumn :: "pg_column \<Rightarrow> db_column" where
  "toDBColumn c =
     \<lparr>c_Name = c_Name c, c_Type = c_Type c, c_NotNull = c_NotNull c, c_Default = c_Default c, c_PK = c_PK c,
      c_AutoInc = c_AutoInc c\<rparr>"

definition toDBResult :: "pg_query_result option \<Rightarrow> db_result option" where
  "toDBResult r =
     (case r of
        None \<Rightarrow> None
      | Some r \<Rightarrow> Some \<lparr>r_Columns = r_Columns r, r_Rows = r_Rows r, r_IsSelect = r_IsSelect r,
          r_RowsAffected = r_RowsAffected r, r_Command = r_Command r, r_Truncated = r_Truncated r\<rparr>)"

definition Engine_Schemas :: "catalog \<Rightarrow> db_schema list result" where
  "Engine_Schemas cat =
     map_sum id (map (\<lambda>s. \<lparr>s_Name = s_Name s, s_Tables = map toDBTable (s_Tables s)\<rparr>))
       (pg_Schemas (ct_relations cat pg_schemas_sql))"

definition Engine_Columns :: "catalog \<Rightarrow> string \<Rightarrow> string \<Rightarrow> db_column list result" where
  "Engine_Columns cat schema table =
     map_sum id (map toDBColumn) (pg_Columns (ct_columns cat (pg_columns_sql schema table)))"

definition Engine_Indexes :: "catalog \<Rightarrow> string \<Rightarrow> string \<Rightarrow> db_index list result" where
  "Engine_Indexes cat schema table =
     map_sum id (map (\<lambda>x. \<lparr>ix_Name = ix_Name x, ix_Unique = ix_Unique x, ix_Primary = ix_Primary x, ix_Def = ix_Def x,
                           ix_Cols = ix_Cols x\<rparr>))
       (pg_Indexes (ct_pg_indexes cat (pg_indexes_sql schema table)))"

definition Engine_Keys :: "catalog \<Rightarrow> string \<Rightarrow> string \<Rightarrow> db_key list result" where
  "Engine_Keys cat schema table =
     map_sum id (map (\<lambda>k. \<lparr>k_Name = k_Name k, k_Type = k_Type k, k_Def = k_Def k, k_Cols = k_Cols k\<rparr>))
       (pg_Keys (ct_pg_keys cat (pg_keys_sql schema table)))"

definition Engine_Roles :: "catalog \<Rightarrow> db_role list result" where
  "Engine_Roles cat =
     map_sum id (map (\<lambda>r. \<lparr>rl_Name = rl_Name r, rl_Host = [], rl_Super = rl_Super r, rl_CreateDB = rl_CreateDB r,
                           rl_CreateRole = rl_CreateRole r, rl_CanLogin = rl_CanLogin r, rl_Replication = rl_Replication r,
                           rl_ConnLimit = rl_ConnLimit r, rl_ValidUntil = rl_ValidUntil r\<rparr>))
       (pg_Roles (ct_pg_roles cat pg_roles_sql))"

definition Engine_FindUsages :: "catalog \<Rightarrow> string \<Rightarrow> string \<Rightarrow> db_usage list result" where
  "Engine_FindUsages cat schema table =
     map_sum id (map (\<lambda>u. \<lparr>us_Schema = us_Schema u, us_Table = us_Table u, us_Name = us_Name u, us_Def = us_Def u\<rparr>))
       (pg_FindUsages (ct_pg_usages cat (pg_usages_sql schema table)))"

definition Engine_CreateTableDDL :: "catalog \<Rightarrow> string \<Rightarrow> string \<Rightarrow> string result" where
  "Engine_CreateTableDDL cat schema table =
     pg_CreateTableDDL (pg_Columns (ct_columns cat (pg_columns_sql schema table)))
       (pg_Keys (ct_pg_keys cat (pg_keys_sql schema table)))
       (pg_Indexes (ct_pg_indexes cat (pg_indexes_sql schema table))) schema table"

definition pg_TableComment :: "catalog \<Rightarrow> string \<Rightarrow> string \<Rightarrow> string result" where
  "pg_TableComment cat schema table = ct_pg_text cat (pg_comment_sql schema table)"

definition pg_DatabaseName :: "catalog \<Rightarrow> string result" where
  "pg_DatabaseName cat = ct_pg_text cat pg_database_sql"

subsection \<open>MySQL\<close>

definition my_TableComment :: "catalog \<Rightarrow> string \<Rightarrow> string \<Rightarrow> string result" where
  "my_TableComment cat schema table =
     (case ct_text cat (my_comment_sql schema table) of
        Inl e \<Rightarrow> Inl e
      | Inr None \<Rightarrow> Inr []
      | Inr (Some c) \<Rightarrow> Inr (null_string c))"

definition my_CreateTableDDL :: "catalog \<Rightarrow> string \<Rightarrow> string \<Rightarrow> string result" where
  "my_CreateTableDDL cat schema table = map_sum id (\<lambda>(name, ddl). ddl @ '';'') (ct_my_create cat (my_create_sql schema table))"

definition no_rows :: go_error where "no_rows = ''sql: no rows in result set''"

definition my_DatabaseName :: "catalog \<Rightarrow> string result" where
  "my_DatabaseName cat =
     (case ct_text cat my_database_sql of
        Inl e \<Rightarrow> Inl e
      | Inr None \<Rightarrow> Inl no_rows
      | Inr (Some name) \<Rightarrow> Inr (null_string name))"

subsection \<open>SQLite\<close>

text \<open>\<^verbatim>\<open>filepath.Base\<close> of the standard library.\<close>

definition filepath_Base :: "string \<Rightarrow> string" where
  "filepath_Base path =
     (if path = [] then ''.''
      else let base = rev (takeWhile (\<lambda>c. c \<noteq> CHR ''/'') (dropWhile (\<lambda>c. c = CHR ''/'') (rev path)))
           in if base = [] then ''/'' else base)"

fun lite_main_file :: "(go_error + (string \<times> string)) list \<Rightarrow> string" where
  "lite_main_file [] = mainSchema"
| "lite_main_file (Inl e # rows) = mainSchema"
| "lite_main_file (Inr (name, file) # rows) =
     (if name = mainSchema \<and> file \<noteq> [] then filepath_Base file else lite_main_file rows)"

definition lite_DatabaseName :: "catalog \<Rightarrow> string result" where
  "lite_DatabaseName cat =
     Inr (case ct_pairs cat lite_database_sql of Inl e \<Rightarrow> mainSchema | Inr (rows, _) \<Rightarrow> lite_main_file rows)"

definition lite_index_def_answer :: "catalog \<Rightarrow> string \<Rightarrow> string option result" where
  "lite_index_def_answer cat index =
     (case ct_text cat (lite_index_def_sql index) of Inl e \<Rightarrow> Inl e | Inr None \<Rightarrow> Inl no_rows | Inr (Some def) \<Rightarrow> Inr def)"

definition lite_TableComment :: "string \<Rightarrow> string \<Rightarrow> string result" where
  "lite_TableComment schema table = Inr []"

definition lite_Roles :: "db_role list result" where
  "lite_Roles = Inr []"

subsection \<open>What the package \<^verbatim>\<open>postgres\<close> keeps of its own\<close>

text \<open>Its \<^verbatim>\<open>Column\<close> has the display methods of \<^verbatim>\<open>dbsql.Column\<close> once more, the category with fewer type names.\<close>

definition pg_TypeText :: "pg_column \<Rightarrow> string" where
  "pg_TypeText c =
     (let t = c_Type c;
          t = ReplaceAll t ''character varying'' ''varchar'';
          t = ReplaceAll t ''timestamp without time zone'' ''timestamp'';
          t = ReplaceAll t ''time without time zone'' ''time''
      in if c_AutoInc c then t @ '' (auto increment)'' else t)"

definition pg_Cat :: "pg_column \<Rightarrow> string" where
  "pg_Cat c =
     (if c_PK c then ''pk''
      else let t = ToLower (c_Type c) in
        if Contains t ''int'' \<or> Contains t ''numeric'' \<or> Contains t ''decimal''
          \<or> Contains t ''real'' \<or> Contains t ''double'' \<or> Contains t ''money'' \<or> Contains t ''serial'' then ''num''
        else if Contains t ''char'' \<or> Contains t ''text'' \<or> Contains t ''uuid'' then ''text''
        else if Contains t ''timestamp'' \<or> Contains t ''date'' \<or> Contains t ''time'' \<or> Contains t ''interval'' then ''time''
        else if Contains t ''bool'' then ''bool''
        else if Contains t ''json'' then ''json''
        else ''col'')"

definition pg_Browse where
  "pg_Browse srv schema table limit offset = pg_BrowseWhere srv schema table [] [] limit offset True"

lemma pg_Column_methods_agree:
  "pg_TypeText c = TypeText c"
  "\<not> Contains (ToLower (c_Type c)) ''float'' \<Longrightarrow> \<not> Contains (ToLower (c_Type c)) ''enum'' \<Longrightarrow> \<not> Contains (ToLower (c_Type c)) ''year'' \<Longrightarrow>
     pg_Cat c = Cat c"
  by (simp add: pg_TypeText_def TypeText_def) (simp add: pg_Cat_def Cat_def Let_def)

section \<open>The interface\<close>

text \<open>
  Most methods send one statement. The \<^verbatim>\<open>Keys\<close> of MySQL and SQLite, the \<^verbatim>\<open>Indexes\<close> of SQLite and the
  \<^verbatim>\<open>CreateTableDDL\<close> of Postgres send several and stop at the first error; some SQLite methods send none.
\<close>

definition when_ok :: "'a result \<Rightarrow> ('a \<Rightarrow> stmt list) \<Rightarrow> stmt list" where
  "when_ok r f = (case r of Inl e \<Rightarrow> [] | Inr x \<Rightarrow> f x)"

fun lite_index_loop_sent :: "catalog \<Rightarrow> (string \<times> bool \<times> string) list \<Rightarrow> stmt list" where
  "lite_index_loop_sent cat [] = []"
| "lite_index_loop_sent cat ((name, unique, origin) # list) =
     lite_index_info_sql name #
     when_ok (lite_indexColumns (ct_lite_index_info cat (lite_index_info_sql name)))
       (\<lambda>_. lite_index_def_sql name # lite_index_loop_sent cat list)"

definition lite_Indexes_sent :: "catalog \<Rightarrow> string \<Rightarrow> stmt list" where
  "lite_Indexes_sent cat table =
     lite_index_list_sql table #
     when_ok (scan_rows (\<lambda>(name, uniq, origin). (name, uniq \<noteq> 0, origin)) (ct_lite_index_list cat (lite_index_list_sql table)))
       (lite_index_loop_sent cat)"

fun lite_uniques_sent :: "catalog \<Rightarrow> string list \<Rightarrow> stmt list" where
  "lite_uniques_sent cat [] = []"
| "lite_uniques_sent cat (name # names) =
     lite_index_info_sql name #
     when_ok (lite_indexColumns (ct_lite_index_info cat (lite_index_info_sql name))) (\<lambda>_. lite_uniques_sent cat names)"

definition lite_Keys_sent :: "catalog \<Rightarrow> string \<Rightarrow> stmt list" where
  "lite_Keys_sent cat table =
     lite_primary_sql table #
     when_ok (scan_rows id (ct_names cat (lite_primary_sql table))) (\<lambda>_.
       lite_uniques_sql table #
       when_ok (scan_rows id (ct_names cat (lite_uniques_sql table))) (\<lambda>uniques.
         lite_uniques_sent cat uniques @
         when_ok (lite_unique_keys (\<lambda>i. ct_lite_index_info cat (lite_index_info_sql i)) uniques) (\<lambda>_.
           [lite_foreign_sql table])))"

definition my_Keys_sent :: "catalog \<Rightarrow> string \<Rightarrow> string \<Rightarrow> stmt list" where
  "my_Keys_sent cat schema table =
     my_keys_sql schema table #
     when_ok (scan_rows id (ct_my_keys cat (my_keys_sql schema table))) (\<lambda>_. [my_fks_sql schema table])"

definition pg_CreateTableDDL_sent :: "catalog \<Rightarrow> string \<Rightarrow> string \<Rightarrow> stmt list" where
  "pg_CreateTableDDL_sent cat schema table =
     pg_columns_sql schema table #
     when_ok (pg_Columns (ct_columns cat (pg_columns_sql schema table))) (\<lambda>_.
       pg_keys_sql schema table #
       when_ok (pg_Keys (ct_pg_keys cat (pg_keys_sql schema table))) (\<lambda>_. [pg_indexes_sql schema table]))"

fun eng_Schemas :: "catalog \<Rightarrow> engine \<Rightarrow> db_schema list result \<times> stmt list" where
  "eng_Schemas cat PostgresE = (Engine_Schemas cat, [pg_schemas_sql])"
| "eng_Schemas cat MySQLE = (my_Schemas (ct_relations cat my_schemas_sql), [my_schemas_sql])"
| "eng_Schemas cat SQLiteE = (lite_Schemas (ct_pairs cat lite_schemas_sql), [lite_schemas_sql])"

fun eng_Columns :: "catalog \<Rightarrow> engine \<Rightarrow> string \<Rightarrow> string \<Rightarrow> db_column list result \<times> stmt list" where
  "eng_Columns cat PostgresE schema table = (Engine_Columns cat schema table, [pg_columns_sql schema table])"
| "eng_Columns cat MySQLE schema table =
     (my_Columns (ct_columns cat (my_columns_sql schema table)), [my_columns_sql schema table])"
| "eng_Columns cat SQLiteE schema table =
     (lite_Columns (ct_lite_columns cat (lite_columns_sql table)), [lite_columns_sql table])"

fun eng_Indexes :: "catalog \<Rightarrow> engine \<Rightarrow> string \<Rightarrow> string \<Rightarrow> db_index list result \<times> stmt list" where
  "eng_Indexes cat PostgresE schema table = (Engine_Indexes cat schema table, [pg_indexes_sql schema table])"
| "eng_Indexes cat MySQLE schema table =
     (my_Indexes table (ct_my_indexes cat (my_indexes_sql schema table)), [my_indexes_sql schema table])"
| "eng_Indexes cat SQLiteE schema table =
     (lite_Indexes (ct_lite_index_list cat (lite_index_list_sql table)) (\<lambda>i. ct_lite_index_info cat (lite_index_info_sql i))
        (lite_index_def_answer cat) table, lite_Indexes_sent cat table)"

fun eng_Keys :: "catalog \<Rightarrow> engine \<Rightarrow> string \<Rightarrow> string \<Rightarrow> db_key list result \<times> stmt list" where
  "eng_Keys cat PostgresE schema table = (Engine_Keys cat schema table, [pg_keys_sql schema table])"
| "eng_Keys cat MySQLE schema table =
     (my_Keys (ct_my_keys cat (my_keys_sql schema table)) (ct_my_fks cat (my_fks_sql schema table)), my_Keys_sent cat schema table)"
| "eng_Keys cat SQLiteE schema table =
     (lite_Keys (ct_names cat (lite_primary_sql table)) (ct_names cat (lite_uniques_sql table))
        (\<lambda>i. ct_lite_index_info cat (lite_index_info_sql i)) (ct_lite_fks cat (lite_foreign_sql table)) table,
      lite_Keys_sent cat table)"

fun eng_Roles :: "catalog \<Rightarrow> engine \<Rightarrow> db_role list result \<times> stmt list" where
  "eng_Roles cat PostgresE = (Engine_Roles cat, [pg_roles_sql])"
| "eng_Roles cat MySQLE = (my_Roles (ct_my_roles cat my_roles_sql), [my_roles_sql])"
| "eng_Roles cat SQLiteE = (lite_Roles, [])"

fun eng_FindUsages :: "catalog \<Rightarrow> engine \<Rightarrow> string \<Rightarrow> string \<Rightarrow> db_usage list result \<times> stmt list" where
  "eng_FindUsages cat PostgresE schema table = (Engine_FindUsages cat schema table, [pg_usages_sql schema table])"
| "eng_FindUsages cat MySQLE schema table =
     (my_FindUsages table (ct_my_usages cat (my_usages_sql schema table)), [my_usages_sql schema table])"
| "eng_FindUsages cat SQLiteE schema table =
     (lite_FindUsages (ct_lite_usages cat (lite_usages_sql table)) table, [lite_usages_sql table])"

fun eng_TableComment :: "catalog \<Rightarrow> engine \<Rightarrow> string \<Rightarrow> string \<Rightarrow> string result \<times> stmt list" where
  "eng_TableComment cat PostgresE schema table = (pg_TableComment cat schema table, [pg_comment_sql schema table])"
| "eng_TableComment cat MySQLE schema table = (my_TableComment cat schema table, [my_comment_sql schema table])"
| "eng_TableComment cat SQLiteE schema table = (lite_TableComment schema table, [])"

fun eng_CreateTableDDL :: "catalog \<Rightarrow> engine \<Rightarrow> string \<Rightarrow> string \<Rightarrow> string result \<times> stmt list" where
  "eng_CreateTableDDL cat PostgresE schema table =
     (Engine_CreateTableDDL cat schema table, pg_CreateTableDDL_sent cat schema table)"
| "eng_CreateTableDDL cat MySQLE schema table = (my_CreateTableDDL cat schema table, [my_create_sql schema table])"
| "eng_CreateTableDDL cat SQLiteE schema table =
     (lite_CreateTableDDL (ct_text cat (lite_create_sql table)) table, [lite_create_sql table])"

fun eng_DatabaseName :: "catalog \<Rightarrow> engine \<Rightarrow> string result \<times> stmt list" where
  "eng_DatabaseName cat PostgresE = (pg_DatabaseName cat, [pg_database_sql])"
| "eng_DatabaseName cat MySQLE = (my_DatabaseName cat, [my_database_sql])"
| "eng_DatabaseName cat SQLiteE = (lite_DatabaseName cat, [lite_database_sql])"

section \<open>What introspection sends\<close>

text \<open>
  The fixed texts of an engine. \<^verbatim>\<open>SHOW CREATE TABLE\<close> of MySQL, which takes no arguments, is the only statement
  whose text depends on the request: it names the quoted table.
\<close>

fun catalog_texts :: "engine \<Rightarrow> string list" where
  "catalog_texts PostgresE = map fst [pg_schemas_sql, pg_columns_sql [] [], pg_indexes_sql [] [], pg_keys_sql [] [], pg_roles_sql,
     pg_comment_sql [] [], pg_usages_sql [] [], pg_database_sql]"
| "catalog_texts MySQLE = map fst [my_schemas_sql, my_columns_sql [] [], my_indexes_sql [] [], my_keys_sql [] [], my_fks_sql [] [],
     my_usages_sql [] [], my_roles_sql, my_comment_sql [] [], my_database_sql]"
| "catalog_texts SQLiteE = map fst [lite_schemas_sql, lite_columns_sql [], lite_index_list_sql [], lite_index_info_sql [],
     lite_index_def_sql [], lite_primary_sql [], lite_uniques_sql [], lite_foreign_sql [], lite_usages_sql [], lite_create_sql [],
     lite_database_sql]"

definition catalog_stmt :: "engine \<Rightarrow> stmt \<Rightarrow> bool" where
  "catalog_stmt eng q \<longleftrightarrow>
     fst q \<in> set (catalog_texts eng)
     \<or> eng = MySQLE \<and> (\<exists>schema table. fst q = ''SHOW CREATE TABLE '' @ my_qualified schema table)"

lemmas pg_sql_texts = pg_schemas_sql_def pg_columns_sql_def pg_indexes_sql_def pg_keys_sql_def pg_roles_sql_def
  pg_comment_sql_def pg_usages_sql_def pg_database_sql_def
lemmas my_sql_texts = my_schemas_sql_def my_columns_sql_def my_indexes_sql_def my_keys_sql_def my_fks_sql_def
  my_usages_sql_def my_roles_sql_def my_comment_sql_def my_database_sql_def
lemmas lite_sql_texts = lite_schemas_sql_def lite_columns_sql_def lite_index_list_sql_def lite_index_info_sql_def
  lite_index_def_sql_def lite_primary_sql_def lite_uniques_sql_def lite_foreign_sql_def lite_usages_sql_def
  lite_create_sql_def lite_database_sql_def

text \<open>A text does not depend on the arguments of its statement.\<close>

lemma pg_text_fixed:
  "fst (pg_columns_sql s t) = fst (pg_columns_sql [] [])" "fst (pg_indexes_sql s t) = fst (pg_indexes_sql [] [])"
  "fst (pg_keys_sql s t) = fst (pg_keys_sql [] [])" "fst (pg_comment_sql s t) = fst (pg_comment_sql [] [])"
  "fst (pg_usages_sql s t) = fst (pg_usages_sql [] [])"
  unfolding pg_sql_texts fst_conv by (rule refl)+

lemma my_text_fixed:
  "fst (my_columns_sql s t) = fst (my_columns_sql [] [])" "fst (my_indexes_sql s t) = fst (my_indexes_sql [] [])"
  "fst (my_keys_sql s t) = fst (my_keys_sql [] [])" "fst (my_fks_sql s t) = fst (my_fks_sql [] [])"
  "fst (my_usages_sql s t) = fst (my_usages_sql [] [])" "fst (my_comment_sql s t) = fst (my_comment_sql [] [])"
  unfolding my_sql_texts fst_conv by (rule refl)+

lemma lite_text_fixed:
  "fst (lite_columns_sql t) = fst (lite_columns_sql [])" "fst (lite_index_list_sql t) = fst (lite_index_list_sql [])"
  "fst (lite_index_info_sql t) = fst (lite_index_info_sql [])" "fst (lite_index_def_sql t) = fst (lite_index_def_sql [])"
  "fst (lite_primary_sql t) = fst (lite_primary_sql [])" "fst (lite_uniques_sql t) = fst (lite_uniques_sql [])"
  "fst (lite_foreign_sql t) = fst (lite_foreign_sql [])" "fst (lite_usages_sql t) = fst (lite_usages_sql [])"
  "fst (lite_create_sql t) = fst (lite_create_sql [])"
  unfolding lite_sql_texts fst_conv by (rule refl)+

lemma pg_stmts [simp]:
  "catalog_stmt PostgresE pg_schemas_sql" "catalog_stmt PostgresE (pg_columns_sql s t)" "catalog_stmt PostgresE (pg_indexes_sql s t)"
  "catalog_stmt PostgresE (pg_keys_sql s t)" "catalog_stmt PostgresE pg_roles_sql" "catalog_stmt PostgresE (pg_comment_sql s t)"
  "catalog_stmt PostgresE (pg_usages_sql s t)" "catalog_stmt PostgresE pg_database_sql"
  unfolding catalog_stmt_def catalog_texts.simps list.map list.set
    pg_text_fixed [of s t]
  by blast+

lemma my_stmts [simp]:
  "catalog_stmt MySQLE my_schemas_sql" "catalog_stmt MySQLE (my_columns_sql s t)" "catalog_stmt MySQLE (my_indexes_sql s t)"
  "catalog_stmt MySQLE (my_keys_sql s t)" "catalog_stmt MySQLE (my_fks_sql s t)" "catalog_stmt MySQLE (my_usages_sql s t)"
  "catalog_stmt MySQLE my_roles_sql" "catalog_stmt MySQLE (my_comment_sql s t)" "catalog_stmt MySQLE my_database_sql"
  "catalog_stmt MySQLE (my_create_sql s t)"
  unfolding catalog_stmt_def catalog_texts.simps list.map list.set my_create_sql_def fst_conv
    my_text_fixed [of s t]
  by blast+

lemma lite_stmts [simp]:
  "catalog_stmt SQLiteE lite_schemas_sql" "catalog_stmt SQLiteE (lite_columns_sql t)" "catalog_stmt SQLiteE (lite_index_list_sql t)"
  "catalog_stmt SQLiteE (lite_index_info_sql t)" "catalog_stmt SQLiteE (lite_index_def_sql t)"
  "catalog_stmt SQLiteE (lite_primary_sql t)" "catalog_stmt SQLiteE (lite_uniques_sql t)" "catalog_stmt SQLiteE (lite_foreign_sql t)"
  "catalog_stmt SQLiteE (lite_usages_sql t)" "catalog_stmt SQLiteE (lite_create_sql t)" "catalog_stmt SQLiteE lite_database_sql"
  unfolding catalog_stmt_def catalog_texts.simps list.map list.set
    lite_text_fixed [of t]
  by blast+

lemma when_ok_all: "(\<And>x. list_all P (f x)) \<Longrightarrow> list_all P (when_ok r f)"
  by (simp add: when_ok_def split: sum.split)

lemma lite_index_loop_sends: "list_all (catalog_stmt SQLiteE) (lite_index_loop_sent cat list)"
  by (induction cat list rule: lite_index_loop_sent.induct) (auto intro: when_ok_all)

lemma lite_uniques_sends: "list_all (catalog_stmt SQLiteE) (lite_uniques_sent cat names)"
  by (induction cat names rule: lite_uniques_sent.induct) (auto intro: when_ok_all)

text \<open>Every method sends catalogue statements of its engine and nothing else.\<close>

lemma introspection_sends_catalogue:
  "list_all (catalog_stmt eng) (snd (eng_Schemas cat eng))" "list_all (catalog_stmt eng) (snd (eng_Columns cat eng s t))"
  "list_all (catalog_stmt eng) (snd (eng_Indexes cat eng s t))" "list_all (catalog_stmt eng) (snd (eng_Keys cat eng s t))"
  "list_all (catalog_stmt eng) (snd (eng_Roles cat eng))" "list_all (catalog_stmt eng) (snd (eng_FindUsages cat eng s t))"
  "list_all (catalog_stmt eng) (snd (eng_TableComment cat eng s t))" "list_all (catalog_stmt eng) (snd (eng_CreateTableDDL cat eng s t))"
  "list_all (catalog_stmt eng) (snd (eng_DatabaseName cat eng))"
  by (cases eng; simp add: lite_Indexes_sent_def lite_Keys_sent_def my_Keys_sent_def pg_CreateTableDDL_sent_def lite_index_loop_sends
      lite_uniques_sends when_ok_all)+

text \<open>The fixed texts are \<^verbatim>\<open>SELECT\<close> statements.\<close>

lemma catalogue_reads: "list_all (\<lambda>q. HasPrefix (TrimSpace q) ''SELECT '') (catalog_texts eng)"
proof -
  have "\<forall>e\<in>{PostgresE, MySQLE, SQLiteE}. list_all (\<lambda>q. HasPrefix (TrimSpace q) ''SELECT '') (catalog_texts e)"
    by code_simp
  then show ?thesis by (cases eng) simp_all
qed

section \<open>Names reach the catalogue as arguments\<close>

text \<open>
  The texts do not depend on the names in the request, except for \<^verbatim>\<open>SHOW CREATE TABLE\<close>, which takes no arguments and
  quotes them. Every placeholder of a text with question marks has its argument.
\<close>

definition placeholders_match :: "stmt \<Rightarrow> bool" where
  "placeholders_match q \<longleftrightarrow> count_list (fst q) (CHR ''?'') = length (snd q)"

lemma count_Join: "count_list (Join parts [NL]) (CHR ''?'') = sum_list (map (\<lambda>p. count_list p (CHR ''?'')) parts)"
proof (induction parts)
  case (Cons p parts)
  then show ?case by (cases parts) (simp_all)
qed simp

lemma question_marks_match:
  "placeholders_match (my_columns_sql schema table)" "placeholders_match (my_indexes_sql schema table)"
  "placeholders_match (my_keys_sql schema table)" "placeholders_match (my_fks_sql schema table)"
  "placeholders_match (my_usages_sql schema table)" "placeholders_match (my_comment_sql schema table)"
  "placeholders_match (lite_columns_sql table)" "placeholders_match (lite_index_list_sql table)"
  "placeholders_match (lite_index_info_sql table)" "placeholders_match (lite_index_def_sql table)"
  "placeholders_match (lite_primary_sql table)" "placeholders_match (lite_uniques_sql table)"
  "placeholders_match (lite_foreign_sql table)" "placeholders_match (lite_usages_sql table)"
  "placeholders_match (lite_create_sql table)"
  by (simp_all add: placeholders_match_def my_columns_sql_def my_indexes_sql_def my_keys_sql_def my_fks_sql_def my_usages_sql_def
      my_comment_sql_def lite_columns_sql_def lite_index_list_sql_def lite_index_info_sql_def lite_index_def_sql_def
      lite_primary_sql_def lite_uniques_sql_def lite_foreign_sql_def lite_usages_sql_def lite_create_sql_def
      count_Join sq_def dq_def)

lemma my_create_sql_reads_back:
  "\<exists>t. fst (my_create_sql schema table) = ''SHOW CREATE TABLE '' @ t
     \<and> read_path (read_quoted BQ) t = Some (if schema = [] then [table] else [schema, table], [])"
  using my.read_Qualified [of "[]" schema table] by (simp add: my_create_sql_def)

section \<open>The copies of the Postgres engine lose nothing\<close>

lemma toDBTable_id [simp]: "toDBTable = id"
  by (rule ext) (simp add: toDBTable_def)

lemma toDBColumn_id [simp]: "toDBColumn = id"
  by (rule ext) (simp add: toDBColumn_def)

lemma toDBResult_id [simp]: "toDBResult = id"
  by (rule ext) (simp add: toDBResult_def split: option.split)

lemma map_sum_ident: "(\<And>x. f x = x) \<Longrightarrow> map_sum id (map f) r = r"
  by (cases r) (simp_all add: map_idI)

lemma Engine_copies:
  "Engine_Schemas cat = pg_Schemas (ct_relations cat pg_schemas_sql)"
  "Engine_Columns cat schema table = pg_Columns (ct_columns cat (pg_columns_sql schema table))"
  "Engine_Indexes cat schema table = pg_Indexes (ct_pg_indexes cat (pg_indexes_sql schema table))"
  "Engine_Keys cat schema table = pg_Keys (ct_pg_keys cat (pg_keys_sql schema table))"
  "Engine_FindUsages cat schema table = pg_FindUsages (ct_pg_usages cat (pg_usages_sql schema table))"
  by (simp_all add: Engine_Schemas_def Engine_Columns_def Engine_Indexes_def Engine_Keys_def Engine_FindUsages_def map_sum_ident
      sum.map_id0 del: map_sum.simps)

lemma Engine_Roles_copy: "Engine_Roles cat = pg_Roles (ct_pg_roles cat pg_roles_sql)"
  unfolding Engine_Roles_def pg_Roles_def
  by (auto simp: scan_rows_def split: sum.split prod.split option.split)

end
