(* ===== verification/WebSql.thy ===== *)
theory WebSql
  imports WebCore Catalog "HOL-Library.AList"
begin

text \<open>
  The SQL endpoints of the JSON API (\<^verbatim>\<open>api_sql.go\<close>) and the table export (\<^verbatim>\<open>handlers_export.go\<close>), handler by
  handler. A decoded request body is an argument, \<^const>\<open>None\<close> if \<^verbatim>\<open>readJSON\<close> fails. What the databases answer to
  introspection is the record \<open>introspection\<close>; the catalogue statements that the handlers send to get these answers are
  logged like every other command. \<open>serve\<close> is the part of the route table of \<^verbatim>\<open>/api\<close> that reaches a SQL
  engine, \<open>route_world\<close> adds the export; the safety properties are stated over them, so that they hold of every endpoint at once.
  When an engine returns an error, the \<^verbatim>\<open>result\<close> field of the response is not modelled.
\<close>

section \<open>Introspection answers\<close>

text \<open>
  The catalogue of the target database, and the databases that a MongoDB server lists.
\<close>

record introspection =
  ig_catalog :: catalog
  ig_mongo_dbs :: "mongo_db list result"

text \<open>The statements of one request are one entry of the log; a method that sends none leaves no entry.\<close>

definition log_catalog :: "connection \<Rightarrow> stmt list \<Rightarrow> world \<Rightarrow> world" where
  "log_catalog c stmts w =
     (if stmts = [] then w else log_sent (cn_ID c) (map (\<lambda>(q, args). SCatalog q args) stmts) w)"

fun eng_GenSelect :: "engine \<Rightarrow> db_column list result \<Rightarrow> string \<Rightarrow> string \<Rightarrow> string result" where
  "eng_GenSelect PostgresE = pg_GenSelect"
| "eng_GenSelect MySQLE = my_GenSelect"
| "eng_GenSelect SQLiteE = lite_GenSelect"

fun eng_GenInsert :: "engine \<Rightarrow> db_column list result \<Rightarrow> string \<Rightarrow> string \<Rightarrow> string result" where
  "eng_GenInsert PostgresE = pg_GenInsert"
| "eng_GenInsert MySQLE = my_GenInsert"
| "eng_GenInsert SQLiteE = lite_GenInsert"

fun eng_GenUpdate :: "engine \<Rightarrow> db_column list result \<Rightarrow> string \<Rightarrow> string \<Rightarrow> string result" where
  "eng_GenUpdate PostgresE = pg_GenUpdate"
| "eng_GenUpdate MySQLE = my_GenUpdate"
| "eng_GenUpdate SQLiteE = lite_GenUpdate"

definition toColumnDTO :: "db_column \<Rightarrow> column_dto" where
  "toColumnDTO c =
     \<lparr>cd_Name = c_Name c, cd_Type = c_Type c, cd_TypeText = TypeText c, cd_Cat = Cat c,
      cd_NotNull = c_NotNull c, cd_Default = c_Default c, cd_PK = c_PK c, cd_AutoInc = c_AutoInc c\<rparr>"

section \<open>Reading endpoints\<close>

definition error_field :: "'a result \<Rightarrow> (string \<times> jfield) list" where
  "error_field r = (case r of Inl e \<Rightarrow> [(''error'', FStr e)] | Inr _ \<Rightarrow> [])"

definition apiExplorer :: "introspection \<Rightarrow> web_env \<Rightarrow> world \<Rightarrow> response \<times> world" where
  "apiExplorer ig rq w =
     (case connFor rq w of
        Inl _ \<Rightarrow> (apiErr 404 ''connection not found'', w)
      | Inr c \<Rightarrow>
          (if Store.Engine c = FamilyRedis then (writeJSON 200 [(''kind'', FStr ''redis'')], w)
           else if Store.Engine c = FamilyMongo then
             (case pool_for rq MongoF c w of
                (Inl e, w') \<Rightarrow>
                  (writeJSON 200 [(''kind'', FStr ''mongodb''), (''error'', FStr (''connect: '' @ e))], w')
              | (Inr _, w') \<Rightarrow>
                  (writeJSON 200 ([(''kind'', FStr ''mongodb''), (''databases'', FDatabases (or_zero [] (ig_mongo_dbs ig)))]
                     @ error_field (ig_mongo_dbs ig)), w'))
           else
             (case open_engine rq c w of
                (Inl e, w') \<Rightarrow>
                  (writeJSON 200 [(''kind'', FStr (Store.Engine c)), (''error'', FStr (''connect: '' @ e))], w')
              | (Inr eng, w') \<Rightarrow>
                  (let (schemas, sent) = eng_Schemas (ig_catalog ig) eng
                   in (writeJSON 200 ([(''kind'', FStr (Store.Engine c)), (''schemas'', FSchemas (or_zero [] schemas))]
                         @ error_field schemas), log_catalog c sent w')))))"

text \<open>\<^verbatim>\<open>apiColumns\<close>, \<^verbatim>\<open>apiIndexes\<close> and \<^verbatim>\<open>apiKeys\<close> share their shape.\<close>

definition api_list ::
    "web_env \<Rightarrow> world \<Rightarrow> (engine \<Rightarrow> 'a list result \<times> stmt list) \<Rightarrow> string \<Rightarrow> ('a list \<Rightarrow> jfield) \<Rightarrow> response \<times> world" where
  "api_list rq w answer name field =
     (case apiSQL rq w of
        (Inl resp, w') \<Rightarrow> (resp, w')
      | (Inr (c, eng), w') \<Rightarrow>
          (case answer eng of
             (Inl e, sent) \<Rightarrow> (apiErr 400 e, log_catalog c sent w')
           | (Inr xs, sent) \<Rightarrow> (writeJSON 200 [(name, field xs)], log_catalog c sent w')))"

definition apiColumns :: "introspection \<Rightarrow> string \<Rightarrow> string \<Rightarrow> web_env \<Rightarrow> world \<Rightarrow> response \<times> world" where
  "apiColumns ig schema table rq w =
     api_list rq w (\<lambda>eng. eng_Columns (ig_catalog ig) eng schema table) ''columns'' (\<lambda>cs. FColumns (map toColumnDTO cs))"

definition apiIndexes :: "introspection \<Rightarrow> string \<Rightarrow> string \<Rightarrow> web_env \<Rightarrow> world \<Rightarrow> response \<times> world" where
  "apiIndexes ig schema table rq w =
     api_list rq w (\<lambda>eng. eng_Indexes (ig_catalog ig) eng schema table) ''indexes'' FIndexes"

definition apiKeys :: "introspection \<Rightarrow> string \<Rightarrow> string \<Rightarrow> web_env \<Rightarrow> world \<Rightarrow> response \<times> world" where
  "apiKeys ig schema table rq w =
     api_list rq w (\<lambda>eng. eng_Keys (ig_catalog ig) eng schema table) ''keys'' FKeys"

text \<open>The generators of \<^verbatim>\<open>SELECT\<close>, \<^verbatim>\<open>INSERT\<close> and \<^verbatim>\<open>UPDATE\<close> ask for the columns.\<close>

definition apiGenerate :: "introspection \<Rightarrow> string \<Rightarrow> string \<Rightarrow> string \<Rightarrow> web_env \<Rightarrow> world \<Rightarrow> response \<times> world" where
  "apiGenerate ig kind schema table rq w =
     (case apiSQL rq w of
        (Inl resp, w') \<Rightarrow> (resp, w')
      | (Inr (c, eng), w') \<Rightarrow>
          (let (cols, asked) = eng_Columns (ig_catalog ig) eng schema table;
               gen = (if kind = ''select'' then Some (eng_GenSelect eng cols schema table, asked)
                      else if kind = ''insert'' then Some (eng_GenInsert eng cols schema table, asked)
                      else if kind = ''update'' then Some (eng_GenUpdate eng cols schema table, asked)
                      else if kind = ''create'' then Some (eng_CreateTableDDL (ig_catalog ig) eng schema table)
                      else None)
           in case gen of
                None \<Rightarrow> (apiErr 400 ''unknown kind'', w')
              | Some (Inl e, sent) \<Rightarrow> (apiErr 400 e, log_catalog c sent w')
              | Some (Inr sql, sent) \<Rightarrow> (writeJSON 200 [(''sql'', FStr sql)], log_catalog c sent w')))"

definition apiDoc :: "introspection \<Rightarrow> string \<Rightarrow> string \<Rightarrow> web_env \<Rightarrow> world \<Rightarrow> response \<times> world" where
  "apiDoc ig schema table rq w =
     (case apiSQL rq w of
        (Inl resp, w') \<Rightarrow> (resp, w')
      | (Inr (c, eng), w') \<Rightarrow>
          (case eng_Columns (ig_catalog ig) eng schema table of
             (Inl e, sent) \<Rightarrow> (apiErr 400 e, log_catalog c sent w')
           | (Inr cols, sent) \<Rightarrow>
               (let (keys, sent_keys) = eng_Keys (ig_catalog ig) eng schema table;
                    (indexes, sent_indexes) = eng_Indexes (ig_catalog ig) eng schema table;
                    (comment, sent_comment) = eng_TableComment (ig_catalog ig) eng schema table
                in (writeJSON 200 [(''schema'', FStr schema), (''table'', FStr table), (''columns'', FColumns (map toColumnDTO cols)),
                      (''keys'', FKeys (or_zero [] keys)), (''indexes'', FIndexes (or_zero [] indexes)),
                      (''comment'', FStr (or_zero [] comment))],
                    log_catalog c (sent @ sent_keys @ sent_indexes @ sent_comment) w'))))"

definition apiUsages :: "introspection \<Rightarrow> string \<Rightarrow> string \<Rightarrow> web_env \<Rightarrow> world \<Rightarrow> response \<times> world" where
  "apiUsages ig schema table rq w =
     (case apiSQL rq w of
        (Inl resp, w') \<Rightarrow> (resp, w')
      | (Inr (c, eng), w') \<Rightarrow>
          (let (usages, sent) = eng_FindUsages (ig_catalog ig) eng schema table
           in (writeJSON 200 ([(''schema'', FStr schema), (''table'', FStr table), (''usages'', FUsages (or_zero [] usages))]
                 @ error_field usages), log_catalog c sent w')))"

definition apiRoles :: "introspection \<Rightarrow> web_env \<Rightarrow> world \<Rightarrow> response \<times> world" where
  "apiRoles ig rq w =
     (if \<not> u_Admin (en_user rq) then (apiErr 403 ''admin required'', w)
      else api_list rq w (eng_Roles (ig_catalog ig)) ''roles'' FRoles)"

text \<open>The prefill of the modify-column form: the last column of that name wins.\<close>

definition prefill :: "string \<Rightarrow> db_column list \<Rightarrow> (string \<times> jfield) list" where
  "prefill column cols =
     (case filter (\<lambda>c. c_Name c = column) cols of
        [] \<Rightarrow> [(''nullable'', FBool True)]
      | found \<Rightarrow> (let c = last found in
          [(''name'', FStr (c_Name c)), (''type'', FStr (c_Type c)), (''nullable'', FBool (\<not> c_NotNull c)),
           (''default'', FStr (c_Default c))]))"

definition apiDDLFormPrefill ::
    "introspection \<Rightarrow> string \<Rightarrow> string \<Rightarrow> string \<Rightarrow> string \<Rightarrow> web_env \<Rightarrow> world \<Rightarrow> response \<times> world" where
  "apiDDLFormPrefill ig kind schema table column rq w =
     (case connFor rq w of
        Inl _ \<Rightarrow> (apiErr 404 ''connection not found'', w)
      | Inr c \<Rightarrow>
          (if \<not> ca_Write (req_access rq w c) then (apiErr 403 ''write access required'', w)
           else if kind \<noteq> ''modify-column'' then (writeJSON 200 [(''nullable'', FBool True)], w)
           else case open_engine rq c w of
                  (Inl _, w') \<Rightarrow> (writeJSON 200 [(''nullable'', FBool True)], w')
                | (Inr eng, w') \<Rightarrow>
                    (let (cols, sent) = eng_Columns (ig_catalog ig) eng schema table
                     in (writeJSON 200 (case cols of
                           Inl _ \<Rightarrow> [(''nullable'', FBool True)]
                         | Inr cols \<Rightarrow> prefill column cols), log_catalog c sent w'))))"

section \<open>The data grid and the console\<close>

definition opt_result :: "db_result result \<Rightarrow> db_result option" where
  "opt_result r = (case r of Inl _ \<Rightarrow> None | Inr x \<Rightarrow> Some x)"

definition no_error :: "'a result \<Rightarrow> bool" where
  "no_error r = (case r of Inl _ \<Rightarrow> False | Inr _ \<Rightarrow> True)"

record grid_query =
  gq_schema :: string
  gq_table :: string
  gq_where :: string
  gq_order :: string
  gq_page :: string
  gq_size :: string

definition apiGrid :: "grid_query \<Rightarrow> web_env \<Rightarrow> world \<Rightarrow> response \<times> world" where
  "apiGrid q rq w =
     (case apiSQL rq w of
        (Inl resp, w') \<Rightarrow> (resp, w')
      | (Inr (c, eng), w') \<Rightarrow>
          (let u = en_user rq in
           if serverSideBlocked u (cn_Kind c) [gq_where q, gq_order q] then (apiErr 403 serverSideBlockedMsg, w')
           else
             (let page = Atoi_lax (gq_page q);
                  page = (if page < 0 then 0 else page);
                  size = Atoi_lax (gq_size q);
                  size = (if size \<le> 0 \<or> size > 1000 then browseLimit else size);
                  (res, tr) = eng_BrowseWhere eng (en_target rq) (gq_schema q) (gq_table q) (gq_where q) (gq_order q)
                                size (mul_int64 page size) True;
                  w' = log_sent (cn_ID c) tr w';
                  w' = add_audit rq (new_audit (u_Email u) (cn_ID c) ''sql_browse''
                         (gq_schema q @ ''.'' @ gq_table q) (no_error res)) w'
              in (writeJSON 200 ([(''result'', FResult (opt_result res)),
                    (''readOnly'', FBool (cn_ReadOnly c \<or> \<not> ca_Write (req_access rq w' c))),
                    (''page'', FInt page)] @ error_field res), w'))))"

record query_in =
  qi_SQL :: string
  qi_Confirm :: bool
  qi_Schema :: string

definition apiQuery :: "query_in option \<Rightarrow> web_env \<Rightarrow> world \<Rightarrow> response \<times> world" where
  "apiQuery body rq w =
     (if \<not> en_csrf rq then (apiErr 403 ''bad csrf'', w)
      else case connFor rq w of
        Inl _ \<Rightarrow> (apiErr 404 ''connection not found'', w)
      | Inr c \<Rightarrow>
      (case body of
         None \<Rightarrow> (apiErr 400 ''bad json'', w)
       | Some i \<Rightarrow>
           (let u = en_user rq;
                sql = TrimSpace (qi_SQL i);
                readOnly = (cn_ReadOnly c \<or> \<not> ca_Write (req_access rq w c));
                resp = [(''readOnly'', FBool readOnly)]
            in if sql = [] then (writeJSON 200 (resp @ [(''error'', FStr ''empty statement'')]), w)
               else if serverSideBlocked u (cn_Kind c) [sql]
                    then (writeJSON 200 (resp @ [(''error'', FStr serverSideBlockedMsg)]), w)
               else if \<not> readOnly \<and> NeedsConfirm sql \<and> \<not> qi_Confirm i
                    then (writeJSON 200 (resp @ [(''needConfirm'', FBool True), (''sql'', FStr sql)]), w)
               else case open_engine rq c w of
                      (Inl e, w') \<Rightarrow> (writeJSON 200 (resp @ [(''error'', FStr (''connect: '' @ e))]), w')
                    | (Inr eng, w') \<Rightarrow>
                        (let (res, tr) = eng_Query eng (en_target rq) sql readOnly (qi_Schema i);
                             w' = log_sent (cn_ID c) tr w';
                             w' = add_audit rq (new_audit (u_Email u) (cn_ID c) ''sql_query'' (auditDetail sql)
                                    (no_error res)) w'
                         in (writeJSON 200 (resp @ [(''result'', FResult (opt_result res))] @ error_field res), w')))))"

section \<open>Statements that write\<close>

text \<open>\<^verbatim>\<open>execDDLAudit\<close> and \<^verbatim>\<open>execScriptAudit\<close>: run, then record, whatever the outcome.\<close>

definition execDDLAudit ::
    "web_env \<Rightarrow> connection \<Rightarrow> engine \<Rightarrow> string \<Rightarrow> string \<Rightarrow> world \<Rightarrow> go_error option \<times> world" where
  "execDDLAudit rq c eng action sql w =
     (let (res, tr) = eng_Exec eng (en_target rq) sql;
          w = log_sent (cn_ID c) tr w
      in ((case res of Inl e \<Rightarrow> Some e | Inr _ \<Rightarrow> None),
          add_audit rq (new_audit (u_Email (en_user rq)) (cn_ID c) action (auditDetail sql) (no_error res)) w))"

definition execScriptAudit ::
    "web_env \<Rightarrow> connection \<Rightarrow> engine \<Rightarrow> string \<Rightarrow> string list \<Rightarrow> world \<Rightarrow> go_error option \<times> world" where
  "execScriptAudit rq c eng action stmts w =
     (let (res, tr) = eng_ExecScript eng (en_target rq) stmts;
          w = log_sent (cn_ID c) tr w
      in ((case res of Inl e \<Rightarrow> Some e | Inr _ \<Rightarrow> None),
          add_audit rq (new_audit (u_Email (en_user rq)) (cn_ID c) action (auditDetail (Join stmts ''; '')) (no_error res)) w))"

definition done_or_error :: "go_error option \<times> world \<Rightarrow> response \<times> world" where
  "done_or_error r = (case r of (Some e, w) \<Rightarrow> (apiErr 400 e, w) | (None, w) \<Rightarrow> (ok_response, w))"

record tx_in =
  ti_Statements :: "string list"
  ti_Confirm :: bool

definition apiExecTx :: "tx_in option \<Rightarrow> web_env \<Rightarrow> world \<Rightarrow> response \<times> world" where
  "apiExecTx body rq w =
     (case apiRequireWrite rq False w of
        (Inl resp, w') \<Rightarrow> (resp, w')
      | (Inr (c, eng), w') \<Rightarrow>
      (case body of
         None \<Rightarrow> (apiErr 400 ''bad json'', w')
       | Some i \<Rightarrow>
           (let stmts = filter (\<lambda>s. s \<noteq> []) (map TrimSpace (ti_Statements i))
            in if stmts = [] then (apiErr 400 ''no statements to commit'', w')
               else if serverSideBlocked (en_user rq) (cn_Kind c) stmts then (apiErr 403 serverSideBlockedMsg, w')
               else if \<not> ti_Confirm i \<and> list_ex NeedsConfirm stmts then (writeJSON 200 [(''needConfirm'', FBool True)], w')
               else case execScriptAudit rq c eng ''sql_tx'' stmts w' of
                      (Some e, w'') \<Rightarrow> (apiErr 400 e, w'')
                    | (None, w'') \<Rightarrow> (writeJSON 200 [(''ok'', FBool True), (''count'', FInt (int (length stmts)))], w''))))"

record form_in =
  fi_Kind :: string
  fi_Schema :: string
  fi_Table :: string
  fi_Column :: string
  fi_Name :: string
  fi_Type :: string
  fi_Default :: string
  fi_Columns :: string
  fi_Nullable :: bool
  fi_Unique :: bool
  fi_Owner :: string
  fi_Password :: string
  fi_Login :: bool
  fi_CreateDB :: bool
  fi_CreateRole :: bool
  fi_Superuser :: bool
  fi_Host :: string

definition form_spec_of :: "form_in \<Rightarrow> form_spec" where
  "form_spec_of i =
     \<lparr>f_Kind = fi_Kind i, f_Schema = fi_Schema i, f_Table = fi_Table i, f_Column = fi_Column i,
      f_Name = TrimSpace (fi_Name i), f_Type = TrimSpace (fi_Type i), f_Default = TrimSpace (fi_Default i),
      f_Columns = TrimSpace (fi_Columns i), f_Nullable = fi_Nullable i, f_Unique = fi_Unique i,
      f_Owner = TrimSpace (fi_Owner i),
      f_Role = \<lparr>ra_Login = fi_Login i, ra_Super = fi_Superuser i, ra_CreateDB = fi_CreateDB i,
                ra_CreateRole = fi_CreateRole i, ra_Password = fi_Password i, ra_Host = TrimSpace (fi_Host i)\<rparr>\<rparr>"

definition apiRunForm :: "form_in option \<Rightarrow> web_env \<Rightarrow> world \<Rightarrow> response \<times> world" where
  "apiRunForm body rq w =
     (case apiRequireWrite rq False w of
        (Inl resp, w') \<Rightarrow> (resp, w')
      | (Inr (c, eng), w') \<Rightarrow>
      (case body of
         None \<Rightarrow> (apiErr 400 ''bad json'', w')
       | Some i \<Rightarrow>
           (if fi_Kind i = ''create-user'' \<and> \<not> u_Admin (en_user rq) then (apiErr 403 ''admin required'', w')
            else case eng_FormSQL eng (form_spec_of i) of
                   Inl e \<Rightarrow> (apiErr 400 e, w')
                 | Inr (stmts, action) \<Rightarrow>
                     done_or_error (if length stmts = 1 then execDDLAudit rq c eng action (hd stmts) w'
                                    else execScriptAudit rq c eng action stmts w'))))"

record apply_in =
  ai_Action :: string
  ai_Statements :: "string list"

definition apiApplyTable :: "apply_in option \<Rightarrow> web_env \<Rightarrow> world \<Rightarrow> response \<times> world" where
  "apiApplyTable body rq w =
     (case apiRequireWrite rq False w of
        (Inl resp, w') \<Rightarrow> (resp, w')
      | (Inr (c, eng), w') \<Rightarrow>
      (case body of
         None \<Rightarrow> (apiErr 400 ''bad json'', w')
       | Some i \<Rightarrow>
           (if ai_Statements i = [] then (apiErr 400 ''no statements to run'', w')
            else let action = (if ai_Action i = [] then ''sql_ddl_table'' else ai_Action i)
                 in done_or_error (execScriptAudit rq c eng action (ai_Statements i) w'))))"

record ddl_body =
  dd_Schema :: string
  dd_Table :: string
  dd_Column :: string
  dd_Name :: string

definition apiDDLMutate ::
    "bool \<Rightarrow> string \<Rightarrow> (engine \<Rightarrow> ddl_body \<Rightarrow> string) \<Rightarrow> ddl_body option \<Rightarrow> web_env \<Rightarrow> world \<Rightarrow> response \<times> world" where
  "apiDDLMutate admin action build body rq w =
     (case apiRequireWrite rq admin w of
        (Inl resp, w') \<Rightarrow> (resp, w')
      | (Inr (c, eng), w') \<Rightarrow>
      (case body of
         None \<Rightarrow> (apiErr 400 ''bad json'', w')
       | Some i \<Rightarrow> done_or_error (execDDLAudit rq c eng action (build eng i) w')))"

definition apiDropTable :: "ddl_body option \<Rightarrow> web_env \<Rightarrow> world \<Rightarrow> response \<times> world" where
  "apiDropTable =
     apiDDLMutate True ''sql_ddl_drop_table'' (\<lambda>d i. eng_DropTableSQL d (dd_Schema i) (dd_Table i))"

definition apiTruncate :: "ddl_body option \<Rightarrow> web_env \<Rightarrow> world \<Rightarrow> response \<times> world" where
  "apiTruncate =
     apiDDLMutate True ''sql_ddl_truncate'' (\<lambda>d i. eng_TruncateSQL d (dd_Schema i) (dd_Table i))"

definition apiDropColumn :: "ddl_body option \<Rightarrow> web_env \<Rightarrow> world \<Rightarrow> response \<times> world" where
  "apiDropColumn =
     apiDDLMutate True ''sql_ddl_drop_column'' (\<lambda>d i. eng_DropColumnSQL d (dd_Schema i) (dd_Table i) (dd_Column i))"

definition apiDropIndex :: "ddl_body option \<Rightarrow> web_env \<Rightarrow> world \<Rightarrow> response \<times> world" where
  "apiDropIndex =
     apiDDLMutate True ''sql_ddl_drop_index'' (\<lambda>d i. eng_DropIndexSQL d (dd_Schema i) (dd_Table i) (dd_Name i))"

definition apiDropSchema :: "(string \<times> bool) option \<Rightarrow> web_env \<Rightarrow> world \<Rightarrow> response \<times> world" where
  "apiDropSchema body rq w =
     (case apiRequireWrite rq True w of
        (Inl resp, w') \<Rightarrow> (resp, w')
      | (Inr (c, eng), w') \<Rightarrow>
      (case body of
         None \<Rightarrow> (apiErr 400 ''bad json'', w')
       | Some (schema, cascade) \<Rightarrow>
           (if TrimSpace schema = [] then (apiErr 400 ''schema is required'', w')
            else done_or_error (execScriptAudit rq c eng ''sql_ddl_drop_schema'' (eng_DropSchemaSQL eng schema cascade) w'))))"

definition apiAlterSchema :: "(string \<times> string \<times> string) option \<Rightarrow> web_env \<Rightarrow> world \<Rightarrow> response \<times> world" where
  "apiAlterSchema body rq w =
     (case apiRequireWrite rq False w of
        (Inl resp, w') \<Rightarrow> (resp, w')
      | (Inr (c, eng), w') \<Rightarrow>
      (case body of
         None \<Rightarrow> (apiErr 400 ''bad json'', w')
       | Some (schema, newName, owner) \<Rightarrow>
           (let stmts = eng_AlterSchemaSQL eng (TrimSpace schema) (TrimSpace newName) (TrimSpace owner)
            in if stmts = [] then (apiErr 400 ''nothing to change'', w')
               else done_or_error (execScriptAudit rq c eng ''sql_ddl_alter_schema'' stmts w'))))"

definition apiDropRole :: "(string \<times> string) option \<Rightarrow> web_env \<Rightarrow> world \<Rightarrow> response \<times> world" where
  "apiDropRole body rq w =
     (case apiRequireWrite rq True w of
        (Inl resp, w') \<Rightarrow> (resp, w')
      | (Inr (c, eng), w') \<Rightarrow>
      (case body of
         None \<Rightarrow> (apiErr 400 ''bad json'', w')
       | Some (name, host) \<Rightarrow>
           (if TrimSpace name = [] then (apiErr 400 ''role name is required'', w')
            else done_or_error (execScriptAudit rq c eng ''sql_ddl_drop_role''
                   (eng_DropUserSQL eng (TrimSpace name) (TrimSpace host)) w'))))"

definition apiAlterRole :: "(string \<times> string \<times> role_attrs) option \<Rightarrow> web_env \<Rightarrow> world \<Rightarrow> response \<times> world" where
  "apiAlterRole body rq w =
     (case apiRequireWrite rq True w of
        (Inl resp, w') \<Rightarrow> (resp, w')
      | (Inr (c, eng), w') \<Rightarrow>
      (case body of
         None \<Rightarrow> (apiErr 400 ''bad json'', w')
       | Some (name, newName, attrs) \<Rightarrow>
           (if TrimSpace name = [] then (apiErr 400 ''role name is required'', w')
            else let stmts = eng_AlterUserSQL eng (TrimSpace name) (TrimSpace newName)
                               (attrs\<lparr>ra_Host := TrimSpace (ra_Host attrs)\<rparr>)
                 in if stmts = [] then (apiErr 400 ''nothing to change'', w')
                    else done_or_error (execScriptAudit rq c eng ''sql_ddl_alter_role'' stmts w'))))"

section \<open>Export\<close>

text \<open>\<^verbatim>\<open>encoding/csv\<close>: a field is quoted if it holds a separator, a quote or a line break, starts with a space, or is \<^verbatim>\<open>\.\<close>\<close>

definition csv_needs_quotes :: "string \<Rightarrow> bool" where
  "csv_needs_quotes f \<longleftrightarrow>
     f \<noteq> [] \<and> (f = [BSL, CHR ''.''] \<or> CHR '','' \<in> set f \<or> DQ \<in> set f \<or> CR \<in> set f \<or> NL \<in> set f \<or> is_space (hd f))"

definition csv_field :: "string \<Rightarrow> string" where
  "csv_field f = (if csv_needs_quotes f then [DQ] @ ReplaceAll f [DQ] [DQ, DQ] @ [DQ] else f)"

definition csv_line :: "string list \<Rightarrow> string" where
  "csv_line fs = Join (map csv_field fs) '','' @ [NL]"

datatype export_response =
    ExError int string
  | ExCSV string string
  | ExJSON string "(string \<times> string) list list"

text \<open>A row as a JSON object; a repeated column name keeps the last value.\<close>

definition json_row :: "string list \<Rightarrow> string list \<Rightarrow> (string \<times> string) list" where
  "json_row cols row =
     foldl (\<lambda>obj (k, v). AList.update k v obj) [] (zip cols row)"

definition exportTable :: "grid_query \<Rightarrow> string \<Rightarrow> web_env \<Rightarrow> world \<Rightarrow> export_response \<times> world" where
  "exportTable q format rq w =
     (if \<not> en_csrf rq then (ExError 403 ''bad csrf'', w)
      else case sqlEngineFor rq w of
        (Inl (status, msg), w') \<Rightarrow> (ExError status msg, w')
      | (Inr (c, eng), w') \<Rightarrow>
          (let u = en_user rq;
               fmt = (if format \<noteq> ''json'' then ''csv'' else format)
           in if serverSideBlocked u (cn_Kind c) [gq_where q, gq_order q] then (ExError 403 serverSideBlockedMsg, w')
              else
                (case eng_BrowseWhere eng (en_target rq) (gq_schema q) (gq_table q) (gq_where q) (gq_order q) 1000 0 True of
                   (Inl e, tr) \<Rightarrow> (ExError 400 e, log_sent (cn_ID c) tr w')
                 | (Inr res, tr) \<Rightarrow>
                     (let w' = add_audit rq (new_audit (u_Email u) (cn_ID c) (''pg_export_'' @ fmt)
                                 (gq_schema q @ ''.'' @ gq_table q) True) (log_sent (cn_ID c) tr w');
                          fname = sanitizeFilename (gq_schema q @ ''_'' @ gq_table q) @ ''.'' @ fmt
                      in (if fmt = ''json'' then ExJSON fname (map (json_row (r_Columns res)) (r_Rows res))
                          else ExCSV fname (concat (csv_line (r_Columns res)
                                 # map (\<lambda>row. csv_line (map csvSafe row)) (r_Rows res))), w')))))"

section \<open>The routes that reach a SQL engine\<close>

datatype sql_request =
    Explorer
  | Columns string string
  | Indexes string string
  | Keys string string
  | Grid grid_query
  | Query "query_in option"
  | ExecTx "tx_in option"
  | Generate string string string
  | Doc string string
  | Usages string string
  | FormPrefill string string string string
  | RunForm "form_in option"
  | ApplyTable "apply_in option"
  | DropTable "ddl_body option"
  | Truncate "ddl_body option"
  | DropColumn "ddl_body option"
  | DropIndex "ddl_body option"
  | DropSchema "(string \<times> bool) option"
  | AlterSchema "(string \<times> string \<times> string) option"
  | Roles
  | DropRole "(string \<times> string) option"
  | AlterRole "(string \<times> string \<times> role_attrs) option"

fun serve :: "introspection \<Rightarrow> sql_request \<Rightarrow> web_env \<Rightarrow> world \<Rightarrow> response \<times> world" where
  "serve ig Explorer = apiExplorer ig"
| "serve ig (Columns schema table) = apiColumns ig schema table"
| "serve ig (Indexes schema table) = apiIndexes ig schema table"
| "serve ig (Keys schema table) = apiKeys ig schema table"
| "serve ig (Grid q) = apiGrid q"
| "serve ig (Query b) = apiQuery b"
| "serve ig (ExecTx b) = apiExecTx b"
| "serve ig (Generate kind schema table) = apiGenerate ig kind schema table"
| "serve ig (Doc schema table) = apiDoc ig schema table"
| "serve ig (Usages schema table) = apiUsages ig schema table"
| "serve ig (FormPrefill kind schema table column) = apiDDLFormPrefill ig kind schema table column"
| "serve ig (RunForm b) = apiRunForm b"
| "serve ig (ApplyTable b) = apiApplyTable b"
| "serve ig (DropTable b) = apiDropTable b"
| "serve ig (Truncate b) = apiTruncate b"
| "serve ig (DropColumn b) = apiDropColumn b"
| "serve ig (DropIndex b) = apiDropIndex b"
| "serve ig (DropSchema b) = apiDropSchema b"
| "serve ig (AlterSchema b) = apiAlterSchema b"
| "serve ig Roles = apiRoles ig"
| "serve ig (DropRole b) = apiDropRole b"
| "serve ig (AlterRole b) = apiAlterRole b"

text \<open>The JSON API and, beside it, the file download: what a route does to the world.\<close>

datatype sql_route = JsonApi sql_request | ExportFile grid_query string

fun route_world :: "introspection \<Rightarrow> sql_route \<Rightarrow> web_env \<Rightarrow> world \<Rightarrow> world" where
  "route_world ig (JsonApi r) rq w = snd (serve ig r rq w)"
| "route_world ig (ExportFile q format) rq w = snd (exportTable q format rq w)"

section \<open>What a request does\<close>

definition may_write :: "web_env \<Rightarrow> world \<Rightarrow> connection \<Rightarrow> bool" where
  "may_write rq w c \<longleftrightarrow> en_csrf rq \<and> ca_Write (req_access rq w c) \<and> \<not> cn_ReadOnly c"

definition read_only_trace :: "web_env \<Rightarrow> connection \<Rightarrow> sql_trace \<Rightarrow> bool" where
  "read_only_trace rq c tr \<longleftrightarrow> (\<exists>sql schema. tr = snd (eng_Query (engine_of c) (en_target rq) sql True schema))"

definition sent_once :: "web_env \<Rightarrow> world \<Rightarrow> world \<Rightarrow> bool" where
  "sent_once rq w w' \<longleftrightarrow>
     (\<exists>c tr w1 a. connFor rq w = Inr c \<and> quiet_step rq c w w1 \<and> w' = add_audit rq a (log_sent (cn_ID c) tr w1)
        \<and> a_User a = u_Email (en_user rq) \<and> a_ConnID a = cn_ID c
        \<and> (may_write rq w c \<or> read_only_trace rq c tr))"

definition served :: "web_env \<Rightarrow> world \<Rightarrow> world \<Rightarrow> bool" where
  "served rq w w' \<longleftrightarrow> wd_sent w' = wd_sent w \<and> tame rq w w' \<or> sent_once rq w w'"

text \<open>The routes that only read the catalogue, and what they may do.\<close>

fun introspects :: "sql_route \<Rightarrow> bool" where
  "introspects (JsonApi r) =
     (case r of
        Explorer \<Rightarrow> True
      | Columns _ _ \<Rightarrow> True
      | Indexes _ _ \<Rightarrow> True
      | Keys _ _ \<Rightarrow> True
      | Generate _ _ _ \<Rightarrow> True
      | Doc _ _ \<Rightarrow> True
      | Usages _ _ \<Rightarrow> True
      | FormPrefill _ _ _ _ \<Rightarrow> True
      | Roles \<Rightarrow> True
      | _ \<Rightarrow> False)"
| "introspects (ExportFile _ _) = False"

fun catalogue_read :: "engine \<Rightarrow> sql_cmd \<Rightarrow> bool" where
  "catalogue_read eng (SCatalog q args) \<longleftrightarrow>
     catalog_stmt eng (q, args) \<and> (HasPrefix (TrimSpace q) ''SELECT '' \<or> HasPrefix q ''SHOW CREATE TABLE '')"
| "catalogue_read _ _ \<longleftrightarrow> False"

definition introspected :: "web_env \<Rightarrow> world \<Rightarrow> world \<Rightarrow> bool" where
  "introspected rq w w' \<longleftrightarrow>
     wd_sent w' = wd_sent w \<and> tame rq w w'
     \<or> (\<exists>c tr w1. connFor rq w = Inr c \<and> quiet_step rq c w w1 \<and> w' = log_sent (cn_ID c) tr w1
          \<and> list_all (catalogue_read (engine_of c)) tr)"

lemma catalog_stmt_reads:
  assumes "catalog_stmt eng (q, args)"
  shows "HasPrefix (TrimSpace q) ''SELECT '' \<or> HasPrefix q ''SHOW CREATE TABLE ''"
  using assms catalogue_reads [of eng] unfolding catalog_stmt_def list_all_iff fst_conv HasPrefix_def by fastforce

lemma log_catalog_introspected:
  assumes "connFor rq w = Inr c" and "quiet_step rq c w w1" and "list_all (catalog_stmt (engine_of c)) stmts"
  shows "introspected rq w (log_catalog c stmts w1)"
proof -
  have "list_all (catalogue_read (engine_of c)) (map (\<lambda>(q, args). SCatalog q args) stmts)"
    using assms(3) catalog_stmt_reads [of "engine_of c"] unfolding list_all_iff by (fastforce simp del: HasPrefix_def)
  moreover have "wd_sent w1 = wd_sent w" "tame rq w w1" using assms(2) quiet_tame by (auto simp: quiet_step_def)
  ultimately show ?thesis using assms(1,2) unfolding introspected_def log_catalog_def by auto
qed

lemma introspected_quiet: "quiet_step rq c w w' \<Longrightarrow> introspected rq w w'"
  using quiet_tame [of rq c w w'] by (simp add: introspected_def quiet_step_def)

lemma introspected_refl [simp]: "introspected rq w w"
  by (simp add: introspected_def)

lemma engine_gate:
  assumes "\<And>c w1. connFor rq w = Inr c \<Longrightarrow> quiet_step rq c w w1 \<Longrightarrow> introspected rq w (snd (f c (engine_of c) w1))"
  shows "introspected rq w (snd (case apiSQL rq w of (Inl resp, w') \<Rightarrow> (resp, w') | (Inr (c, eng), w') \<Rightarrow> f c eng w'))"
  using assms apiSQL_Inr [of rq w] apiSQL_Inl [of rq w]
  by (fastforce simp: introspected_def split: prod.splits sum.splits)

lemma api_list_introspected:
  assumes "\<And>eng. list_all (catalog_stmt eng) (snd (answer eng))"
  shows "introspected rq w (snd (api_list rq w answer name field))"
  unfolding api_list_def
proof (rule engine_gate)
  fix c w1
  assume "connFor rq w = Inr c" "quiet_step rq c w w1"
  then have "introspected rq w (log_catalog c (snd (answer (engine_of c))) w1)" by (rule log_catalog_introspected) (rule assms)
  then show "introspected rq w (snd (case answer (engine_of c) of (Inl e, sent) \<Rightarrow> (apiErr 400 e, log_catalog c sent w1)
      | (Inr xs, sent) \<Rightarrow> (writeJSON 200 [(name, field xs)], log_catalog c sent w1)))"
    by (cases "answer (engine_of c)") (auto split: sum.split)
qed

lemma opened_quiet:
  "quiet_step rq c w (snd (open_engine rq c w))" "quiet_step rq c w (snd (pool_for rq fam c w))"
  using open_engine_quiet pool_for_quiet by (metis prod.collapse)+

lemma opened_kind: "fst (open_engine rq c w) = Inr eng \<Longrightarrow> eng = engine_of c"
  using open_engine_kind by (metis prod.collapse)

lemmas opened = opened_quiet introspected_quiet [OF opened_quiet(1)] introspected_quiet [OF opened_quiet(2)]

lemma apiExplorer_introspected: "introspected rq w (snd (apiExplorer ig rq w))"
  unfolding apiExplorer_def split_beta Let_def
  by (auto intro: log_catalog_introspected simp: introspection_sends_catalogue opened dest!: opened_kind split: sum.split)

lemma apiGenerate_introspected: "introspected rq w (snd (apiGenerate ig kind schema table rq w))"
  unfolding apiGenerate_def
proof (rule engine_gate)
  fix c w1
  assume c: "connFor rq w = Inr c" "quiet_step rq c w w1"
  define gen where "gen = (let (cols, asked) = eng_Columns (ig_catalog ig) (engine_of c) schema table in
      (if kind = ''select'' then Some (eng_GenSelect (engine_of c) cols schema table, asked)
       else if kind = ''insert'' then Some (eng_GenInsert (engine_of c) cols schema table, asked)
       else if kind = ''update'' then Some (eng_GenUpdate (engine_of c) cols schema table, asked)
       else if kind = ''create'' then Some (eng_CreateTableDDL (ig_catalog ig) (engine_of c) schema table)
       else None))"
  have "introspected rq w (log_catalog c (snd r) w1)" if "gen = Some r" for r
    by (rule log_catalog_introspected [OF c])
       (use that in \<open>auto simp: gen_def split_beta introspection_sends_catalogue split: if_splits\<close>)
  then have "introspected rq w (snd (case gen of None \<Rightarrow> (apiErr 400 ''unknown kind'', w1)
      | Some (Inl e, sent) \<Rightarrow> (apiErr 400 e, log_catalog c sent w1)
      | Some (Inr sql, sent) \<Rightarrow> (writeJSON 200 [(''sql'', FStr sql)], log_catalog c sent w1)))"
    using introspected_quiet [OF c(2)] by (fastforce split: option.split sum.split)
  then show "introspected rq w (snd (let (cols, asked) = eng_Columns (ig_catalog ig) (engine_of c) schema table;
      gen = (if kind = ''select'' then Some (eng_GenSelect (engine_of c) cols schema table, asked)
       else if kind = ''insert'' then Some (eng_GenInsert (engine_of c) cols schema table, asked)
       else if kind = ''update'' then Some (eng_GenUpdate (engine_of c) cols schema table, asked)
       else if kind = ''create'' then Some (eng_CreateTableDDL (ig_catalog ig) (engine_of c) schema table)
       else None)
     in case gen of None \<Rightarrow> (apiErr 400 ''unknown kind'', w1)
      | Some (Inl e, sent) \<Rightarrow> (apiErr 400 e, log_catalog c sent w1)
      | Some (Inr sql, sent) \<Rightarrow> (writeJSON 200 [(''sql'', FStr sql)], log_catalog c sent w1)))"
    unfolding gen_def Let_def split_beta .
qed

lemma apiDoc_introspected: "introspected rq w (snd (apiDoc ig schema table rq w))"
  unfolding apiDoc_def
  by (rule engine_gate)
     (auto intro!: log_catalog_introspected simp: introspection_sends_catalogue Let_def split_beta split: sum.split prod.split)

lemma apiUsages_introspected: "introspected rq w (snd (apiUsages ig schema table rq w))"
  unfolding apiUsages_def
  by (rule engine_gate) (auto intro: log_catalog_introspected simp: introspection_sends_catalogue split_beta)

lemma apiDDLFormPrefill_introspected: "introspected rq w (snd (apiDDLFormPrefill ig kind schema table column rq w))"
  unfolding apiDDLFormPrefill_def split_beta Let_def
  by (auto intro: log_catalog_introspected simp: introspection_sends_catalogue opened dest!: opened_kind split: sum.split)

lemmas api_introspected = apiExplorer_introspected apiGenerate_introspected apiDoc_introspected apiUsages_introspected
  apiDDLFormPrefill_introspected

lemma serve_introspected: "introspects (JsonApi r) \<Longrightarrow> introspected rq w (snd (serve ig r rq w))"
  by (cases r) (simp_all add: api_introspected apiColumns_def apiIndexes_def apiKeys_def apiRoles_def api_list_introspected
      introspection_sends_catalogue)

lemma new_audit_fields [simp]:
  "a_User (new_audit u i act d ok) = u" "a_ConnID (new_audit u i act d ok) = i"
  "a_Action (new_audit u i act d ok) = act" "a_Detail (new_audit u i act d ok) = d" "a_Success (new_audit u i act d ok) = ok"
  by (simp_all add: new_audit_def)

lemma served_sent:
  assumes "connFor rq w = Inr c" and "quiet_step rq c w w1" and "may_write rq w c \<or> read_only_trace rq c tr"
    and "a_User a = u_Email (en_user rq)" and "a_ConnID a = cn_ID c"
  shows "served rq w (add_audit rq a (log_sent (cn_ID c) tr w1))"
  unfolding served_def sent_once_def using assms by blast

lemma write_gate_facts:
  assumes "apiRequireWrite rq admin w = (Inr (c, eng), w1)"
  shows "connFor rq w = Inr c" "quiet_step rq c w w1" "may_write rq w c"
  using apiRequireWrite_Inr [OF assms] by (simp_all add: may_write_def)

lemma execDDLAudit_served:
  assumes "apiRequireWrite rq admin w = (Inr (c, eng), w1)"
  shows "served rq w (snd (execDDLAudit rq c eng action sql w1))"
  using write_gate_facts [OF assms]
  by (simp add: execDDLAudit_def Let_def split_beta served_sent)

lemma execScriptAudit_served:
  assumes "apiRequireWrite rq admin w = (Inr (c, eng), w1)"
  shows "served rq w (snd (execScriptAudit rq c eng action stmts w1))"
  using write_gate_facts [OF assms]
  by (simp add: execScriptAudit_def Let_def split_beta served_sent)

lemma served_quiet: "quiet_step rq c w w' \<Longrightarrow> served rq w w'"
  using quiet_tame [of rq c w w'] by (simp add: served_def quiet_step_def)

lemma served_refl [simp]: "served rq w w"
  by (simp add: served_def)

lemma done_or_error_world [simp]: "snd (done_or_error r) = snd r"
  by (auto simp: done_or_error_def split: prod.splits option.splits)

text \<open>A handler behind the write gate: what it does after the gate decides.\<close>

lemma write_gate:
  assumes "\<And>c eng w1. apiRequireWrite rq admin w = (Inr (c, eng), w1) \<Longrightarrow> quiet_step rq c w w1 \<Longrightarrow> served rq w (snd (f c eng w1))"
  shows "served rq w (snd (case apiRequireWrite rq admin w of (Inl resp, w') \<Rightarrow> (resp, w') | (Inr (c, eng), w') \<Rightarrow> f c eng w'))"
  using assms apiRequireWrite_Inr [of rq admin w] apiRequireWrite_Inl [of rq admin w]
  by (auto simp: served_def split: prod.splits sum.splits)

lemmas write_served = execDDLAudit_served execScriptAudit_served served_quiet

lemma apiExecTx_served: "served rq w (snd (apiExecTx b rq w))"
  unfolding apiExecTx_def
proof (rule write_gate)
  fix c eng w1
  assume g: "apiRequireWrite rq False w = (Inr (c, eng), w1)" and q: "quiet_step rq c w w1"
  have "served rq w (snd (case execScriptAudit rq c eng ''sql_tx'' stmts w1 of (Some e, w'') \<Rightarrow> (apiErr 400 e, w'')
      | (None, w'') \<Rightarrow> (writeJSON 200 [(''ok'', FBool True), (''count'', FInt (int (length stmts)))], w'')))" for stmts
    using execScriptAudit_served [OF g, of "''sql_tx''" stmts] by (auto split: prod.splits option.splits)
  then show "served rq w (snd (case b of None \<Rightarrow> (apiErr 400 ''bad json'', w1) | Some i \<Rightarrow>
      (let stmts = filter (\<lambda>s. s \<noteq> []) (map TrimSpace (ti_Statements i))
            in if stmts = [] then (apiErr 400 ''no statements to commit'', w1)
               else if serverSideBlocked (en_user rq) (cn_Kind c) stmts then (apiErr 403 serverSideBlockedMsg, w1)
               else if \<not> ti_Confirm i \<and> list_ex NeedsConfirm stmts then (writeJSON 200 [(''needConfirm'', FBool True)], w1)
               else case execScriptAudit rq c eng ''sql_tx'' stmts w1 of
                      (Some e, w'') \<Rightarrow> (apiErr 400 e, w'')
                    | (None, w'') \<Rightarrow> (writeJSON 200 [(''ok'', FBool True), (''count'', FInt (int (length stmts)))], w''))))"
    using q by (simp add: Let_def served_quiet split: option.split)
qed

lemma apiRunForm_served: "served rq w (snd (apiRunForm b rq w))"
  unfolding apiRunForm_def
  by (rule write_gate) (auto intro: write_served split: option.split sum.split)

lemma apiApplyTable_served: "served rq w (snd (apiApplyTable b rq w))"
  unfolding apiApplyTable_def
  by (rule write_gate) (auto intro: write_served simp: Let_def split: option.split)

lemma apiDDLMutate_served: "served rq w (snd (apiDDLMutate admin action build b rq w))"
  unfolding apiDDLMutate_def
  by (rule write_gate) (auto intro: write_served split: option.split)

lemma schema_role_served:
  "served rq w (snd (apiDropSchema b1 rq w))" "served rq w (snd (apiAlterSchema b2 rq w))"
  "served rq w (snd (apiDropRole b3 rq w))" "served rq w (snd (apiAlterRole b4 rq w))"
  unfolding apiDropSchema_def apiAlterSchema_def apiDropRole_def apiAlterRole_def
  by (rule write_gate; auto intro: write_served simp: Let_def split: option.split prod.split)+

lemma apiGrid_served: "served rq w (snd (apiGrid q rq w))"
proof (cases "apiSQL rq w")
  case (Pair r w1)
  show ?thesis
  proof (cases r)
    case (Inl resp)
    then show ?thesis using Pair apiSQL_Inl [of rq w resp w1] by (simp add: apiGrid_def served_def)
  next
    case (Inr ce)
    obtain c eng where ce: "ce = (c, eng)" by force
    from apiSQL_Inr [of rq w c eng w1] Pair Inr ce
    have f: "connFor rq w = Inr c" "eng = engine_of c" "quiet_step rq c w w1" by auto
    have ro: "read_only_trace rq c (snd (eng_BrowseWhere (engine_of c) (en_target rq) s t wh ord l k True))" for s t wh ord l k
      unfolding read_only_trace_def eng_BrowseWhere_query by blast
    show ?thesis
      using f ro by (simp add: apiGrid_def Pair Inr ce Let_def split_beta served_sent served_quiet)
  qed
qed

lemma apiQuery_served: "served rq w (snd (apiQuery b rq w))"
proof (cases "en_csrf rq \<and> b \<noteq> None")
  case False
  then show ?thesis by (auto simp: apiQuery_def split: sum.split option.split)
next
  case True
  then obtain i where b: "b = Some i" by blast
  show ?thesis
  proof (cases "connFor rq w")
    case (Inl e)
    then show ?thesis by (simp add: apiQuery_def)
  next
    case (Inr c)
    define ro where "ro = (cn_ReadOnly c \<or> \<not> ca_Write (req_access rq w c))"
    have perm: "may_write rq w c \<or> read_only_trace rq c (snd (eng_Query (engine_of c) (en_target rq) sql ro sch))" for sql sch
      using True unfolding may_write_def read_only_trace_def ro_def by (cases "cn_ReadOnly c \<or> \<not> ca_Write (req_access rq w c)") auto
    have run: "served rq w (add_audit rq (new_audit (u_Email (en_user rq)) (cn_ID c) ''sql_query'' d ok)
        (log_sent (cn_ID c) (snd (eng_Query eng (en_target rq) sql ro sch)) w1))"
      if "open_engine rq c w = (Inr eng, w1)" for eng w1 d ok sql sch
      using served_sent [OF Inr open_engine_quiet [OF that] perm] open_engine_kind [OF that] by simp
    show ?thesis
    proof (cases "open_engine rq c w")
      case (Pair r w1)
      then show ?thesis
        using True Inr run open_engine_quiet [OF Pair]
        by (cases r) (auto simp: apiQuery_def b Let_def split_beta ro_def [symmetric] served_quiet)
    qed
  qed
qed

lemma serve_served: "\<not> introspects (JsonApi r) \<Longrightarrow> served rq w (snd (serve ig r rq w))"
  by (cases r) (simp_all add: apiGrid_served apiQuery_served apiExecTx_served apiRunForm_served apiApplyTable_served
      apiDropTable_def apiTruncate_def apiDropColumn_def apiDropIndex_def apiDDLMutate_served schema_role_served)

text \<open>
  An export is a read behind the CSRF check. It is recorded like the other exchanges,
  except when the query fails: then the handler answers with the error and records nothing.
\<close>

fun failed_export :: "export_response \<Rightarrow> bool" where
  "failed_export (ExError status _) \<longleftrightarrow> status = 400"
| "failed_export _ \<longleftrightarrow> False"

definition exported :: "web_env \<Rightarrow> world \<Rightarrow> export_response \<Rightarrow> world \<Rightarrow> bool" where
  "exported rq w resp w' \<longleftrightarrow>
     wd_sent w' = wd_sent w \<and> tame rq w w'
     \<or> (\<exists>c tr w1. connFor rq w = Inr c \<and> quiet_step rq c w w1 \<and> en_csrf rq \<and> read_only_trace rq c tr
          \<and> (if failed_export resp then w' = log_sent (cn_ID c) tr w1
             else \<exists>a. w' = add_audit rq a (log_sent (cn_ID c) tr w1)
                    \<and> a_User a = u_Email (en_user rq) \<and> a_ConnID a = cn_ID c))"

lemma exportTable_exported: "exported rq w (fst (exportTable q format rq w)) (snd (exportTable q format rq w))"
proof (cases "en_csrf rq")
  case False
  then show ?thesis by (simp add: exportTable_def exported_def)
next
  case csrf: True
  show ?thesis
  proof (cases "connFor rq w")
    case (Inl e)
    then show ?thesis using csrf by (simp add: exportTable_def sqlEngineFor_def exported_def)
  next
    case conn: (Inr c)
    obtain r w1 where op: "open_engine rq c w = (r, w1)" by force
    have q: "quiet_step rq c w w1" using open_engine_quiet [OF op] .
    then have same: "wd_sent w1 = wd_sent w" "tame rq w w1" using quiet_tame by (auto simp: quiet_step_def)
    show ?thesis
    proof (cases "r")
      case (Inl e)
      then show ?thesis using csrf conn op same by (simp add: exportTable_def sqlEngineFor_def exported_def)
    next
      case (Inr eng)
      then have eng: "eng = engine_of c" using open_engine_kind op by blast
      obtain res tr where run: "eng_BrowseWhere eng (en_target rq) (gq_schema q) (gq_table q) (gq_where q) (gq_order q) 1000 0 True
          = (res, tr)" by force
      have ro: "read_only_trace rq c tr"
        using run unfolding read_only_trace_def eng eng_BrowseWhere_query by (metis snd_conv)
      have "exported rq w resp (add_audit rq (new_audit (u_Email (en_user rq)) (cn_ID c) action d ok) (log_sent (cn_ID c) tr w1))"
        if "\<not> failed_export resp" for resp action d ok
        using csrf conn q ro that unfolding exported_def by (metis new_audit_fields(1,2))
      moreover have "exported rq w (ExError 400 e) (log_sent (cn_ID c) tr w1)" for e
        using csrf conn q ro unfolding exported_def by auto
      moreover have "exported rq w resp w1" for resp using same unfolding exported_def by blast
      ultimately show ?thesis
        using csrf conn op Inr
        by (simp add: exportTable_def sqlEngineFor_def Let_def run split: sum.split)
    qed
  qed
qed

fun export_failed :: "sql_route \<Rightarrow> web_env \<Rightarrow> world \<Rightarrow> bool" where
  "export_failed (JsonApi _) rq w = False"
| "export_failed (ExportFile q format) rq w = failed_export (fst (exportTable q format rq w))"

text \<open>All routes at once.\<close>

definition route_effect :: "sql_route \<Rightarrow> web_env \<Rightarrow> world \<Rightarrow> world \<Rightarrow> bool" where
  "route_effect r rq w w' \<longleftrightarrow>
     wd_sent w' = wd_sent w \<and> tame rq w w'
     \<or> (\<exists>c tr w1. connFor rq w = Inr c \<and> quiet_step rq c w w1
          \<and> (if introspects r then list_all (catalogue_read (engine_of c)) tr else may_write rq w c \<or> read_only_trace rq c tr)
          \<and> (if introspects r \<or> export_failed r rq w then w' = log_sent (cn_ID c) tr w1
             else \<exists>a. w' = add_audit rq a (log_sent (cn_ID c) tr w1)
                    \<and> a_User a = u_Email (en_user rq) \<and> a_ConnID a = cn_ID c))"

lemma route_world_effect: "route_effect r rq w (route_world ig r rq w)"
proof (cases r)
  case (JsonApi q)
  then show ?thesis
    using serve_introspected [of q rq w ig] serve_served [of q rq w ig]
    by (cases "introspects r") (auto simp: route_effect_def introspected_def served_def sent_once_def)
next
  case (ExportFile q format)
  then show ?thesis using exportTable_exported [of rq w q format] unfolding exported_def route_effect_def
    by (cases "failed_export (fst (exportTable q format rq w))") (simp_all, blast+)
qed

lemma route_effect_tame: "route_effect r rq w w' \<Longrightarrow> tame rq w w'"
  by (auto simp: route_effect_def intro: tame_add_audit tame_log_sent quiet_tame split: if_splits)

lemma route_effect_cases [consumes 1, case_names quiet sent]:
  assumes "route_effect r rq w w'"
  obtains "wd_sent w' = wd_sent w" "tame rq w w'"
  | c tr w1 where "connFor rq w = Inr c" "wd_sent w' = wd_sent w @ [(cn_ID c, tr)]" "quiet_step rq c w w1"
      "if introspects r then list_all (catalogue_read (engine_of c)) tr else may_write rq w c \<or> read_only_trace rq c tr"
      "if introspects r \<or> export_failed r rq w then w' = log_sent (cn_ID c) tr w1
       else \<exists>a. w' = add_audit rq a (log_sent (cn_ID c) tr w1) \<and> a_User a = u_Email (en_user rq) \<and> a_ConnID a = cn_ID c"
  using assms unfolding route_effect_def
proof (elim disjE exE conjE)
  fix c tr w1
  assume q: "quiet_step rq c w w1" and w: "if introspects r \<or> export_failed r rq w then w' = log_sent (cn_ID c) tr w1
       else \<exists>a. w' = add_audit rq a (log_sent (cn_ID c) tr w1) \<and> a_User a = u_Email (en_user rq) \<and> a_ConnID a = cn_ID c"
  then have "wd_sent w' = wd_sent w @ [(cn_ID c, tr)]" by (auto simp: quiet_step_def split: if_splits)
  moreover assume "connFor rq w = Inr c"
    "if introspects r then list_all (catalogue_read (engine_of c)) tr else may_write rq w c \<or> read_only_trace rq c tr"
  ultimately show thesis using q w by (intro that(2))
qed (rule that(1))

section \<open>Properties\<close>

text \<open>
  C5: whatever the route to a SQL engine (the data routes, the console, the introspection routes, the designer, the export),
  a request adds at most one entry, the commands of one engine operation or of one introspection handler, to the log of what
  was sent to target databases, and only for the connection of the URL, which exists and which the user may read. An introspection route sends
  nothing but catalogue statements of the engine, fixed \<^verbatim>\<open>SELECT\<close> texts with the names of the request as arguments, or
  \<^verbatim>\<open>SHOW CREATE TABLE\<close> of the quoted name; these need no CSRF token and are not behind the read-only guard. For every other route either
  the request passed the CSRF check, the user may write to this connection and the connection is not read-only, or the
  exchange is a read-only one: the statement stands directly behind the engine's read-only guard, or
  nothing but the guard was sent. This holds for every state, user, body and server.
\<close>

theorem sql_requests_are_authorised:
  "wd_sent (route_world ig r rq w) = wd_sent w
   \<or> (\<exists>c tr. wd_sent (route_world ig r rq w) = wd_sent w @ [(cn_ID c, tr)]
        \<and> GetConnection (en_f_conn rq) (wd_st w) (idParam rq) = Inr c \<and> ca_Read (req_access rq w c)
        \<and> (if introspects r then list_all (catalogue_read (engine_of c)) tr
           else en_csrf rq \<and> ca_Write (req_access rq w c) \<and> \<not> cn_ReadOnly c
            \<or> (\<exists>sql schema. tr = ro_before (engine_of c) schema @ [ro_guard (engine_of c), ro_stmt (engine_of c) sql]
                              @ ro_after (engine_of c)
                 \<or> set tr \<subseteq> ro_overhead (engine_of c) schema)))"
  using route_world_effect [of r rq w ig]
proof (elim route_effect_cases)
  fix c tr w1
  assume c: "connFor rq w = Inr c" "wd_sent (route_world ig r rq w) = wd_sent w @ [(cn_ID c, tr)]"
    and p: "if introspects r then list_all (catalogue_read (engine_of c)) tr else may_write rq w c \<or> read_only_trace rq c tr"
  have "may_write rq w c \<or> read_only_trace rq c tr" if "\<not> introspects r" using p that by simp
  then have "en_csrf rq \<and> ca_Write (req_access rq w c) \<and> \<not> cn_ReadOnly c
    \<or> (\<exists>sql schema. tr = ro_before (engine_of c) schema @ [ro_guard (engine_of c), ro_stmt (engine_of c) sql]
          @ ro_after (engine_of c) \<or> set tr \<subseteq> ro_overhead (engine_of c) schema)" if "\<not> introspects r"
    using that eng_Query_guarded unfolding may_write_def read_only_trace_def by blast
  then show ?thesis using c p unfolding connFor_Inr by auto
qed blast

text \<open>
  C8: the exchanges of SQL requests with target databases are audited, apart from two kinds. An introspection route sends
  only catalogue statements and records at most the use of the stored credential, and an export whose query fails (the handler answers 400) records nothing
  more either. After every other exchange the last row delivered
  to the audit sink is new, names the user and the connection and carries the time of the request, at most one
  other row (the use of the stored credential) was added before it, and when the store accepts the
  insert the same row is the last row of the audit table.
\<close>

theorem sql_requests_are_audited:
  "wd_sent (route_world ig r rq w) = wd_sent w
   \<or> (\<exists>c tr pre. wd_sent (route_world ig r rq w) = wd_sent w @ [(cn_ID c, tr)] \<and> connFor rq w = Inr c
        \<and> (pre = [] \<or> pre = [(cred_access c)\<lparr>a_TS := en_now rq\<rparr>])
        \<and> (if introspects r
           then list_all (catalogue_read (engine_of c)) tr \<and> st_sink (wd_st (route_world ig r rq w)) = st_sink (wd_st w) @ pre
           else if export_failed r rq w
           then st_sink (wd_st (route_world ig r rq w)) = st_sink (wd_st w) @ pre
           else \<exists>a. st_sink (wd_st (route_world ig r rq w)) = st_sink (wd_st w) @ pre @ [a]
             \<and> a_User a = u_Email (en_user rq) \<and> a_ConnID a = cn_ID c \<and> a_TS a = en_now rq
             \<and> (case en_f_audit rq of
                   Some _ \<Rightarrow> True
                 | None \<Rightarrow> (\<exists>rows n. st_audit (wd_st (route_world ig r rq w)) = rows @ [a\<lparr>a_ID := n\<rparr>]))))"
  using route_world_effect [of r rq w ig]
proof (cases rule: route_effect_cases)
  case (sent c tr w1)
  obtain pre where pre: "st_sink (wd_st w1) = st_sink (wd_st w) @ pre" "pre = [] \<or> pre = [(cred_access c)\<lparr>a_TS := en_now rq\<rparr>]"
    using sent(3) unfolding quiet_step_def by (auto simp: AddAudit_sink)
  show ?thesis
  proof (cases "introspects r \<or> export_failed r rq w")
    case True
    then show ?thesis using sent pre by (intro disjI2 exI [of _ c] exI [of _ tr] exI [of _ pre]) auto
  next
    case False
    then obtain a where w: "route_world ig r rq w = add_audit rq a (log_sent (cn_ID c) tr w1)"
      and a: "a_User a = u_Email (en_user rq)" "a_ConnID a = cn_ID c" using sent(5) by auto
    have "st_sink (wd_st (route_world ig r rq w)) = st_sink (wd_st w) @ pre @ [a\<lparr>a_TS := en_now rq\<rparr>]"
      using pre(1) by (simp add: w add_audit_def)
    moreover have "case en_f_audit rq of Some _ \<Rightarrow> True
        | None \<Rightarrow> (\<exists>rows n. st_audit (wd_st (route_world ig r rq w)) = rows @ [(a\<lparr>a_TS := en_now rq\<rparr>)\<lparr>a_ID := n\<rparr>])"
      by (auto simp: w add_audit_def AddAudit_def Let_def split: option.split)
    ultimately have "\<exists>a. st_sink (wd_st (route_world ig r rq w)) = st_sink (wd_st w) @ pre @ [a]
        \<and> a_User a = u_Email (en_user rq) \<and> a_ConnID a = cn_ID c \<and> a_TS a = en_now rq
        \<and> (case en_f_audit rq of Some _ \<Rightarrow> True
           | None \<Rightarrow> (\<exists>rows n. st_audit (wd_st (route_world ig r rq w)) = rows @ [a\<lparr>a_ID := n\<rparr>]))"
      using a by (intro exI [of _ "a\<lparr>a_TS := en_now rq\<rparr>"]) simp
    then show ?thesis using False sent(1,2) pre(2)
      by (intro disjI2 exI [of _ c] exI [of _ tr] exI [of _ pre]) simp
  qed
qed blast

text \<open>The texts of a request that are screened, and its confirmation flag.\<close>

fun request_fragments :: "sql_request \<Rightarrow> string list" where
  "request_fragments (Grid q) = [gq_where q, gq_order q]"
| "request_fragments (Query (Some i)) = [TrimSpace (qi_SQL i)]"
| "request_fragments (ExecTx (Some i)) = map TrimSpace (ti_Statements i)"
| "request_fragments _ = []"

fun request_confirmed :: "sql_request \<Rightarrow> bool" where
  "request_confirmed (Query (Some i)) = qi_Confirm i"
| "request_confirmed (ExecTx (Some i)) = ti_Confirm i"
| "request_confirmed _ = True"

lemma empty_not_server_side: "\<not> IsServerSideExec kind []"
proof -
  have "\<not> pg_IsServerSideExec []" "\<not> my_IsServerSideExec []" "\<not> lite_IsServerSideExec []" by code_simp+
  then show ?thesis by (simp add: IsServerSideExec_def)
qed

text \<open>
  C6: a user who is not an admin cannot get a host primitive (a program, a file, an extension) to an
  engine through the data grid, the console or the transaction endpoint: if the engine's screen reports
  any text of such a request, nothing is sent to the target database.
\<close>

theorem host_primitives_never_sent:
  assumes "\<not> u_Admin (en_user rq)" and "connFor rq w = Inr c"
    and "f \<in> set (request_fragments r)" and "IsServerSideExec (cn_Kind c) f"
  shows "wd_sent (snd (serve ig r rq w)) = wd_sent w"
proof (cases r)
  case (Grid q)
  then have "serverSideBlocked (en_user rq) (cn_Kind c) [gq_where q, gq_order q]"
    using blocked_fragment [OF assms(1) _ assms(4)] assms(3) by simp
  with Grid assms(2) show ?thesis
    by (auto simp: apiGrid_def Let_def quiet_step_def split: prod.split sum.split dest!: apiSQL_Inr apiSQL_Inl)
next
  case (Query b)
  then obtain i where b: "b = Some i" "f = TrimSpace (qi_SQL i)" using assms(3) by (cases b) auto
  then have "serverSideBlocked (en_user rq) (cn_Kind c) [TrimSpace (qi_SQL i)]"
    using blocked_fragment [OF assms(1) _ assms(4)] by simp
  with Query b assms(2) show ?thesis by (simp add: apiQuery_def Let_def)
next
  case (ExecTx b)
  then obtain i where b: "b = Some i" "f \<in> set (map TrimSpace (ti_Statements i))" using assms(3) by (cases b) auto
  have "f \<noteq> []" using assms(4) empty_not_server_side by auto
  with b have "f \<in> set (filter (\<lambda>s. s \<noteq> []) (map TrimSpace (ti_Statements i)))" by simp
  from blocked_fragment [OF assms(1) this assms(4)]
  have "serverSideBlocked (en_user rq) (cn_Kind c) (filter (\<lambda>s. s \<noteq> []) (map TrimSpace (ti_Statements i)))" .
  with ExecTx b assms(2) show ?thesis
    by (auto simp: apiExecTx_def Let_def quiet_step_def split: prod.split sum.split
        dest!: apiRequireWrite_Inr apiRequireWrite_Inl)
qed (use assms(3) in simp_all)

text \<open>
  C7: a statement that the confirmation screen reports never runs in write mode without the
  confirmation: if the user may write to the connection, the console and the transaction endpoint
  send nothing until the request is confirmed.
\<close>

theorem destructive_statements_need_confirmation:
  assumes "connFor rq w = Inr c" and "may_write rq w c" and "\<not> request_confirmed r"
    and "f \<in> set (request_fragments r)" and "f \<noteq> []" and "NeedsConfirm f"
  shows "wd_sent (snd (serve ig r rq w)) = wd_sent w"
proof (cases r)
  case (Query b)
  then obtain i where b: "b = Some i" "f = TrimSpace (qi_SQL i)" "\<not> qi_Confirm i" using assms(3,4) by (cases b) auto
  with Query assms show ?thesis by (simp add: apiQuery_def Let_def may_write_def)
next
  case (ExecTx b)
  then obtain i where b: "b = Some i" "f \<in> set (map TrimSpace (ti_Statements i))" "\<not> ti_Confirm i"
    using assms(3,4) by (cases b) auto
  with assms(5,6) have "list_ex NeedsConfirm (filter (\<lambda>s. s \<noteq> []) (map TrimSpace (ti_Statements i)))"
    by (auto simp: list_ex_iff)
  with ExecTx b assms(1) show ?thesis
    by (auto simp: apiExecTx_def Let_def quiet_step_def split: prod.split sum.split
        dest!: apiRequireWrite_Inr apiRequireWrite_Inl)
qed (use assms(3) in simp_all)

text \<open>
  An export is a read: it talks to a target database only after the CSRF check, only to a connection
  that the user may read, and only with the statement behind the engine's read-only guard; and its file
  name consists of letters, digits, underscores and hyphens with the extension of the format.
\<close>

theorem export_is_read_only:
  "(wd_sent (snd (exportTable q format rq w)) = wd_sent w
    \<or> (\<exists>c tr. wd_sent (snd (exportTable q format rq w)) = wd_sent w @ [(cn_ID c, tr)] \<and> en_csrf rq \<and> connFor rq w = Inr c
         \<and> (\<exists>sql. tr = ro_before (engine_of c) [] @ [ro_guard (engine_of c), ro_stmt (engine_of c) sql] @ ro_after (engine_of c)
              \<or> set tr \<subseteq> ro_overhead (engine_of c) [])))
   \<and> (case fst (exportTable q format rq w) of
        ExCSV name _ \<Rightarrow> list_all file_char (take (length name - 4) name) \<and> drop (length name - 4) name = ''.csv''
      | ExJSON name _ \<Rightarrow> list_all file_char (take (length name - 5) name) \<and> drop (length name - 5) name = ''.json''
      | ExError _ _ \<Rightarrow> True)"
proof (cases "en_csrf rq")
  case False
  then show ?thesis by (simp add: exportTable_def)
next
  case csrf: True
  show ?thesis
  proof (cases "connFor rq w")
    case (Inl e)
    then show ?thesis using csrf by (simp add: exportTable_def sqlEngineFor_def)
  next
    case (Inr c)
    obtain r w1 where op: "open_engine rq c w = (r, w1)" by force
    have sent: "wd_sent w1 = wd_sent w" using open_engine_quiet [OF op] by (simp add: quiet_step_def)
    have name: "list_all file_char (sanitizeFilename s)" for s
      using sanitizeFilename_chars [of _ s] by (auto simp: list_all_iff)
    show ?thesis
    proof (cases r)
      case (Inl e)
      then show ?thesis using csrf Inr op sent by (simp add: exportTable_def sqlEngineFor_def)
    next
      case rr: (Inr eng)
      then have eng: "eng = engine_of c" using open_engine_kind op by blast
      define sql where "sql = eng_browse_sql eng (gq_schema q) (gq_table q) (gq_where q) (gq_order q) 1000 0"
      obtain res tr where run: "eng_BrowseWhere eng (en_target rq) (gq_schema q) (gq_table q) (gq_where q) (gq_order q) 1000 0 True
          = (res, tr)" by force
      have tr: "tr = ro_before eng [] @ [ro_guard eng, ro_stmt eng sql] @ ro_after eng \<or> set tr \<subseteq> ro_overhead eng []"
        using eng_Query_guarded [of eng "en_target rq" sql "[]"] run by (simp add: eng_BrowseWhere_query sql_def)
      show ?thesis
      proof (cases "serverSideBlocked (en_user rq) (cn_Kind c) [gq_where q, gq_order q]")
        case True
        then show ?thesis using csrf Inr op rr sent by (simp add: exportTable_def sqlEngineFor_def Let_def)
      next
        case False
        then have sent': "wd_sent (snd (exportTable q format rq w)) = wd_sent w @ [(cn_ID c, tr)]"
          using csrf Inr op rr sent by (simp add: exportTable_def sqlEngineFor_def Let_def run split: sum.split)
        have "case fst (exportTable q format rq w) of
          ExCSV name _ \<Rightarrow> list_all file_char (take (length name - 4) name) \<and> drop (length name - 4) name = ''.csv''
        | ExJSON name _ \<Rightarrow> list_all file_char (take (length name - 5) name) \<and> drop (length name - 5) name = ''.json''
        | ExError _ _ \<Rightarrow> True"
          using False csrf Inr op rr name
          by (simp add: exportTable_def sqlEngineFor_def Let_def run split: sum.split)
        then show ?thesis using sent' csrf Inr tr unfolding eng by blast
      qed
    qed
  qed
qed

section \<open>Witnesses\<close>

text \<open>A target database with an empty catalogue.\<close>

definition empty_catalog :: catalog where
  "empty_catalog =
     \<lparr>ct_relations = \<lambda>_. Inr ([], None), ct_columns = \<lambda>_. Inr ([], None),
      ct_pg_indexes = \<lambda>_. Inr ([], None), ct_pg_keys = \<lambda>_. Inr ([], None), ct_pg_roles = \<lambda>_. Inr ([], None),
      ct_pg_usages = \<lambda>_. Inr ([], None), ct_pg_text = \<lambda>_. Inr [], ct_my_indexes = \<lambda>_. Inr ([], None),
      ct_my_keys = \<lambda>_. Inr ([], None), ct_my_fks = \<lambda>_. Inr ([], None), ct_my_usages = \<lambda>_. Inr ([], None),
      ct_my_roles = \<lambda>_. Inr ([], None), ct_my_create = \<lambda>_. Inl no_rows, ct_text = \<lambda>_. Inr None,
      ct_pairs = \<lambda>_. Inr ([], None), ct_lite_columns = \<lambda>_. Inr ([], None), ct_lite_index_list = \<lambda>_. Inr ([], None),
      ct_lite_index_info = \<lambda>_. Inr ([], None), ct_names = \<lambda>_. Inr ([], None), ct_lite_fks = \<lambda>_. Inr ([], None),
      ct_lite_usages = \<lambda>_. Inr ([], None)\<rparr>"

definition demo_ig :: introspection where
  "demo_ig = \<lparr>ig_catalog = empty_catalog, ig_mongo_dbs = Inr []\<rparr>"

lemma demo_may_write: "may_write demo_rq demo_world demo_pg" by code_simp

lemma demo_not_admin: "\<not> u_Admin (en_user demo_rq)" by code_simp

theorem host_primitives_never_sent_witness:
  "IsServerSideExec (cn_Kind demo_pg) ''select lo_import(1)''
   \<and> wd_sent (snd (serve demo_ig (Query (Some \<lparr>qi_SQL = ''select lo_import(1)'', qi_Confirm = True, qi_Schema = []\<rparr>)) demo_rq demo_world)) = []"
proof -
  have 1: "IsServerSideExec (cn_Kind demo_pg) ''select lo_import(1)''" by code_simp
  have 2: "''select lo_import(1)'' \<in> set (request_fragments
      (Query (Some \<lparr>qi_SQL = ''select lo_import(1)'', qi_Confirm = True, qi_Schema = []\<rparr>)))" by code_simp
  show ?thesis using host_primitives_never_sent [OF demo_not_admin demo_connFor 2 1] 1 by (simp add: demo_world_def)
qed

theorem destructive_statements_need_confirmation_witness:
  "NeedsConfirm ''drop table t''
   \<and> wd_sent (snd (serve demo_ig (Query (Some \<lparr>qi_SQL = ''drop table t'', qi_Confirm = False, qi_Schema = []\<rparr>)) demo_rq demo_world)) = []"
proof -
  have 1: "NeedsConfirm ''drop table t''" by code_simp
  have 2: "''drop table t'' \<in> set (request_fragments
      (Query (Some \<lparr>qi_SQL = ''drop table t'', qi_Confirm = False, qi_Schema = []\<rparr>)))" by code_simp
  show ?thesis
    using destructive_statements_need_confirmation [OF demo_connFor demo_may_write _ 2 _ 1] 1 by (simp add: demo_world_def)
qed

text \<open>
  The endpoint that applies a table-designer script has no such screen: a user who is not an admin
  gets a statement that the engine's own screen reports sent to the target database.
\<close>

theorem apply_table_skips_screen:
  "\<exists>rq w c stmt. \<not> u_Admin (en_user rq) \<and> connFor rq w = Inr c \<and> IsServerSideExec (cn_Kind c) stmt
     \<and> (\<exists>tr. wd_sent (snd (serve ig (ApplyTable (Some \<lparr>ai_Action = [], ai_Statements = [stmt]\<rparr>)) rq w))
            = wd_sent w @ [(cn_ID c, tr)] \<and> SExec stmt \<in> set tr)"
proof -
  have 1: "IsServerSideExec (cn_Kind demo_pg) ''copy t from program 1''" by code_simp
  have gate: "fst (apiRequireWrite demo_rq False demo_world) = Inr (demo_pg, PostgresE)" by code_simp
  then obtain w1 where g: "apiRequireWrite demo_rq False demo_world = (Inr (demo_pg, PostgresE), w1)"
    by (metis prod.collapse)
  have run: "SExec ''copy t from program 1'' \<in> set (snd (eng_ExecScript PostgresE (en_target demo_rq) [''copy t from program 1'']))"
    by code_simp
  have "wd_sent w1 = wd_sent demo_world" using apiRequireWrite_Inr [OF g] by (simp add: quiet_step_def)
  then have "wd_sent (snd (serve ig (ApplyTable (Some \<lparr>ai_Action = [], ai_Statements = [''copy t from program 1'']\<rparr>)) demo_rq demo_world))
      = wd_sent demo_world @ [(cn_ID demo_pg, snd (eng_ExecScript PostgresE (en_target demo_rq) [''copy t from program 1'']))]"
    by (simp add: apiApplyTable_def g execScriptAudit_def Let_def split_beta)
  then show ?thesis using demo_not_admin demo_connFor 1 run by blast
qed

end
