(* ===== verification/WebConn.thy ===== *)
theory WebConn
  imports WebCore
begin

text \<open>
  Connection management (\<^verbatim>\<open>api_connections.go\<close>, the probes of \<^verbatim>\<open>handlers_workbench.go\<close>) and the audit and
  re-encryption endpoints (\<^verbatim>\<open>api_audit.go\<close>). The name lookup of the egress guard, the nonces of the sealing
  and the answers of the probes are arguments.
\<close>

section \<open>Connections\<close>

definition toConnDTO :: "connection \<Rightarrow> conn_dto" where
  "toConnDTO c =
     \<lparr>co_ID = cn_ID c, co_Name = cn_Name c, co_Kind = cn_Kind c, co_Host = cn_Host c, co_Port = cn_Port c,
      co_DBName = cn_DBName c, co_Username = cn_Username c, co_Options = cn_Options c, co_ReadOnly = cn_ReadOnly c\<rparr>"

record conn_input =
  ci_Name :: string
  ci_Kind :: string
  ci_Host :: string
  ci_Port :: int
  ci_DBName :: string
  ci_Username :: string
  ci_Password :: string
  ci_CopyFrom :: int
  ci_Options :: string
  ci_ReadOnly :: bool

record net_env =
  ne_lookup :: "string \<Rightarrow> ip list result"
  ne_show :: "ip \<Rightarrow> string"
  ne_nonce :: "int \<Rightarrow> string result"
  ne_f_pw :: "int \<Rightarrow> fault"

definition guardConnEgress :: "net_env \<Rightarrow> web_env \<Rightarrow> connection \<Rightarrow> go_error option" where
  "guardConnEgress net rq c =
     (if Store.Engine c = FamilySQLite then None
      else guardEgressHost (ne_lookup net) (ne_show net) (cn_Host c)
             (cfg_AllowLocalTargets (en_cfg rq) \<or> cfg_DevMode (en_cfg rq)))"

definition apiListConnections :: "web_env \<Rightarrow> world \<Rightarrow> response \<times> world" where
  "apiListConnections rq w =
     (let u = en_user rq;
          conns = (if cfg_ScopedAccess (en_cfg rq) \<and> \<not> u_Admin u
                   then ListConnectionsForSubjects (en_f_conn rq) (wd_st w) (Subjects u)
                   else ListConnections (en_f_conn rq) (wd_st w))
      in case conns of
           Inl e \<Rightarrow> (apiErr 500 e, w)
         | Inr cs \<Rightarrow> (writeJSON 200 [(''connections'', FConns (map toConnDTO cs))], w))"

definition apiGetConnection :: "web_env \<Rightarrow> world \<Rightarrow> response \<times> world" where
  "apiGetConnection rq w =
     (if \<not> u_Admin (en_user rq) then (apiErr 403 ''admin required'', w)
      else case connFor rq w of
             Inl _ \<Rightarrow> (apiErr 404 ''connection not found'', w)
           | Inr c \<Rightarrow> (writeJSON 200 [(''connection'', FConn (toConnDTO c))], w))"

definition box_Encrypt :: "net_env \<Rightarrow> web_env \<Rightarrow> int \<Rightarrow> string \<Rightarrow> string result" where
  "box_Encrypt net rq i pw = Encrypt (re_cipher (en_reg rq)) (ne_nonce net i) (re_box (en_reg rq)) pw"

text \<open>The ciphertext of a new connection: the sealed password, or that of the copied connection.\<close>

definition new_password :: "net_env \<Rightarrow> web_env \<Rightarrow> world \<Rightarrow> conn_input \<Rightarrow> string result" where
  "new_password net rq w i =
     (if ci_Password i \<noteq> [] then box_Encrypt net rq 0 (ci_Password i)
      else if ci_CopyFrom i > 0
           then (case GetConnection (en_f_conn rq) (wd_st w) (ci_CopyFrom i) of
                   Inl _ \<Rightarrow> Inr [] | Inr src \<Rightarrow> Inr (cn_PasswordEnc src))
           else Inr [])"

definition input_conn :: "user \<Rightarrow> conn_input \<Rightarrow> connection" where
  "input_conn u i =
     \<lparr>cn_ID = 0, cn_Name = ci_Name i, cn_Kind = ci_Kind i, cn_Host = ci_Host i, cn_Port = ci_Port i,
      cn_DBName = ci_DBName i, cn_Username = ci_Username i, cn_PasswordEnc = [],
      cn_Options = ci_Options i, cn_ReadOnly = ci_ReadOnly i, cn_CreatedBy = u_Email u, cn_CreatedAt = 0\<rparr>"

definition apiCreateConnection :: "net_env \<Rightarrow> conn_input option \<Rightarrow> web_env \<Rightarrow> world \<Rightarrow> response \<times> world" where
  "apiCreateConnection net body rq w =
     (case apiRequireAdmin rq of
        Inl resp \<Rightarrow> (resp, w)
      | Inr u \<Rightarrow>
      (case body of
         None \<Rightarrow> (apiErr 400 ''bad json'', w)
       | Some i \<Rightarrow>
           (let c = input_conn u i
            in case guardConnEgress net rq c of
                 Some e \<Rightarrow> (apiErr 400 e, w)
               | None \<Rightarrow>
                   (case new_password net rq w i of
                      Inl e \<Rightarrow> (apiErr 500 e, w)
                    | Inr enc \<Rightarrow>
                        (case CreateConnection (en_f_write rq) (en_now rq) (c\<lparr>cn_PasswordEnc := enc\<rparr>) (wd_st w) of
                           (Inl e, st') \<Rightarrow> (apiErr 500 e, w\<lparr>wd_st := st'\<rparr>)
                         | (Inr n, st') \<Rightarrow>
                             (writeJSON 200 [(''id'', FInt n)],
                              add_audit rq (new_audit (u_Email u) n ''create_connection'' (ci_Name i) True) (w\<lparr>wd_st := st'\<rparr>)))))))"

definition apiUpdateConnection :: "net_env \<Rightarrow> conn_input option \<Rightarrow> web_env \<Rightarrow> world \<Rightarrow> response \<times> world" where
  "apiUpdateConnection net body rq w =
     (case apiRequireAdmin rq of
        Inl resp \<Rightarrow> (resp, w)
      | Inr u \<Rightarrow>
      (case connFor rq w of
         Inl _ \<Rightarrow> (apiErr 404 ''connection not found'', w)
       | Inr c0 \<Rightarrow>
      (case body of
         None \<Rightarrow> (apiErr 400 ''bad json'', w)
       | Some i \<Rightarrow>
           (let c = c0\<lparr>cn_Name := ci_Name i, cn_Kind := ci_Kind i, cn_Host := ci_Host i, cn_Port := ci_Port i,
                       cn_DBName := ci_DBName i, cn_Username := ci_Username i, cn_Options := ci_Options i,
                       cn_ReadOnly := ci_ReadOnly i\<rparr>
            in case guardConnEgress net rq c of
                 Some e \<Rightarrow> (apiErr 400 e, w)
               | None \<Rightarrow>
                   (case (if ci_Password i \<noteq> [] then map_sum id Some (box_Encrypt net rq (cn_ID c) (ci_Password i)) else Inr None) of
                      Inl e \<Rightarrow> (apiErr 500 e, w)
                    | Inr enc \<Rightarrow>
                        (let c = (case enc of None \<Rightarrow> c | Some x \<Rightarrow> c\<lparr>cn_PasswordEnc := x\<rparr>)
                         in case UpdateConnection (en_f_write rq) c (enc \<noteq> None) (wd_st w) of
                              (Some e, st') \<Rightarrow> (apiErr 500 e, w\<lparr>wd_st := st'\<rparr>)
                            | (None, st') \<Rightarrow>
                                (ok_response,
                                 add_audit rq (new_audit (u_Email u) (cn_ID c) ''update_connection'' (cn_Name c) True)
                                   (w\<lparr>wd_st := st', wd_rg := Forget (cn_ID c) (wd_rg w)\<rparr>))))))))"

definition apiDeleteConnection :: "web_env \<Rightarrow> world \<Rightarrow> response \<times> world" where
  "apiDeleteConnection rq w =
     (case apiRequireAdmin rq of
        Inl resp \<Rightarrow> (resp, w)
      | Inr u \<Rightarrow>
          (let i = idParam rq
           in case DeleteConnection (en_f_write rq) i (wd_st w) of
                (Some e, st') \<Rightarrow> (apiErr 500 e, w\<lparr>wd_st := st'\<rparr>)
              | (None, st') \<Rightarrow>
                  (ok_response,
                   add_audit rq (new_audit (u_Email u) i ''delete_connection'' [] True)
                     (w\<lparr>wd_st := st', wd_rg := Forget i (wd_rg w)\<rparr>))))"

section \<open>Probes\<close>

text \<open>
  The one-shot probes \<^verbatim>\<open>pingPG\<close>, \<^verbatim>\<open>pingMySQL\<close>, \<^verbatim>\<open>pingSQLite\<close>, \<^verbatim>\<open>pingMongo\<close>, \<^verbatim>\<open>pingRedis\<close>: what is dialled, and the
  error. The pool is closed on every path.
\<close>

definition probe :: "reg_env \<Rightarrow> string \<Rightarrow> family \<Rightarrow> connection \<Rightarrow> string \<Rightarrow> go_error option" where
  "probe renv sqliteDir fam c pw =
     (let target =
        (if fam = SQLiteF then
           map_sum id (\<lambda>p. TDsn (SQLiteDSN (show_path p))) (ResolveSQLitePath (re_cwd renv) (re_links renv) sqliteDir (cn_DBName c))
         else Inr (case fam of
                     MySQLF \<Rightarrow> TDsn (DSNMySQL (re_FormatDSN renv) c pw)
                   | RedisF \<Rightarrow> redis_options c pw
                   | MongoF \<Rightarrow> TDsn (DSNMongo c pw)
                   | _ \<Rightarrow> TDsn (DSN c pw)))
      in case target of
           Inl e \<Rightarrow> Some e
         | Inr t \<Rightarrow> (case re_dial renv fam t of DialErr e \<Rightarrow> Some e | PingErr e \<Rightarrow> Some e | Opened \<Rightarrow> None))"

definition probe_family :: "connection \<Rightarrow> family" where
  "probe_family c =
     (if Store.Engine c = FamilyRedis then RedisF
      else if Store.Engine c = FamilyMySQL then MySQLF
      else if Store.Engine c = FamilySQLite then SQLiteF
      else if Store.Engine c = FamilyMongo then MongoF
      else PgF)"

definition apiTestConnection :: "net_env \<Rightarrow> conn_input option \<Rightarrow> web_env \<Rightarrow> response" where
  "apiTestConnection net body rq =
     (case apiRequireAdmin rq of
        Inl resp \<Rightarrow> resp
      | Inr _ \<Rightarrow>
      (case body of
         None \<Rightarrow> apiErr 400 ''bad json''
       | Some i \<Rightarrow>
           (let c = \<lparr>cn_ID = 0, cn_Name = [], cn_Kind = ci_Kind i, cn_Host = ci_Host i, cn_Port = ci_Port i,
                     cn_DBName = ci_DBName i, cn_Username = ci_Username i, cn_PasswordEnc = [],
                     cn_Options = ci_Options i, cn_ReadOnly = False, cn_CreatedBy = [], cn_CreatedAt = 0\<rparr>
            in case guardConnEgress net rq c of
                 Some e \<Rightarrow> writeJSON 200 [(''ok'', FBool False), (''error'', FStr e)]
               | None \<Rightarrow>
                   (case probe (en_reg rq) (cfg_SQLiteDir (en_cfg rq)) (probe_family c) c (ci_Password i) of
                      Some e \<Rightarrow> writeJSON 200 [(''ok'', FBool False), (''error'', FStr e)]
                    | None \<Rightarrow> ok_response))))"

section \<open>Grants\<close>

definition apiListGrants :: "web_env \<Rightarrow> world \<Rightarrow> response \<times> world" where
  "apiListGrants rq w =
     (if \<not> u_Admin (en_user rq) then (apiErr 403 ''admin required'', w)
      else case ListGrants (en_f_conn rq) (wd_st w) (idParam rq) of
             Inl e \<Rightarrow> (apiErr 500 e, w)
           | Inr gs \<Rightarrow>
               (writeJSON 200 [(''grants'', FGrants (map (\<lambda>g. \<lparr>gd_ID = g_ID g, gd_Subject = g_Subject g, gd_Level = g_Level g\<rparr>) gs))], w))"

definition apiSetGrant :: "(string \<times> string) option \<Rightarrow> web_env \<Rightarrow> world \<Rightarrow> response \<times> world" where
  "apiSetGrant body rq w =
     (case apiRequireAdmin rq of
        Inl resp \<Rightarrow> (resp, w)
      | Inr u \<Rightarrow>
          (let connID = idParam rq
           in case GetConnection (en_f_conn rq) (wd_st w) connID of
                Inl _ \<Rightarrow> (apiErr 404 ''connection not found'', w)
              | Inr _ \<Rightarrow>
                  (case body of
                     None \<Rightarrow> (apiErr 400 ''bad json'', w)
                   | Some (subject, level) \<Rightarrow>
                       (let subject = TrimSpace subject
                        in if subject = [] then (apiErr 400 ''subject required'', w)
                           else if \<not> ValidGrantLevel level
                                then (apiErr 400 (''level must be '' @ [SQ] @ ''read'' @ [SQ] @ '' or '' @ [SQ] @ ''write'' @ [SQ]), w)
                           else case SetGrant (en_f_write rq) (en_now rq)
                                       \<lparr>g_ID = 0, g_ConnID = connID, g_Subject = subject, g_Level = level,
                                        g_CreatedBy = u_Email u, g_CreatedAt = 0\<rparr> (wd_st w) of
                                  (Some e, st') \<Rightarrow> (apiErr 500 e, w\<lparr>wd_st := st'\<rparr>)
                                | (None, st') \<Rightarrow>
                                    (ok_response,
                                     add_audit rq (new_audit (u_Email u) connID ''grant_set'' (subject @ ''='' @ level) True)
                                       (w\<lparr>wd_st := st'\<rparr>))))))"

definition apiDeleteGrant :: "string \<Rightarrow> web_env \<Rightarrow> world \<Rightarrow> response \<times> world" where
  "apiDeleteGrant gid rq w =
     (case apiRequireAdmin rq of
        Inl resp \<Rightarrow> (resp, w)
      | Inr u \<Rightarrow>
          (let connID = idParam rq; g = Atoi_lax gid
           in case DeleteGrant (en_f_write rq) connID g (wd_st w) of
                (Some e, st') \<Rightarrow> (apiErr 500 e, w\<lparr>wd_st := st'\<rparr>)
              | (None, st') \<Rightarrow>
                  (ok_response, add_audit rq (new_audit (u_Email u) connID ''grant_delete'' (Itoa g) True) (w\<lparr>wd_st := st'\<rparr>))))"

section \<open>Audit\<close>

definition toAuditDTO :: "audit_row \<Rightarrow> audit_dto" where
  "toAuditDTO a = \<lparr>ad_TS = Format_RFC3339 (a_TS a), ad_User = a_User a, ad_ConnID = a_ConnID a, ad_Action = a_Action a,
     ad_Detail = a_Detail a, ad_Success = a_Success a\<rparr>"

definition apiAudit :: "web_env \<Rightarrow> world \<Rightarrow> response \<times> world" where
  "apiAudit rq w =
     (if \<not> u_Admin (en_user rq) then (apiErr 403 ''admin required'', w)
      else case ListAudit (en_f_conn rq) (wd_st w) 200 of
             Inl e \<Rightarrow> (apiErr 500 e, w)
           | Inr rows \<Rightarrow> (writeJSON 200 [(''rows'', FAudit (map toAuditDTO rows))], w))"

text \<open>A CSV record is the list of its fields.\<close>

datatype audit_export =
    AeError int string
  | AeJSONL "audit_dto list"
  | AeCSV "string list list"

definition audit_csv_row :: "audit_row \<Rightarrow> string list" where
  "audit_csv_row a =
     [Format_RFC3339 (a_TS a), csvSafe (a_User a), Itoa (a_ConnID a), csvSafe (a_Action a), csvSafe (a_Detail a),
      FormatBool (a_Success a)]"

definition apiAuditExport :: "string \<Rightarrow> web_env \<Rightarrow> world \<Rightarrow> audit_export" where
  "apiAuditExport format rq w =
     (if \<not> u_Admin (en_user rq) then AeError 403 ''admin required''
      else let format = (if format = [] then ''jsonl'' else format) in
        if format = ''jsonl'' then
          AeJSONL (or_zero [] (IterAudit (en_f_conn rq) (wd_st w) (\<lambda>acc a. Inr (acc @ [toAuditDTO a])) []))
        else if format = ''csv'' then
          AeCSV ([''ts'', ''user'', ''conn_id'', ''action'', ''detail'', ''success'']
            # or_zero [] (IterAudit (en_f_conn rq) (wd_st w) (\<lambda>acc a. Inr (acc @ [audit_csv_row a])) []))
        else AeError 400 (''format must be '' @ [SQ] @ ''jsonl'' @ [SQ] @ '' or '' @ [SQ] @ ''csv'' @ [SQ]))"

section \<open>Re-encryption\<close>

text \<open>One round of the loop: how many rows were rewritten, how many failed.\<close>

definition reencrypt_one :: "net_env \<Rightarrow> reg_env \<Rightarrow> connection \<Rightarrow> world \<Rightarrow> nat \<times> nat \<times> world" where
  "reencrypt_one net renv c w =
     (case Reencrypt (re_cipher renv) (ne_nonce net (cn_ID c)) (re_box renv) (cn_PasswordEnc c) of
        Inl _ \<Rightarrow> (0, 1, w)
      | Inr (enc, changed) \<Rightarrow>
          (if \<not> changed then (0, 0, w)
           else case UpdatePasswordEnc (ne_f_pw net (cn_ID c)) (cn_ID c) enc (wd_st w) of
                  (Some _, st') \<Rightarrow> (0, 1, w\<lparr>wd_st := st'\<rparr>)
                | (None, st') \<Rightarrow> (1, 0, w\<lparr>wd_st := st', wd_rg := Forget (cn_ID c) (wd_rg w)\<rparr>)))"

fun reencrypt_loop ::
    "net_env \<Rightarrow> reg_env \<Rightarrow> connection list \<Rightarrow> world \<Rightarrow> (nat \<times> nat \<times> nat) \<times> world" where
  "reencrypt_loop net renv [] w = ((0, 0, 0), w)"
| "reencrypt_loop net renv (c # cs) w =
     (if cn_PasswordEnc c = [] then reencrypt_loop net renv cs w
      else case reencrypt_one net renv c w of
             (rewritten, failed, w') \<Rightarrow>
               (case reencrypt_loop net renv cs w' of
                  ((n, r, f), w'') \<Rightarrow> ((n + 1, rewritten + r, failed + f), w'')))"

definition apiReencrypt :: "net_env \<Rightarrow> web_env \<Rightarrow> world \<Rightarrow> response \<times> world" where
  "apiReencrypt net rq w =
     (case apiRequireAdmin rq of
        Inl resp \<Rightarrow> (resp, w)
      | Inr u \<Rightarrow>
      (case ListConnections (en_f_conn rq) (wd_st w) of
         Inl e \<Rightarrow> (apiErr 500 e, w)
       | Inr cs \<Rightarrow>
           (case reencrypt_loop net (en_reg rq) cs w of
              ((checked, rewritten, failed), w') \<Rightarrow>
                (let prim = b_primaryID (re_box (en_reg rq))
                 in (writeJSON 200 [(''primaryKey'', FStr prim), (''checked'', FInt (int checked)),
                       (''rewritten'', FInt (int rewritten)), (''failed'', FInt (int failed))],
                     add_audit rq (new_audit (u_Email u) 0 ''reencrypt''
                       (''key='' @ prim @ '' checked='' @ Itoa (int checked) @ '' rewritten='' @ Itoa (int rewritten)
                        @ '' failed='' @ Itoa (int failed)) (failed = 0)) w')))))"

section \<open>The management routes\<close>

datatype manage_request =
    CreateConn "conn_input option"
  | UpdateConn "conn_input option"
  | DeleteConn
  | PutGrant "(string \<times> string) option"
  | RemoveGrant string
  | ReencryptAll

fun manage :: "net_env \<Rightarrow> manage_request \<Rightarrow> web_env \<Rightarrow> world \<Rightarrow> response \<times> world" where
  "manage net (CreateConn b) = apiCreateConnection net b"
| "manage net (UpdateConn b) = apiUpdateConnection net b"
| "manage net DeleteConn = apiDeleteConnection"
| "manage net (PutGrant b) = apiSetGrant b"
| "manage net (RemoveGrant gid) = apiDeleteGrant gid"
| "manage net ReencryptAll = apiReencrypt net"

lemma store_ok_add_audit: "store_ok (wd_st w) \<Longrightarrow> store_ok (wd_st (add_audit rq a w))"
  by (simp add: add_audit_def store_ok_audit)

text \<open>What a management request may do to the world: change the store within its invariant and drop pools.\<close>

definition managed :: "world \<Rightarrow> world \<Rightarrow> bool" where
  "managed w w' \<longleftrightarrow> store_ok (wd_st w') \<and> wd_sent w' = wd_sent w \<and> reg_kept (wd_rg w) (wd_rg w')"

lemma managed_refl: "store_ok (wd_st w) \<Longrightarrow> managed w w"
  by (simp add: managed_def)

lemma managed_add_audit: "managed w w' \<Longrightarrow> managed w (add_audit rq a w')"
  by (simp add: managed_def store_ok_add_audit)

lemma reencrypt_one_ok:
  "store_ok (wd_st w) \<Longrightarrow> reencrypt_one net renv c w = (r, f, w') \<Longrightarrow> managed w w'"
  by (auto simp: reencrypt_one_def managed_def Forget_kept split: sum.splits prod.splits if_splits option.splits
      dest: store_ok_UpdatePasswordEnc)

lemma reencrypt_loop_ok: "store_ok (wd_st w) \<Longrightarrow> managed w (snd (reencrypt_loop net renv cs w))"
proof (induction cs arbitrary: w)
  case (Cons c cs)
  obtain r f w' where one: "reencrypt_one net renv c w = (r, f, w')" by (metis prod_cases3)
  from reencrypt_one_ok [OF Cons.prems this] have step: "managed w w'" .
  with Cons.IH [of w'] have "managed w (snd (reencrypt_loop net renv cs w'))"
    by (auto simp: managed_def intro: reg_kept_trans)
  with Cons.IH [OF Cons.prems] show ?case by (simp add: one split_beta)
qed (simp add: managed_refl)

lemma manage_refused:
  assumes "\<not> (en_csrf rq \<and> u_Admin (en_user rq))"
  shows "snd (manage net r rq w) = w \<and> fst (fst (manage net r rq w)) = 403"
proof -
  have "apiRequireAdmin rq = Inl (apiErr 403 (if en_csrf rq then ''admin required'' else ''bad csrf''))"
    using assms by (auto simp: apiRequireAdmin_def)
  then show ?thesis
    by (cases r) (simp_all add: apiCreateConnection_def apiUpdateConnection_def apiDeleteConnection_def
        apiSetGrant_def apiDeleteGrant_def apiReencrypt_def apiErr_def writeJSON_def)
qed

lemma manage_managed:
  assumes "store_ok (wd_st w)"
  shows "managed w (snd (manage net r rq w))"
proof (cases "en_csrf rq \<and> u_Admin (en_user rq)")
  case False
  then show ?thesis using manage_refused [OF False] managed_refl [OF assms] by simp
next
  case True
  then have g: "apiRequireAdmin rq = Inr (en_user rq)" by (simp add: apiRequireAdmin_def)
  note defs = apiCreateConnection_def apiUpdateConnection_def apiDeleteConnection_def apiSetGrant_def apiDeleteGrant_def g Let_def
  note facts = managed_def store_ok_add_audit Forget_kept
  show ?thesis
  proof (cases r)
    case (CreateConn b)
    then show ?thesis using assms
      by (auto simp: defs facts split: option.split sum.split prod.split dest: store_ok_ops [OF assms])
  next
    case (UpdateConn b)
    then show ?thesis using assms
      by (auto simp: defs facts split: option.split sum.split prod.split dest: store_ok_ops [OF assms])
  next
    case DeleteConn
    then show ?thesis using assms
      by (auto simp: defs facts split: option.split prod.split dest: store_ok_ops [OF assms])
  next
    case (PutGrant b)
    then show ?thesis using assms
      by (auto simp: defs facts split: option.split sum.split prod.split dest: store_ok_ops [OF assms])
  next
    case (RemoveGrant gid)
    then show ?thesis using assms
      by (auto simp: defs facts split: option.split prod.split dest: store_ok_ops [OF assms])
  next
    case ReencryptAll
    then show ?thesis using managed_refl [OF assms] reencrypt_loop_ok [OF assms, of net "en_reg rq"]
      by (simp add: apiReencrypt_def g Let_def split_beta managed_add_audit split: sum.split)
  qed
qed

text \<open>
  What every handler keeps of the audit trail: rows are only added, and a change of the connections or
  the grants comes with a row that names the user and the time.
\<close>

definition accounted :: "web_env \<Rightarrow> world \<Rightarrow> world \<Rightarrow> bool" where
  "accounted rq w w' \<longleftrightarrow>
     prefix (st_audit (wd_st w)) (st_audit (wd_st w')) \<and> prefix (st_sink (wd_st w)) (st_sink (wd_st w'))
     \<and> (st_conns (wd_st w') = st_conns (wd_st w) \<and> st_grants (wd_st w') = st_grants (wd_st w)
        \<or> (\<exists>a. st_sink (wd_st w') = st_sink (wd_st w) @ [a] \<and> a_User a = u_Email (en_user rq) \<and> a_TS a = en_now rq))"

definition trail_kept :: "store \<Rightarrow> store \<Rightarrow> bool" where
  "trail_kept s s' \<longleftrightarrow> st_audit s' = st_audit s \<and> st_sink s' = st_sink s"

lemma trail_kept_ops:
  "CreateConnection f now c s = (r, s') \<Longrightarrow> trail_kept s s'" "UpdateConnection f c pw s = (e, s') \<Longrightarrow> trail_kept s s'"
  "UpdatePasswordEnc f i enc s = (e, s') \<Longrightarrow> trail_kept s s'" "DeleteConnection f i s = (e, s') \<Longrightarrow> trail_kept s s'"
  "SetGrant f now g s = (e, s') \<Longrightarrow> trail_kept s s'" "DeleteGrant f i g' s = (e, s') \<Longrightarrow> trail_kept s s'"
  by (auto simp: trail_kept_def CreateConnection_def UpdateConnection_def UpdatePasswordEnc_def DeleteConnection_def
      SetGrant_def DeleteGrant_def split: option.splits if_splits)

lemma failed_ops:
  "CreateConnection f now c s = (Inl err, s') \<Longrightarrow> s' = s" "UpdateConnection f c pw s = (Some err, s') \<Longrightarrow> s' = s"
  "DeleteConnection f i s = (Some err, s') \<Longrightarrow> s' = s" "SetGrant f now g s = (Some err, s') \<Longrightarrow> s' = s"
  "DeleteGrant f i g' s = (Some err, s') \<Longrightarrow> s' = s"
  by (auto simp: CreateConnection_def UpdateConnection_def DeleteConnection_def SetGrant_def DeleteGrant_def
      split: option.splits if_splits)

lemma accounted_refl [simp]: "wd_st w' = wd_st w \<Longrightarrow> accounted rq w w'"
  by (simp add: accounted_def)

lemma accounted_change:
  assumes "trail_kept (wd_st w) (wd_st w')" and "a_User a = u_Email (en_user rq)"
  shows "accounted rq w (add_audit rq a w')"
proof -
  have "prefix (st_audit s) (st_audit (AddAudit f now a s))" for s f now
    by (auto simp: AddAudit_def Let_def split: option.split)
  with assms show ?thesis
    by (auto simp: accounted_def trail_kept_def add_audit_def intro!: exI [of _ "a\<lparr>a_TS := en_now rq\<rparr>"]) metis
qed

lemma reencrypt_trail: "trail_kept (wd_st w) (wd_st (snd (reencrypt_loop net renv cs w)))"
proof (induction cs arbitrary: w)
  case (Cons c cs)
  have "trail_kept (wd_st w) (wd_st (snd (snd (reencrypt_one net renv c w))))"
    by (auto simp: reencrypt_one_def split: sum.split prod.split option.split dest: trail_kept_ops) (simp_all add: trail_kept_def)
  with Cons.IH show ?case by (simp add: split_beta trail_kept_def)
qed (simp add: trail_kept_def)

lemma manage_accounted: "accounted rq w (snd (manage net r rq w))"
proof (cases "en_csrf rq \<and> u_Admin (en_user rq)")
  case False
  then show ?thesis using manage_refused [OF False] by simp
next
  case True
  then have g: "apiRequireAdmin rq = Inr (en_user rq)" by (simp add: apiRequireAdmin_def)
  have user: "a_User (new_audit u i act d ok) = u" for u i act d ok by (simp add: new_audit_def)
  note defs = apiCreateConnection_def apiUpdateConnection_def apiDeleteConnection_def apiSetGrant_def apiDeleteGrant_def g Let_def
  note change = accounted_change user
  show ?thesis
  proof (cases r)
    case ReencryptAll
    then show ?thesis using reencrypt_trail [of w net "en_reg rq"]
      by (simp add: apiReencrypt_def g Let_def split_beta change split: sum.split)
  next
    case (CreateConn b)
    then show ?thesis by (auto simp: defs change split: option.split sum.split prod.split dest: trail_kept_ops failed_ops)
  next
    case (UpdateConn b)
    then show ?thesis by (auto simp: defs change split: option.split sum.split prod.split dest: trail_kept_ops failed_ops)
  next
    case DeleteConn
    then show ?thesis by (auto simp: defs change split: option.split prod.split dest: trail_kept_ops failed_ops)
  next
    case (PutGrant b)
    then show ?thesis by (auto simp: defs change split: option.split sum.split prod.split dest: trail_kept_ops failed_ops)
  next
    case (RemoveGrant gid)
    then show ?thesis by (auto simp: defs change split: option.split prod.split dest: trail_kept_ops failed_ops)
  qed
qed

text \<open>
  Connection management is reserved: without a valid CSRF token and the admin capability every such
  request answers 403 and changes nothing at all. With them, the table invariants of the store
  (unique ids, no grant without its connection, at most one grant per connection and subject) are kept,
  and no command is sent to any target database.
\<close>

theorem management_is_admin_only:
  assumes "store_ok (wd_st w)"
  shows "store_ok (wd_st (snd (manage net r rq w))) \<and> wd_sent (snd (manage net r rq w)) = wd_sent w
    \<and> (\<not> (en_csrf rq \<and> u_Admin (en_user rq)) \<longrightarrow> snd (manage net r rq w) = w \<and> fst (fst (manage net r rq w)) = 403)"
  using manage_managed [OF assms, of net r rq] manage_refused by (auto simp: managed_def)

theorem management_is_admin_only_witness:
  "store_ok (empty_store ''sqlite'')
   \<and> (let w = \<lparr>wd_st = empty_store ''sqlite'', wd_rg = NewRegistry 4 [], wd_sent = []\<rparr>;
          rq = (undefined :: web_env)\<lparr>en_csrf := False\<rparr>
      in snd (manage undefined DeleteConn rq w) = w \<and> fst (fst (manage undefined DeleteConn rq w)) = 403)"
proof -
  define w where "w = \<lparr>wd_st = empty_store ''sqlite'', wd_rg = NewRegistry 4 [], wd_sent = []\<rparr>"
  have 1: "store_ok (empty_store ''sqlite'')" by (simp add: store_ok_def empty_store_def)
  then have "store_ok (wd_st w)" by (simp add: w_def)
  from management_is_admin_only [OF this, of undefined DeleteConn "(undefined :: web_env)\<lparr>en_csrf := False\<rparr>"] 1
  show ?thesis by (simp add: w_def Let_def)
qed

section \<open>Properties of the single endpoints\<close>

text \<open>
  C26: creating a connection with a password as an admin, when the egress guard accepts the host and the
  store works, adds one row and answers its id: it has the next id, every field of the request (name,
  kind, host, port, database, user name, options, read-only flag), the user and the time of the request;
  its password column is sealed under the primary key and opens to the password again; and one audit
  row says who created which connection. When the guard refuses the host, nothing changes.
\<close>

theorem create_connection_seals_password:
  assumes "en_csrf rq" and "u_Admin (en_user rq)" and "box_ok (re_box (en_reg rq))"
    and "ne_nonce net 0 = Inr nonce" and "length nonce = nonce_size" and "ci_Password i \<noteq> []" and "en_f_write rq = None"
  shows "if guardConnEgress net rq (input_conn (en_user rq) i) \<noteq> None
     then snd (apiCreateConnection net (Some i) rq w) = w
     else fst (apiCreateConnection net (Some i) rq w) = writeJSON 200 [(''id'', FInt (st_next_conn (wd_st w)))]
       \<and> (\<exists>c. st_conns (wd_st (snd (apiCreateConnection net (Some i) rq w))) = st_conns (wd_st w) @ [c]
         \<and> cn_ID c = st_next_conn (wd_st w) \<and> cn_Name c = ci_Name i \<and> cn_Kind c = ci_Kind i \<and> cn_Host c = ci_Host i
         \<and> cn_Port c = ci_Port i \<and> cn_DBName c = ci_DBName i \<and> cn_Username c = ci_Username i \<and> cn_Options c = ci_Options i
         \<and> cn_ReadOnly c = ci_ReadOnly i \<and> cn_CreatedBy c = u_Email (en_user rq) \<and> cn_CreatedAt c = en_now rq
         \<and> Decrypt (re_cipher (en_reg rq)) (re_box (en_reg rq)) (cn_PasswordEnc c) = Inr (ci_Password i)
         \<and> (\<exists>payload. Cut (cn_PasswordEnc c) CHR ''$'' = (b_primaryID (re_box (en_reg rq)), payload, True)))
       \<and> (\<exists>a. st_sink (wd_st (snd (apiCreateConnection net (Some i) rq w))) = st_sink (wd_st w) @ [a]
         \<and> a_User a = u_Email (en_user rq) \<and> a_ConnID a = st_next_conn (wd_st w) \<and> a_Action a = ''create_connection''
         \<and> a_Detail a = ci_Name i \<and> a_Success a)"
proof -
  obtain k where k: "b_keys (re_box (en_reg rq)) (b_primaryID (re_box (en_reg rq))) = Some k"
    "CHR ''$'' \<notin> set (b_primaryID (re_box (en_reg rq)))"
    "Encrypt (re_cipher (en_reg rq)) (Inr nonce) (re_box (en_reg rq)) (ci_Password i)
       = Inr (b_primaryID (re_box (en_reg rq)) @ CHR ''$'' # b64_encode (nonce @ gcm_seal (re_cipher (en_reg rq)) k nonce (ci_Password i)))"
    using Encrypt_shape [OF assms(3)] by metis
  have g: "apiRequireAdmin rq = Inr (en_user rq)" using assms(1,2) by (simp add: apiRequireAdmin_def)
  have dec: "Decrypt (re_cipher (en_reg rq)) (re_box (en_reg rq)) (b_primaryID (re_box (en_reg rq)) @ CHR ''$''
      # b64_encode (nonce @ gcm_seal (re_cipher (en_reg rq)) k nonce (ci_Password i))) = Inr (ci_Password i)"
    using Decrypt_prefixed [OF k(2,1) assms(5)] by simp
  show ?thesis
  proof (cases "guardConnEgress net rq (input_conn (en_user rq) i)")
    case (Some e)
    then show ?thesis by (simp add: apiCreateConnection_def g Let_def)
  next
    case None
    then show ?thesis
      using k dec assms(4,6,7)
      by (simp add: apiCreateConnection_def g Let_def new_password_def box_Encrypt_def CreateConnection_def Cut_found
          add_audit_def input_conn_def new_audit_def)
  qed
qed


definition demo_admin :: web_env where
  "demo_admin =
     \<lparr>en_cfg = read_config (\<lambda>_. []),
      en_reg = \<lparr>re_cipher = (\<lambda>_ b. b), re_box = \<lparr>b_primaryID = ''v1'', b_keys = [''v1'' \<mapsto> replicate 32 CHR ''k''], b_order = [''v1'']\<rparr>,
                re_cwd = Inr [], re_links = Inr, re_FormatDSN = (\<lambda>_. []), re_dial = (\<lambda>_ _. Opened)\<rparr>,
      en_user = no_user\<lparr>u_Email := ''a'', u_Admin := True, u_Read := True, u_Write := True\<rparr>, en_csrf = True, en_id = ''1'', en_now = 7,
      en_f_conn = None, en_f_grant = None, en_f_audit = None, en_f_write = None, en_target = (\<lambda>_ _. AOk 0)\<rparr>"

definition demo_net :: net_env where
  "demo_net = \<lparr>ne_lookup = (\<lambda>_. Inl ''no such host''), ne_show = (\<lambda>_. []), ne_nonce = (\<lambda>_. Inr (replicate 12 CHR ''n'')),
     ne_f_pw = (\<lambda>_. None)\<rparr>"

definition demo_input :: conn_input where
  "demo_input = \<lparr>ci_Name = ''n'', ci_Kind = ''sqlite'', ci_Host = [], ci_Port = 0, ci_DBName = ''f.db'', ci_Username = [],
     ci_Password = ''pw'', ci_CopyFrom = 0, ci_Options = [], ci_ReadOnly = False\<rparr>"

definition empty_world :: world where
  "empty_world = \<lparr>wd_st = empty_store ''sqlite'', wd_rg = NewRegistry 4 [], wd_sent = []\<rparr>"

lemma demo_admin_facts:
  "en_csrf demo_admin" "u_Admin (en_user demo_admin)" "box_ok (re_box (en_reg demo_admin))" "en_f_write demo_admin = None"
  "en_f_conn demo_admin = None"
  by (auto simp: demo_admin_def box_ok_def)

theorem create_connection_seals_password_witness:
  "\<exists>c. st_conns (wd_st (snd (apiCreateConnection demo_net (Some demo_input) demo_admin empty_world))) = [c]
     \<and> Decrypt (re_cipher (en_reg demo_admin)) (re_box (en_reg demo_admin)) (cn_PasswordEnc c) = Inr ''pw''"
proof -
  have n: "ne_nonce demo_net 0 = Inr (replicate 12 CHR ''n'')" "length (replicate 12 CHR ''n'') = nonce_size"
    by (simp_all add: demo_net_def nonce_size_def)
  have p: "ci_Password demo_input \<noteq> []" by (simp add: demo_input_def)
  have "guardConnEgress demo_net demo_admin (input_conn (en_user demo_admin) demo_input) = None" by code_simp
  with create_connection_seals_password [OF demo_admin_facts(1-3) n p demo_admin_facts(4), of empty_world]
  show ?thesis by (auto simp: empty_world_def empty_store_def demo_input_def)
qed


section \<open>Re-encryption is complete\<close>

lemma Reencrypt_keeps:
  assumes "box_ok b" and "length nonce = nonce_size" and "Decrypt E b enc = Inr pt"
  shows "\<exists>enc' changed payload. Reencrypt E (Inr nonce) b enc = Inr (enc', changed) \<and> Decrypt E b enc' = Inr pt
    \<and> Cut enc' CHR ''$'' = (b_primaryID b, payload, True) \<and> (\<not> changed \<longrightarrow> enc' = enc)"
proof -
  obtain k where k: "b_keys b (b_primaryID b) = Some k" "CHR ''$'' \<notin> set (b_primaryID b)"
    "\<And>n pt. Encrypt E (Inr n) b pt = Inr (b_primaryID b @ CHR ''$'' # b64_encode (n @ gcm_seal E k n pt))"
    using Encrypt_shape [OF assms(1)] by metis
  obtain i payload found where cut: "Cut enc CHR ''$'' = (i, payload, found)" by (metis prod_cases3)
  show ?thesis
  proof (cases "found \<and> i = b_primaryID b")
    case True
    then show ?thesis using cut assms(3) by (intro exI [of _ enc] exI [of _ False] exI [of _ payload]) (simp add: Reencrypt_def)
  next
    case False
    then show ?thesis
      using cut assms(2,3) k by (auto simp: Reencrypt_def Decrypt_prefixed Cut_found)
  qed
qed

definition reenc :: "net_env \<Rightarrow> reg_env \<Rightarrow> connection \<Rightarrow> connection" where
  "reenc net renv c =
     (if cn_PasswordEnc c = [] then c
      else case Reencrypt (re_cipher renv) (ne_nonce net (cn_ID c)) (re_box renv) (cn_PasswordEnc c) of
             Inl _ \<Rightarrow> c
           | Inr (enc, changed) \<Rightarrow> (if changed then c\<lparr>cn_PasswordEnc := enc\<rparr> else c))"

lemma reenc_id [simp]: "cn_ID (reenc net renv c) = cn_ID c"
  by (simp add: reenc_def split: sum.split prod.split)

lemma reencrypt_one_conns:
  assumes "ne_f_pw net (cn_ID c) = None" and "cn_PasswordEnc c \<noteq> []" and "reencrypt_one net renv c w = (r, f, w')"
  shows "st_conns (wd_st w') = map (\<lambda>row. if cn_ID row = cn_ID c then row\<lparr>cn_PasswordEnc := cn_PasswordEnc (reenc net renv c)\<rparr> else row)
      (st_conns (wd_st w)) \<or> st_conns (wd_st w') = st_conns (wd_st w) \<and> reenc net renv c = c"
  using assms by (auto simp: reencrypt_one_def reenc_def UpdatePasswordEnc_def split: sum.splits prod.splits if_splits)

lemma reencrypt_loop_conns:
  assumes "\<And>i. ne_f_pw net i = None" and "distinct (map cn_ID conns)" and "set cs \<subseteq> set conns" and "distinct (map cn_ID cs)"
    and "st_conns (wd_st w) = map (\<lambda>c. if cn_ID c \<in> ids then reenc net renv c else c) conns"
    and "ids \<inter> cn_ID ` set cs = {}"
  shows "st_conns (wd_st (snd (reencrypt_loop net renv cs w)))
     = map (\<lambda>c. if cn_ID c \<in> ids \<union> cn_ID ` set cs then reenc net renv c else c) conns"
  using assms(3-6)
proof (induction cs arbitrary: w ids)
  case (Cons c cs)
  have same: "row \<in> set conns \<Longrightarrow> cn_ID row = cn_ID c \<Longrightarrow> row = c" for row
    using assms(2) Cons.prems(1) by (metis distinct_map inj_onD insert_subset list.set(2))
  show ?case
  proof (cases "cn_PasswordEnc c = []")
    case True
    then have "reenc net renv c = c" by (simp add: reenc_def)
    then have "map (\<lambda>x. if cn_ID x \<in> ids \<union> cn_ID ` set cs then reenc net renv x else x) conns
        = map (\<lambda>x. if cn_ID x \<in> ids \<union> cn_ID ` set (c # cs) then reenc net renv x else x) conns"
      using same by (auto dest: same simp: image_iff; metis)
    moreover have "st_conns (wd_st (snd (reencrypt_loop net renv cs w)))
        = map (\<lambda>x. if cn_ID x \<in> ids \<union> cn_ID ` set cs then reenc net renv x else x) conns"
      using Cons.IH [of w ids] Cons.prems by auto
    ultimately show ?thesis using True by simp
  next
    case False
    obtain r f w' where one: "reencrypt_one net renv c w = (r, f, w')" by (metis prod_cases3)
    have "st_conns (wd_st w') = map (\<lambda>x. if cn_ID x \<in> insert (cn_ID c) ids then reenc net renv x else x) conns"
      using reencrypt_one_conns [OF assms(1) False one]
    proof (elim disjE conjE)
      assume "st_conns (wd_st w') = st_conns (wd_st w)" "reenc net renv c = c"
      moreover from this have "reenc net renv x = x" if "x \<in> set conns" "cn_ID x = cn_ID c" for x
        using same [OF that] by simp
      ultimately show ?thesis using Cons.prems(3) by auto
    next
      assume "st_conns (wd_st w') = map (\<lambda>row. if cn_ID row = cn_ID c
          then row\<lparr>cn_PasswordEnc := cn_PasswordEnc (reenc net renv c)\<rparr> else row) (st_conns (wd_st w))"
      moreover have "c\<lparr>cn_PasswordEnc := cn_PasswordEnc (reenc net renv c)\<rparr> = reenc net renv c"
        by (simp add: reenc_def split: sum.split prod.split)
      moreover have "cn_ID c \<notin> ids" using Cons.prems(4) by simp
      ultimately show ?thesis using Cons.prems(3) same by auto
    qed
    from Cons.IH [OF _ _ this] Cons.prems show ?thesis by (auto simp: False one split_beta)
  qed
qed simp

text \<open>
  C28: re-encryption as an admin, with a working store and good nonces, is complete and loses nothing: the
  connections keep their order and all their fields but the password column; every stored password that
  the key ring opens is afterwards sealed under the primary key and opens to the same password; an
  empty or unreadable one is left as it was.
\<close>

theorem reencrypt_complete:
  assumes "en_csrf rq" and "u_Admin (en_user rq)" and "en_f_conn rq = None" and "store_ok (wd_st w)"
    and "box_ok (re_box (en_reg rq))" and "\<And>i. ne_f_pw net i = None"
    and "\<And>i. \<exists>n. ne_nonce net i = Inr n \<and> length n = nonce_size"
  shows "\<exists>g. st_conns (wd_st (snd (apiReencrypt net rq w))) = map (\<lambda>c. c\<lparr>cn_PasswordEnc := g c\<rparr>) (st_conns (wd_st w))
    \<and> (\<forall>c pt. cn_PasswordEnc c \<noteq> [] \<longrightarrow>
         Decrypt (re_cipher (en_reg rq)) (re_box (en_reg rq)) (cn_PasswordEnc c) = Inr pt \<longrightarrow>
         Decrypt (re_cipher (en_reg rq)) (re_box (en_reg rq)) (g c) = Inr pt
         \<and> (\<exists>payload. Cut (g c) CHR ''$'' = (b_primaryID (re_box (en_reg rq)), payload, True)))
    \<and> (\<forall>c e. cn_PasswordEnc c = [] \<or> Decrypt (re_cipher (en_reg rq)) (re_box (en_reg rq)) (cn_PasswordEnc c) = Inl e
         \<longrightarrow> g c = cn_PasswordEnc c)"
proof -
  let ?E = "re_cipher (en_reg rq)" and ?b = "re_box (en_reg rq)"
  define g where "g c = cn_PasswordEnc (reenc net (en_reg rq) c)" for c
  have upd: "reenc net (en_reg rq) c = c\<lparr>cn_PasswordEnc := g c\<rparr>" for c
    by (simp add: g_def reenc_def split: sum.split prod.split)
  have "apiRequireAdmin rq = Inr (en_user rq)" using assms(1,2) by (simp add: apiRequireAdmin_def)
  then have w': "st_conns (wd_st (snd (apiReencrypt net rq w)))
      = st_conns (wd_st (snd (reencrypt_loop net (en_reg rq) (sort_key conn_key (st_conns (wd_st w))) w)))"
    by (simp add: apiReencrypt_def ListConnections_def assms(3) split_beta Let_def add_audit_def)
  have d: "distinct (map cn_ID (st_conns (wd_st w)))" using assms(4) by (simp add: store_ok_def)
  then have ds: "distinct (map cn_ID (sort_key conn_key (st_conns (wd_st w))))"
    by (simp add: distinct_map)
  have "st_conns (wd_st (snd (apiReencrypt net rq w))) = map (reenc net (en_reg rq)) (st_conns (wd_st w))"
    unfolding w' using reencrypt_loop_conns [OF assms(6) d _ ds, of w "{}" "en_reg rq"] by auto
  then have 1: "st_conns (wd_st (snd (apiReencrypt net rq w))) = map (\<lambda>c. c\<lparr>cn_PasswordEnc := g c\<rparr>) (st_conns (wd_st w))"
    by (simp add: upd)
  have 2: "Decrypt ?E ?b (g c) = Inr pt \<and> (\<exists>payload. Cut (g c) CHR ''$'' = (b_primaryID ?b, payload, True))"
    if "cn_PasswordEnc c \<noteq> []" "Decrypt ?E ?b (cn_PasswordEnc c) = Inr pt" for c pt
  proof -
    obtain n where n: "ne_nonce net (cn_ID c) = Inr n" "length n = nonce_size" using assms(7) by blast
    from Reencrypt_keeps [OF assms(5) n(2) that(2)] that(1) n(1) show ?thesis
      by (auto simp: g_def reenc_def split: if_splits)
  qed
  have 3: "g c = cn_PasswordEnc c" if "cn_PasswordEnc c = [] \<or> Decrypt ?E ?b (cn_PasswordEnc c) = Inl e" for c e
    using that by (auto simp: g_def reenc_def Reencrypt_def split: sum.splits prod.splits if_splits)
  from 1 2 3 show ?thesis by blast
qed

definition demo_enc :: string where
  "demo_enc = (case box_Encrypt demo_net demo_admin 0 ''pw'' of Inl _ \<Rightarrow> [] | Inr enc \<Rightarrow> enc)"

lemma demo_enc_opens:
  "demo_enc \<noteq> [] \<and> Decrypt (re_cipher (en_reg demo_admin)) (re_box (en_reg demo_admin)) demo_enc = Inr ''pw''"
proof -
  obtain k where k: "b_keys (re_box (en_reg demo_admin)) (b_primaryID (re_box (en_reg demo_admin))) = Some k"
    "CHR ''$'' \<notin> set (b_primaryID (re_box (en_reg demo_admin)))"
    "\<And>n pt. Encrypt (re_cipher (en_reg demo_admin)) (Inr n) (re_box (en_reg demo_admin)) pt = Inr (b_primaryID (re_box (en_reg demo_admin))
       @ CHR ''$'' # b64_encode (n @ gcm_seal (re_cipher (en_reg demo_admin)) k n pt))"
    using Encrypt_shape [OF demo_admin_facts(3)] by metis
  show ?thesis
    unfolding demo_enc_def box_Encrypt_def
    using Decrypt_prefixed [OF k(2,1)] by (simp add: k(3) demo_net_def nonce_size_def)
qed

definition sealed_world :: world where
  "sealed_world = empty_world\<lparr>wd_st := (empty_store ''sqlite'')\<lparr>st_next_conn := 2,
     st_conns := [(input_conn no_user demo_input)\<lparr>cn_ID := 1, cn_PasswordEnc := demo_enc\<rparr>]\<rparr>\<rparr>"

theorem reencrypt_complete_witness:
  "\<exists>c. st_conns (wd_st (snd (apiReencrypt demo_net demo_admin sealed_world))) = [c]
     \<and> Decrypt (re_cipher (en_reg demo_admin)) (re_box (en_reg demo_admin)) (cn_PasswordEnc c) = Inr ''pw''"
proof -
  have ok: "store_ok (wd_st sealed_world)" by (simp add: sealed_world_def empty_store_def store_ok_def)
  have pw: "\<And>i. ne_f_pw demo_net i = None" by (simp add: demo_net_def)
  have n: "\<And>i. \<exists>n. ne_nonce demo_net i = Inr n \<and> length n = nonce_size" by (simp add: demo_net_def nonce_size_def)
  from reencrypt_complete [OF demo_admin_facts(1,2,5) ok demo_admin_facts(3) pw n] show ?thesis
    using demo_enc_opens by (auto simp: sealed_world_def)
qed

end
