(* ===== verification/WebKv.thy ===== *)
theory WebKv
  imports WebCore
begin

text \<open>
  The Redis and MongoDB endpoints (\<^verbatim>\<open>api_redis.go\<close>, \<^verbatim>\<open>api_mongo.go\<close>). Like the handlers of \<open>WebSql\<close>, but a console
  also returns the list of commands that it ran on the target.
\<close>

section \<open>Redis\<close>

definition apiRedisKeys ::
    "redis_client \<Rightarrow> string \<Rightarrow> string \<Rightarrow> web_env \<Rightarrow> world \<Rightarrow> response \<times> world" where
  "apiRedisKeys cl cursor match rq w =
     (case connFor rq w of
        Inl _ \<Rightarrow> (apiErr 404 ''connection not found'', w)
      | Inr c \<Rightarrow>
          (case pool_for rq RedisF c w of
             (Inl e, w') \<Rightarrow> (apiErr 502 (''connect: '' @ e), w')
           | (Inr _, w') \<Rightarrow>
               (case Scan cl (orStar match) (uint_scan 0 cursor) 100 of
                  Inl e \<Rightarrow> (apiErr 400 e, w')
                | Inr page \<Rightarrow>
                    (writeJSON 200 [(''keys'', FKeyInfos (kp_Keys page)), (''cursor'', FInt (kp_Cursor page))], w'))))"

definition apiRedisValue :: "redis_client \<Rightarrow> string \<Rightarrow> web_env \<Rightarrow> world \<Rightarrow> response \<times> world" where
  "apiRedisValue cl key rq w =
     (case connFor rq w of
        Inl _ \<Rightarrow> (apiErr 404 ''connection not found'', w)
      | Inr c \<Rightarrow>
          (case pool_for rq RedisF c w of
             (Inl e, w') \<Rightarrow> (apiErr 502 (''connect: '' @ e), w')
           | (Inr _, w') \<Rightarrow>
               (case redis_Get_value cl key of
                  Inl e \<Rightarrow> (apiErr 400 e, w')
                | Inr v \<Rightarrow> (writeJSON 200 [(''value'', FValue v)], w'))))"

definition console_error :: "string \<Rightarrow> response" where
  "console_error msg = writeJSON 200 [(''error'', FStr msg)]"

definition quoted_cmd :: "string \<Rightarrow> string" where
  "quoted_cmd cmd = [SQ] @ cmd @ [SQ]"

definition apiRedisCmd ::
    "(string list \<Rightarrow> reply result) \<Rightarrow> (string \<times> bool) option \<Rightarrow> web_env \<Rightarrow> world \<Rightarrow> response \<times> world \<times> string list list" where
  "apiRedisCmd run body rq w =
     (if \<not> en_csrf rq then (apiErr 403 ''bad csrf'', w, [])
      else case connFor rq w of
        Inl _ \<Rightarrow> (apiErr 404 ''connection not found'', w, [])
      | Inr c \<Rightarrow>
      (case body of
         None \<Rightarrow> (apiErr 400 ''bad json'', w, [])
       | Some (line, confirm) \<Rightarrow>
           (let args = ParseArgs line
            in if args = [] then (console_error ''empty command'', w, [])
               else
                 (let u = en_user rq;
                      readOnly = (cn_ReadOnly c \<or> \<not> ca_Write (req_access rq w c));
                      cmd = ToLower (hd args)
                  in if readOnly \<and> cmd \<notin> set redisReadAllow
                       then (console_error (''read-only: command '' @ quoted_cmd cmd @ '' is not permitted''), w, [])
                     else if redis_NeedsConfirm args \<and> \<not> u_Admin u
                       then (console_error (''admin required for '' @ quoted_cmd cmd), w, [])
                     else if redis_NeedsConfirm args \<and> \<not> confirm
                       then (writeJSON 200 [(''needConfirm'', FBool True), (''cmd'', FStr line)], w, [])
                     else case pool_for rq RedisF c w of
                            (Inl e, w') \<Rightarrow> (console_error e, w', [])
                          | (Inr _, w') \<Rightarrow>
                              (let res = Command run args;
                                   w' = add_audit rq (new_audit (u_Email u) (cn_ID c) ''redis_cmd'' (auditDetail line)
                                          (case res of Inl _ \<Rightarrow> False | Inr _ \<Rightarrow> True)) w'
                               in ((case res of Inl e \<Rightarrow> console_error e | Inr out \<Rightarrow> writeJSON 200 [(''out'', FStr out)]),
                                   w', [args]))))))"

section \<open>MongoDB\<close>

definition server_js_msg :: string where
  "server_js_msg = ''server-side JavaScript ($where/$function/$accumulator) requires admin''"

record docs_query =
  dq_db :: string
  dq_coll :: string
  dq_filter :: string
  dq_sort :: string
  dq_projection :: string
  dq_size :: string
  dq_page :: string

type_synonym 'v mongo_find =
  "'v doc \<Rightarrow> 'v doc option \<Rightarrow> 'v doc option \<Rightarrow> int \<Rightarrow> int \<Rightarrow> (string list \<times> go_error option) result"

definition apiMongoDocs ::
    "(string \<Rightarrow> json option) \<Rightarrow> (string \<Rightarrow> 'v doc result) \<Rightarrow> 'v mongo_find \<Rightarrow> docs_query \<Rightarrow> web_env \<Rightarrow> world \<Rightarrow> response \<times> world" where
  "apiMongoDocs unmarshal parse find_docs q rq w =
     (case connFor rq w of
        Inl _ \<Rightarrow> (apiErr 404 ''connection not found'', w)
      | Inr c \<Rightarrow>
          (if dq_db q = [] \<or> dq_coll q = [] then (apiErr 400 ''db and coll are required'', w)
           else
             (let size = Atoi_lax (dq_size q);
                  size = (if size \<le> 0 then 50 else size);
                  pageNum = Atoi_lax (dq_page q);
                  pageNum = (if pageNum < 0 then 0 else pageNum)
              in if \<not> u_Admin (en_user rq) \<and> UsesServerJS unmarshal [dq_filter q, dq_sort q, dq_projection q]
                 then (apiErr 403 server_js_msg, w)
                 else case pool_for rq MongoF c w of
                        (Inl e, w') \<Rightarrow> (apiErr 502 (''connect: '' @ e), w')
                      | (Inr _, w') \<Rightarrow>
                          (case Find parse find_docs (dq_filter q) (dq_sort q) (dq_projection q) size (mul_int64 pageNum size) of
                             Inl e \<Rightarrow> (apiErr 400 e, w')
                           | Inr page \<Rightarrow>
                               (writeJSON 200 [(''docs'', FStrs (dp_Docs page)), (''hasMore'', FBool (dp_HasMore page)),
                                  (''page'', FInt pageNum)], w')))))"

definition apiMongoIndexes ::
    "(index_doc list \<times> go_error option) result \<Rightarrow> string \<Rightarrow> string \<Rightarrow> web_env \<Rightarrow> world \<Rightarrow> response \<times> world" where
  "apiMongoIndexes answer db coll rq w =
     (case connFor rq w of
        Inl _ \<Rightarrow> (apiErr 404 ''connection not found'', w)
      | Inr c \<Rightarrow>
          (if db = [] \<or> coll = [] then (apiErr 400 ''db and coll are required'', w)
           else case pool_for rq MongoF c w of
                  (Inl e, w') \<Rightarrow> (apiErr 502 (''connect: '' @ e), w')
                | (Inr _, w') \<Rightarrow>
                    (case mongo_Indexes answer of
                       Inl e \<Rightarrow> (apiErr 400 e, w')
                     | Inr ix \<Rightarrow> (writeJSON 200 [(''indexes'', FMongoIndexes ix)], w'))))"

record mongo_in =
  mo_DB :: string
  mo_Cmd :: string
  mo_Confirm :: bool

definition apiMongoCmd ::
    "(string \<Rightarrow> 'v doc result) \<Rightarrow> (string \<Rightarrow> 'v doc \<Rightarrow> string result) \<Rightarrow> mongo_in option \<Rightarrow> web_env \<Rightarrow> world
     \<Rightarrow> response \<times> world \<times> (string \<times> string) list" where
  "apiMongoCmd parse run body rq w =
     (if \<not> en_csrf rq then (apiErr 403 ''bad csrf'', w, [])
      else case connFor rq w of
        Inl _ \<Rightarrow> (apiErr 404 ''connection not found'', w, [])
      | Inr c \<Rightarrow>
      (case body of
         None \<Rightarrow> (apiErr 400 ''bad json'', w, [])
       | Some i \<Rightarrow>
           (if TrimSpace (mo_DB i) = [] then (console_error ''a database is required'', w, [])
            else case CommandName parse (mo_Cmd i) of
                   Inl e \<Rightarrow> (console_error e, w, [])
                 | Inr name \<Rightarrow>
                     (let u = en_user rq;
                          readOnly = (cn_ReadOnly c \<or> \<not> ca_Write (req_access rq w c))
                      in if readOnly \<and> \<not> ReadAllowed name
                           then (console_error (''read-only: command '' @ quoted_cmd name @ '' is not permitted''), w, [])
                         else if mongo_NeedsConfirm name \<and> \<not> u_Admin u
                           then (console_error (''admin required for '' @ quoted_cmd name), w, [])
                         else if mongo_NeedsConfirm name \<and> \<not> mo_Confirm i
                           then (writeJSON 200 [(''needConfirm'', FBool True), (''cmd'', FStr (mo_Cmd i))], w, [])
                         else case pool_for rq MongoF c w of
                                (Inl e, w') \<Rightarrow> (console_error e, w', [])
                              | (Inr _, w') \<Rightarrow>
                                  (let res = RunCommand parse run (mo_DB i) (mo_Cmd i);
                                       w' = add_audit rq (new_audit (u_Email u) (cn_ID c) ''mongo_cmd''
                                              (auditDetail (mo_DB i @ '': '' @ mo_Cmd i))
                                              (case res of Inl _ \<Rightarrow> False | Inr _ \<Rightarrow> True)) w'
                                   in ((case res of Inl e \<Rightarrow> console_error e | Inr out \<Rightarrow> writeJSON 200 [(''out'', FStr out)]),
                                       w', [(mo_DB i, mo_Cmd i)]))))))"

section \<open>Properties\<close>

text \<open>
  C29: the Redis console runs a command only after the CSRF check and only on a connection that the
  user may read; on a read-only connection, or for a user without write access to it, only commands of
  the read list run; a dangerous command runs only for an admin who confirmed it; and what runs is the
  one command whose arguments \<^verbatim>\<open>ParseArgs\<close> makes of the command line of the request, with one new audit row
  for the user at the end.
\<close>

theorem redis_console_policy:
  "case apiRedisCmd run body rq w of (resp, w', cmds) \<Rightarrow>
     cmds = [] \<or>
     (\<exists>c line confirm. body = Some (line, confirm) \<and> cmds = [ParseArgs line] \<and> ParseArgs line \<noteq> [] \<and> en_csrf rq \<and> connFor rq w = Inr c
        \<and> (ToLower (hd (ParseArgs line)) \<in> set redisReadAllow \<or> ca_Write (req_access rq w c) \<and> \<not> cn_ReadOnly c)
        \<and> (\<not> redis_NeedsConfirm (ParseArgs line) \<or> u_Admin (en_user rq) \<and> confirm)
        \<and> (\<exists>pre a. st_sink (wd_st w') = st_sink (wd_st w) @ pre @ [a] \<and> a_User a = u_Email (en_user rq)
             \<and> a_ConnID a = cn_ID c \<and> a_Action a = ''redis_cmd''))"
proof (cases "en_csrf rq \<and> body \<noteq> None")
  case False
  then show ?thesis by (auto simp: apiRedisCmd_def split: sum.split option.split)
next
  case True
  then obtain line confirm where b: "body = Some (line, confirm)" by auto
  show ?thesis
  proof (cases "connFor rq w")
    case (Inl e)
    with True show ?thesis by (simp add: apiRedisCmd_def)
  next
    case (Inr c)
    obtain p w1 where pool: "pool_for rq RedisF c w = (p, w1)" by force
    have "\<exists>pre. st_sink (wd_st w1) = st_sink (wd_st w) @ pre"
      using pool_for_quiet [OF pool] by (auto simp: quiet_step_def)
    then obtain pre where pre: "st_sink (wd_st w1) = st_sink (wd_st w) @ pre" by blast
    show ?thesis
      using True Inr pre
      by (cases p) (auto simp: apiRedisCmd_def b pool Let_def add_audit_def new_audit_def split: if_splits)
  qed
qed

definition demo_set :: string where "demo_set = '' set k v ''"

theorem redis_console_policy_witness:
  "snd (snd (apiRedisCmd (\<lambda>_. Inr RNil) (Some (demo_set, False)) demo_rq demo_world)) \<noteq> []
   \<and> redis_NeedsConfirm (ParseArgs demo_set) = False"
proof -
  have sent: "snd (snd (apiRedisCmd (\<lambda>_. Inr RNil) (Some (demo_set, False)) demo_rq demo_world)) \<noteq> []"
  proof -
    have "en_csrf demo_rq" "ca_Write (req_access demo_rq demo_world demo_pg)" "\<not> cn_ReadOnly demo_pg"
      "ParseArgs demo_set \<noteq> []" "\<not> redis_NeedsConfirm (ParseArgs demo_set)" by code_simp+
    moreover have "fst (pool_for demo_rq RedisF demo_pg demo_world) = Inr 0" by code_simp
    then obtain w' where "pool_for demo_rq RedisF demo_pg demo_world = (Inr 0, w')" by (metis prod.collapse)
    ultimately show ?thesis by (simp add: apiRedisCmd_def demo_connFor Let_def)
  qed
  have "snd (snd (apiRedisCmd (\<lambda>_. Inr RNil) (Some (demo_set, False)) demo_rq demo_world)) = []
      \<or> redis_NeedsConfirm (ParseArgs demo_set) = False"
    using redis_console_policy [where run = "\<lambda>_. Inr RNil" and body = "Some (demo_set, False)" and rq = demo_rq and w = demo_world]
    unfolding split_beta by (elim disjE exE conjE) simp_all
  with sent show ?thesis by blast
qed

lemma redis_lists_disjoint: "set redisReadAllow \<inter> set redis_dangerous = {}"
  by code_simp

text \<open>
  C30: the MongoDB console has the same policy: a command document runs only after the CSRF check, on a
  connection the user may read, under a non-blank database name; without write access its command
  name is on the read list; a destructive one runs only for an admin who confirmed it; and what runs
  is the document of the request, followed by one audit row with the redacted text.
\<close>

theorem mongo_console_policy:
  "case apiMongoCmd parse run body rq w of (resp, w', cmds) \<Rightarrow>
     cmds = [] \<or>
     (\<exists>c i name. body = Some i \<and> cmds = [(mo_DB i, mo_Cmd i)] \<and> TrimSpace (mo_DB i) \<noteq> [] \<and> en_csrf rq
        \<and> connFor rq w = Inr c \<and> CommandName parse (mo_Cmd i) = Inr name
        \<and> (ReadAllowed name \<or> ca_Write (req_access rq w c) \<and> \<not> cn_ReadOnly c)
        \<and> (\<not> mongo_NeedsConfirm name \<or> u_Admin (en_user rq) \<and> mo_Confirm i)
        \<and> (\<exists>pre a. st_sink (wd_st w') = st_sink (wd_st w) @ pre @ [a] \<and> a_User a = u_Email (en_user rq)
             \<and> a_ConnID a = cn_ID c \<and> a_Action a = ''mongo_cmd''
             \<and> a_Detail a = auditDetail (mo_DB i @ '': '' @ mo_Cmd i)))"
proof (cases "en_csrf rq \<and> body \<noteq> None")
  case False
  then show ?thesis by (auto simp: apiMongoCmd_def split: sum.split option.split)
next
  case True
  then obtain i where b: "body = Some i" by auto
  show ?thesis
  proof (cases "connFor rq w")
    case (Inl e)
    with True show ?thesis by (simp add: apiMongoCmd_def)
  next
    case (Inr c)
    obtain p w1 where pool: "pool_for rq MongoF c w = (p, w1)" by force
    obtain pre where pre: "st_sink (wd_st w1) = st_sink (wd_st w) @ pre"
      using pool_for_quiet [OF pool] by (auto simp: quiet_step_def)
    show ?thesis
      using True Inr pre
      by (cases p; cases "CommandName parse (mo_Cmd i)")
         (auto simp: apiMongoCmd_def b pool Let_def add_audit_def new_audit_def split: if_splits)
  qed
qed

definition demo_insert :: mongo_in where
  "demo_insert = \<lparr>mo_DB = ''app'', mo_Cmd = ''{insert: 1}'', mo_Confirm = False\<rparr>"

definition demo_parse :: "string \<Rightarrow> unit doc result" where
  "demo_parse s = Inr [(''insert'', ())]"

theorem mongo_console_policy_witness:
  "snd (snd (apiMongoCmd demo_parse (\<lambda>_ _. Inr []) (Some demo_insert) demo_rq demo_world)) \<noteq> []
   \<and> TrimSpace (mo_DB demo_insert) \<noteq> [] \<and> (\<exists>name. CommandName demo_parse (mo_Cmd demo_insert) = Inr name)"
proof -
  have sent: "snd (snd (apiMongoCmd demo_parse (\<lambda>_ _. Inr []) (Some demo_insert) demo_rq demo_world)) \<noteq> []"
  proof -
    have "en_csrf demo_rq" "ca_Write (req_access demo_rq demo_world demo_pg)" "\<not> cn_ReadOnly demo_pg"
      "TrimSpace (mo_DB demo_insert) \<noteq> []" "CommandName demo_parse (mo_Cmd demo_insert) = Inr ''insert''"
      "\<not> mongo_NeedsConfirm ''insert''" by code_simp+
    moreover have "fst (pool_for demo_rq MongoF demo_pg demo_world) = Inr 0" by code_simp
    then obtain w' where "pool_for demo_rq MongoF demo_pg demo_world = (Inr 0, w')" by (metis prod.collapse)
    ultimately show ?thesis by (simp add: apiMongoCmd_def demo_connFor Let_def)
  qed
  have "snd (snd (apiMongoCmd demo_parse (\<lambda>_ _. Inr []) (Some demo_insert) demo_rq demo_world)) = []
      \<or> TrimSpace (mo_DB demo_insert) \<noteq> [] \<and> (\<exists>name. CommandName demo_parse (mo_Cmd demo_insert) = Inr name)"
    using mongo_console_policy [where parse = demo_parse and run = "\<lambda>_ _. Inr []" and body = "Some demo_insert" and rq = demo_rq and w = demo_world]
    unfolding split_beta by (elim disjE exE conjE) simp_all
  with sent show ?thesis by blast
qed

end
