(* ===== verification/Server.thy ===== *)
theory Server
  imports Observ WebSql WebConn WebKv
begin

text \<open>
  The router (\<^verbatim>\<open>internal/web/server.go\<close>, \<^verbatim>\<open>mountAPI\<close> in \<^verbatim>\<open>api.go\<close>) with its middleware stack, and the running
  process as a state machine: sessions, the two rate limiters, the metadata store with the pool registry
  and the exchanges with the targets, and the metrics. The router library picks the endpoint; an
  endpoint is a constructor with the arguments that the handler reads from path, query and body.
\<close>

section \<open>Endpoints\<close>

datatype api_call =
    EpMe
  | EpListConnections
  | EpTestConnection "conn_input option"
  | EpGetConnection
  | EpListGrants
  | EpManage manage_request
  | EpSql sql_request
  | EpRedisKeys string string
  | EpRedisValue string
  | EpRedisCmd "(string \<times> bool) option"
  | EpMongoDocs docs_query
  | EpMongoIndexes string string
  | EpMongoCmd "mongo_in option"
  | EpAudit
  | EpAuditExport string
  | EpUnknown

datatype endpoint =
    Healthz
  | Readyz
  | Metrics
  | AuthLogin
  | AuthCallback
  | AuthLogout
  | Root
  | Export grid_query string
  | Api api_call
  | App string
  | NoRoute

text \<open>\<open>APanic\<close> is a handler that panics; the recovery middleware turns it into a plain 500.\<close>

datatype answer =
    AJson response
  | AExport export_response
  | ATrail audit_export
  | ASpa spa_answer
  | AText int string
  | ARedirect string
  | AMetrics
  | APanic

datatype kv_cmd = RedisRun "string list" | MongoRun "string \<times> string"

text \<open>The outside world of the handlers, as the other theories take it in their arguments.\<close>

record 'v server_env =
  sx_base :: web_env
  sx_net :: net_env
  sx_ig :: introspection
  sx_redis :: redis_client
  sx_redis_run :: "string list \<Rightarrow> reply result"
  sx_unmarshal :: "string \<Rightarrow> json option"
  sx_mongo_parse :: "string \<Rightarrow> 'v doc result"
  sx_mongo_find :: "'v mongo_find"
  sx_mongo_indexes :: "(index_doc list \<times> go_error option) result"
  sx_mongo_run :: "string \<Rightarrow> 'v doc \<Rightarrow> string result"
  sx_stat :: "string \<Rightarrow> bool option"
  sx_ping :: "go_error option"
  sx_origin :: string

record http_req =
  hq_endpoint :: endpoint
  hq_method :: string
  hq_path :: string
  hq_pattern :: string
  hq_id :: string
  hq_remote :: string
  hq_auth :: auth_req
  hq_now :: int
  hq_rnd1 :: "string option"
  hq_rnd2 :: "string option"
  hq_verifier :: string
  hq_bytes :: int
  hq_millis :: int
  hq_reqid :: string

record 'st server =
  sv_auth :: "'st auth_state"
  sv_world :: world
  sv_authLimit :: rate_limiter
  sv_authedLimit :: rate_limiter
  sv_metrics :: metrics
  sv_kv :: "kv_cmd list"

section \<open>The JSON API\<close>

fun json :: "response \<times> world \<Rightarrow> answer \<times> world \<times> kv_cmd list" where
  "json (r, w) = (AJson r, w, [])"

fun mountAPI :: "'v server_env \<Rightarrow> api_call \<Rightarrow> web_env \<Rightarrow> world \<Rightarrow> answer \<times> world \<times> kv_cmd list" where
  "mountAPI x EpMe rq w = json (apiMe rq, w)"
| "mountAPI x EpListConnections rq w = json (apiListConnections rq w)"
| "mountAPI x (EpTestConnection b) rq w = json (apiTestConnection (sx_net x) b rq, w)"
| "mountAPI x EpGetConnection rq w = json (apiGetConnection rq w)"
| "mountAPI x EpListGrants rq w = json (apiListGrants rq w)"
| "mountAPI x (EpManage r) rq w = json (manage (sx_net x) r rq w)"
| "mountAPI x (EpSql r) rq w = json (serve (sx_ig x) r rq w)"
| "mountAPI x (EpRedisKeys c m) rq w = json (apiRedisKeys (sx_redis x) c m rq w)"
| "mountAPI x (EpRedisValue k) rq w = json (apiRedisValue (sx_redis x) k rq w)"
| "mountAPI x (EpRedisCmd b) rq w =
     (case apiRedisCmd (sx_redis_run x) b rq w of (r, w', cmds) \<Rightarrow> (AJson r, w', map RedisRun cmds))"
| "mountAPI x (EpMongoDocs q) rq w = json (apiMongoDocs (sx_unmarshal x) (sx_mongo_parse x) (sx_mongo_find x) q rq w)"
| "mountAPI x (EpMongoIndexes d c) rq w = json (apiMongoIndexes (sx_mongo_indexes x) d c rq w)"
| "mountAPI x (EpMongoCmd b) rq w =
     (case apiMongoCmd (sx_mongo_parse x) (sx_mongo_run x) b rq w of (r, w', cmds) \<Rightarrow> (AJson r, w', map MongoRun cmds))"
| "mountAPI x EpAudit rq w = json (apiAudit rq w)"
| "mountAPI x (EpAuditExport f) rq w = (ATrail (apiAuditExport f rq w), w, [])"
| "mountAPI x EpUnknown rq w = (AText 404 ''404 page not found'', w, [])"

section \<open>Router\<close>

text \<open>What \<^verbatim>\<open>main\<close> registers with \<^verbatim>\<open>SetAudit\<close>: login events become audit rows.\<close>

definition audit_logins :: "web_env \<Rightarrow> 'st auth_state \<Rightarrow> 'st auth_state \<Rightarrow> world \<Rightarrow> world" where
  "audit_logins rq a a' w =
     foldl (\<lambda>w (action, detail, success). add_audit rq (new_audit detail 0 action detail success) w) w
       (drop (length (au_audit a)) (au_audit a'))"

fun auth_answer :: "auth_resp \<Rightarrow> answer" where
  "auth_answer (Redirect url) = ARedirect url"
| "auth_answer (Forbidden msg) = AText 403 msg"
| "auth_answer (Http_error status msg) = AText (int status) msg"
| "auth_answer (Next u) = AText 200 []"
| "auth_answer Panicked = APanic"

text \<open>The environment of a request behind the middleware: its user, CSRF check, path parameter and time.\<close>

definition base_env :: "'v server_env \<Rightarrow> http_req \<Rightarrow> web_env" where
  "base_env x q = (sx_base x)\<lparr>en_id := hq_id q, en_now := hq_now q\<rparr>"

definition user_env :: "'st sstore \<Rightarrow> 'v server_env \<Rightarrow> http_req \<Rightarrow> user \<Rightarrow> 'st \<Rightarrow> web_env" where
  "user_env S x q u st = (base_env x q)\<lparr>en_user := u, en_csrf := CheckCSRF S (hq_now q) st (hq_auth q)\<rparr>"

definition auth_step ::
    "'v server_env \<Rightarrow> http_req \<Rightarrow> auth_resp \<times> cookies \<times> 'st auth_state \<Rightarrow> 'st server \<Rightarrow> answer \<times> cookies \<times> 'st server" where
  "auth_step x q r sv =
     (case r of (resp, ck, a') \<Rightarrow>
        (auth_answer resp, ck,
         sv\<lparr>sv_auth := a', sv_world := audit_logins (base_env x q) (sv_auth sv) a' (sv_world sv)\<rparr>))"

definition ip_limited ::
    "http_req \<Rightarrow> 'st server \<Rightarrow> ('st server \<Rightarrow> answer \<times> cookies \<times> 'st server) \<Rightarrow> answer \<times> cookies \<times> 'st server" where
  "ip_limited q sv next_handler =
     (case middlewareBy (hq_now q) (clientIP (hq_remote q)) (sv_authLimit sv) of
        (Too_many_requests, rl) \<Rightarrow> (AText 429 ''too many requests'', [], sv\<lparr>sv_authLimit := rl\<rparr>)
      | (Next_handler, rl) \<Rightarrow> next_handler (sv\<lparr>sv_authLimit := rl\<rparr>))"

definition authed ::
    "'st sstore \<Rightarrow> 'v server_env \<Rightarrow> http_req \<Rightarrow> (web_env \<Rightarrow> world \<Rightarrow> answer \<times> world \<times> kv_cmd list) \<Rightarrow> 'st server
     \<Rightarrow> answer \<times> cookies \<times> 'st server" where
  "authed S x q handler sv =
     (case Middleware S (en_cfg (sx_base x)) (hq_now q) (hq_rnd1 q) (hq_rnd2 q) (hq_auth q) (sv_auth sv) of
        (Next u, ck, a') \<Rightarrow>
          (case middlewareBy (hq_now q) (sessionKey (Some u) (clientIP (hq_remote q))) (sv_authedLimit sv) of
             (Too_many_requests, rl) \<Rightarrow>
               (AText 429 ''too many requests'', ck, sv\<lparr>sv_auth := a', sv_authedLimit := rl\<rparr>)
           | (Next_handler, rl) \<Rightarrow>
               (case handler (user_env S x q u (au_sessions a')) (sv_world sv) of
                  (ans, w', cmds) \<Rightarrow>
                    (ans, ck, sv\<lparr>sv_auth := a', sv_authedLimit := rl, sv_world := w', sv_kv := sv_kv sv @ cmds\<rparr>)))
      | (resp, ck, a') \<Rightarrow> (auth_answer resp, ck, sv\<lparr>sv_auth := a'\<rparr>))"

fun authed_handler :: "'v server_env \<Rightarrow> endpoint \<Rightarrow> web_env \<Rightarrow> world \<Rightarrow> answer \<times> world \<times> kv_cmd list" where
  "authed_handler x (Export g format) rq w = (case exportTable g format rq w of (r, w') \<Rightarrow> (AExport r, w', []))"
| "authed_handler x (Api call) rq w = mountAPI x call rq w"
| "authed_handler x (App path) rq w = (ASpa (spaHandler (sx_stat x) path), w, [])"
| "authed_handler x _ rq w = (ARedirect ''/app'', w, [])"

definition Router :: "'st sstore \<Rightarrow> idp \<Rightarrow> 'v server_env \<Rightarrow> http_req \<Rightarrow> 'st server \<Rightarrow> answer \<times> cookies \<times> 'st server" where
  "Router S p x q sv =
     (let cfg = en_cfg (sx_base x); now = hq_now q; r = hq_auth q
      in case hq_endpoint q of
           Healthz \<Rightarrow> (AText 200 ''ok'', [], sv)
         | Readyz \<Rightarrow> (case readyz (sx_ping x) (sv_metrics sv) of (resp, m) \<Rightarrow> (AJson resp, [], sv\<lparr>sv_metrics := m\<rparr>))
         | Metrics \<Rightarrow>
             ((if metricsHandler cfg (rq_header r ''Authorization'') then AMetrics else AText 401 ''unauthorized''), [], sv)
         | AuthLogin \<Rightarrow>
             ip_limited q sv (\<lambda>sv. auth_step x q (Login S cfg p now (hq_rnd1 q) (hq_rnd2 q) (hq_verifier q) (sv_auth sv)) sv)
         | AuthCallback \<Rightarrow>
             ip_limited q sv (\<lambda>sv. auth_step x q (Callback S cfg p now (hq_rnd1 q) (hq_rnd2 q) r (sv_auth sv)) sv)
         | AuthLogout \<Rightarrow> auth_step x q (Logout S cfg p now r (sv_auth sv)) sv
         | NoRoute \<Rightarrow> (AText 404 ''404 page not found'', [], sv)
         | e \<Rightarrow> authed S x q (authed_handler x e) sv)"

section \<open>The whole stack\<close>

fun status_of :: "answer \<Rightarrow> int" where
  "status_of (AJson r) = fst r"
| "status_of (AExport (ExError s _)) = s"
| "status_of (ATrail (AeError s _)) = s"
| "status_of (AText s _) = s"
| "status_of (ARedirect _) = 302"
| "status_of APanic = 500"
| "status_of _ = 200"

text \<open>
  The audit sink feeds log and metrics during the request; \<^verbatim>\<open>observe\<close> adds its line when the handler has
  returned, so not after a panic. It stands outside the middleware that puts the user into the context,
  so the request that it holds never carries one.
\<close>

definition observed_of :: "http_req \<Rightarrow> answer \<Rightarrow> observed" where
  "observed_of q ans =
     \<lparr>ob_method = hq_method q, ob_path = hq_path q, ob_pattern = hq_pattern q, ob_status = status_of ans,
      ob_bytes = hq_bytes q, ob_millis = hq_millis q, ob_remote = hq_remote q, ob_reqid = hq_reqid q, ob_ctx_user = None\<rparr>"

definition ServeHTTP ::
    "'st sstore \<Rightarrow> idp \<Rightarrow> 'v server_env \<Rightarrow> http_req \<Rightarrow> 'st server
     \<Rightarrow> (answer \<times> (string \<times> string) list \<times> cookies) \<times> 'st server" where
  "ServeHTTP S p x q sv =
     (case Router S p x q sv of (ans, ck, sv') \<Rightarrow>
       (let rows = drop (length (st_sink (wd_st (sv_world sv)))) (st_sink (wd_st (sv_world sv')));
            m = foldl (\<lambda>m a. ObserveAudit a m) (sv_metrics sv') rows;
            m = (if ans = APanic then m else observe (observed_of q ans) m)
        in ((ans, securityHeaders (en_cfg (sx_base x)) (sx_origin x), ck), sv'\<lparr>sv_metrics := m\<rparr>)))"

section \<open>Effects of the handlers\<close>

text \<open>A calm handler sends nothing to a target and is tame.\<close>

definition calm :: "web_env \<Rightarrow> world \<Rightarrow> world \<Rightarrow> bool" where
  "calm rq w w' \<longleftrightarrow> wd_sent w' = wd_sent w \<and> tame rq w w'"

lemma calm_refl [simp]: "calm rq w w" by (simp add: calm_def)

lemma quiet_calm: "quiet_step rq c w w' \<Longrightarrow> calm rq w w'"
  using quiet_tame by (auto simp: calm_def quiet_step_def)

lemma calm_add_audit: "calm rq w w' \<Longrightarrow> calm rq w (add_audit rq a w')"
  by (simp add: calm_def tame_add_audit)

lemma open_engine_calm: "calm rq w (snd (open_engine rq c w))"
  using open_engine_quiet quiet_calm by (metis prod.collapse)

lemma pool_for_calm: "calm rq w (snd (pool_for rq fam c w))"
  using pool_for_quiet quiet_calm by (metis prod.collapse)

lemma opened_calm:
  "(\<And>r w'. snd (F r w') = w') \<Longrightarrow> calm rq w (snd (case open_engine rq c w of (r, w') \<Rightarrow> F r w'))"
  "(\<And>r w'. snd (G r w') = w') \<Longrightarrow> calm rq w (snd (case pool_for rq fam c w of (r, w') \<Rightarrow> G r w'))"
  using open_engine_calm pool_for_calm by (simp_all add: split_beta)

lemma gate_calm:
  assumes "\<And>c. calm rq w (snd (f c))"
  shows "calm rq w (snd (case connFor rq w of Inl e \<Rightarrow> (apiErr 404 m, w) | Inr c \<Rightarrow> f c))"
  using assms by (simp split: sum.split)

lemma kv_calm:
  "calm rq w (snd (apiRedisKeys cl cur m rq w))" "calm rq w (snd (apiRedisValue cl key rq w))"
  "calm rq w (snd (apiMongoIndexes ans db coll rq w))" "calm rq w (snd (apiMongoDocs um ps fd q rq w))"
  unfolding apiRedisKeys_def apiRedisValue_def apiMongoIndexes_def apiMongoDocs_def
  by (rule gate_calm; simp add: opened_calm Let_def split: sum.split)+

lemma list_calm:
  "calm rq w (snd (apiListConnections rq w))" "calm rq w (snd (apiGetConnection rq w))"
  "calm rq w (snd (apiListGrants rq w))" "calm rq w (snd (apiAudit rq w))"
  by (simp_all add: apiListConnections_def apiGetConnection_def apiListGrants_def apiAudit_def Let_def split: sum.split)

definition console_ok :: "web_env \<Rightarrow> world \<Rightarrow> response \<times> world \<times> 'c list \<Rightarrow> bool" where
  "console_ok rq w out \<longleftrightarrow>
     calm rq w (fst (snd out)) \<and> (snd (snd out) = [] \<or> en_csrf rq \<and> (\<exists>c. connFor rq w = Inr c))"

lemma console_quiet: "calm rq w w' \<Longrightarrow> console_ok rq w (r, w', [])"
  by (simp add: console_ok_def)

lemma console_run: "calm rq w w' \<Longrightarrow> en_csrf rq \<Longrightarrow> connFor rq w = Inr c \<Longrightarrow> console_ok rq w (r, add_audit rq a w', cmds)"
  by (auto simp: console_ok_def calm_add_audit)

lemma redis_console_ok: "console_ok rq w (apiRedisCmd send b rq w)"
proof (cases "\<exists>line confirm c. en_csrf rq \<and> b = Some (line, confirm) \<and> connFor rq w = Inr c")
  case False
  then show ?thesis by (auto simp: apiRedisCmd_def console_quiet split: sum.split option.split)
next
  case True
  then obtain line confirm c where b: "en_csrf rq" "b = Some (line, confirm)" "connFor rq w = Inr c" by blast
  obtain p w1 where pool: "pool_for rq RedisF c w = (p, w1)" by force
  have "calm rq w w1" using pool_for_calm [of rq w RedisF c] pool by simp
  then show ?thesis
    using b by (cases p) (simp_all add: apiRedisCmd_def pool Let_def console_quiet console_run)
qed

lemma mongo_console_ok: "console_ok rq w (apiMongoCmd parse send b rq w)"
proof (cases "\<exists>i c. en_csrf rq \<and> b = Some i \<and> connFor rq w = Inr c")
  case False
  then show ?thesis by (auto simp: apiMongoCmd_def console_quiet split: sum.split option.split)
next
  case True
  then obtain i c where b: "en_csrf rq" "b = Some i" "connFor rq w = Inr c" by blast
  obtain p w1 where pool: "pool_for rq MongoF c w = (p, w1)" by force
  have "calm rq w w1" using pool_for_calm [of rq w MongoF c] pool by simp
  then show ?thesis
    using b by (cases p) (simp_all add: apiMongoCmd_def pool Let_def console_quiet console_run split: sum.split)
qed

text \<open>What a request may send to a target, as the SQL endpoints and the export do.\<close>

fun route_of :: "endpoint \<Rightarrow> sql_route option" where
  "route_of (Api (EpSql r)) = Some (JsonApi r)"
| "route_of (Export g format) = Some (ExportFile g format)"
| "route_of _ = None"

definition exchange :: "endpoint \<Rightarrow> web_env \<Rightarrow> world \<Rightarrow> world \<Rightarrow> bool" where
  "exchange e rq w w' \<longleftrightarrow>
     (\<exists>r c tr. route_of e = Some r \<and> wd_sent w' = wd_sent w @ [(cn_ID c, tr)] \<and> connFor rq w = Inr c
        \<and> (if introspects r then list_all (catalogue_read (engine_of c)) tr else may_write rq w c \<or> read_only_trace rq c tr))"

lemma route_effects:
  assumes "route_of e = Some r"
  shows "tame rq w (route_world ig r rq w)
    \<and> (wd_sent (route_world ig r rq w) = wd_sent w \<or> exchange e rq w (route_world ig r rq w))"
proof
  show "tame rq w (route_world ig r rq w)" by (rule route_effect_tame [OF route_world_effect])
  show "wd_sent (route_world ig r rq w) = wd_sent w \<or> exchange e rq w (route_world ig r rq w)"
    using route_world_effect [of r rq w ig]
  proof (cases rule: route_effect_cases)
    case (sent c tr w1)
    with assms show ?thesis unfolding exchange_def by blast
  qed simp
qed

text \<open>
  The effect of a handler: it is tame, or a management request of an admin with a valid CSRF token; it
  sends at most one permitted exchange; a console command needs the CSRF token and a readable connection.
\<close>

definition effect_ok :: "endpoint \<Rightarrow> web_env \<Rightarrow> world \<Rightarrow> answer \<times> world \<times> kv_cmd list \<Rightarrow> bool" where
  "effect_ok e rq w out \<longleftrightarrow>
     (tame rq w (fst (snd out))
       \<or> wd_sent (fst (snd out)) = wd_sent w \<and> en_csrf rq \<and> u_Admin (en_user rq) \<and> accounted rq w (fst (snd out))
         \<and> (store_ok (wd_st w) \<longrightarrow> managed w (fst (snd out))))
     \<and> (wd_sent (fst (snd out)) = wd_sent w \<or> exchange e rq w (fst (snd out)))
     \<and> (snd (snd out) = [] \<or> en_csrf rq \<and> (\<exists>c. connFor rq w = Inr c))"

lemma effect_calm: "calm rq w (snd r) \<Longrightarrow> effect_ok e rq w (json r)"
  by (cases r) (simp add: effect_ok_def calm_def)

lemma effect_console:
  "console_ok rq w out \<Longrightarrow> effect_ok e rq w (case out of (r, w', cmds) \<Rightarrow> (AJson r, w', map f cmds))"
  by (auto simp: effect_ok_def console_ok_def calm_def split: prod.split)

lemma manage_sent: "wd_sent (snd (manage net r rq w)) = wd_sent w"
proof -
  have one: "wd_sent (snd (snd (reencrypt_one net renv c w))) = wd_sent w" for renv c w
    by (simp add: reencrypt_one_def split: prod.split sum.split option.split)
  then have loop: "wd_sent (snd (reencrypt_loop net renv cs w)) = wd_sent w" for renv cs w
    by (induction cs arbitrary: w) (simp_all add: split_beta)
  show ?thesis
  proof (cases r)
    case ReencryptAll
    then show ?thesis using loop by (simp add: apiReencrypt_def Let_def split_beta split: sum.split)
  qed (auto simp: apiCreateConnection_def apiUpdateConnection_def apiDeleteConnection_def apiSetGrant_def apiDeleteGrant_def
      Let_def split: sum.split option.split prod.split)
qed

lemma effect_manage: "effect_ok e rq w (json (manage net r rq w))"
proof (cases "en_csrf rq \<and> u_Admin (en_user rq)")
  case True
  then show ?thesis using manage_managed [of w net r rq] manage_sent [of net r rq w] manage_accounted [of rq w net r]
    by (cases "manage net r rq w") (auto simp: effect_ok_def)
next
  case False
  then show ?thesis using manage_refused [OF False, of net r w] by (intro effect_calm) simp
qed

lemma mountAPI_effect: "effect_ok (Api call) rq w (mountAPI x call rq w)"
proof (cases call)
  case (EpManage r)
  then show ?thesis using effect_manage by simp
next
  case (EpSql r)
  then show ?thesis using route_effects [of "Api call" "JsonApi r" rq w "sx_ig x"]
    by (cases "serve (sx_ig x) r rq w") (simp add: effect_ok_def)
next
  case (EpRedisCmd b)
  then show ?thesis using effect_console [OF redis_console_ok] by simp
next
  case (EpMongoCmd b)
  then show ?thesis using effect_console [OF mongo_console_ok] by simp
next
  case (EpAuditExport f)
  then show ?thesis by (simp add: effect_ok_def)
next
  case EpUnknown
  then show ?thesis by (simp add: effect_ok_def)
qed (simp_all add: effect_calm kv_calm list_calm del: json.simps)

lemma authed_handler_effect: "effect_ok e rq w (authed_handler x e rq w)"
proof (cases e)
  case (Export g format)
  then show ?thesis using route_effects [of e "ExportFile g format" rq w] by (cases "exportTable g format rq w") (simp add: effect_ok_def)
next
  case (Api call)
  then show ?thesis by (simp add: mountAPI_effect)
qed (simp_all add: effect_ok_def)

lemma tame_store:
  assumes "tame rq w w'"
  shows "store_ok (wd_st w) \<Longrightarrow> store_ok (wd_st w')" "st_conns (wd_st w') = st_conns (wd_st w)"
    "st_grants (wd_st w') = st_grants (wd_st w)" "reg_kept (wd_rg w) (wd_rg w')"
proof -
  have "(store_ok s \<longrightarrow> store_ok (foldl (\<lambda>s a. AddAudit f now a s) s as))
      \<and> st_conns (foldl (\<lambda>s a. AddAudit f now a s) s as) = st_conns s
      \<and> st_grants (foldl (\<lambda>s a. AddAudit f now a s) s as) = st_grants s" for s f now as
    by (induction as arbitrary: s) (auto simp: store_ok_audit)
  with assms show "store_ok (wd_st w) \<Longrightarrow> store_ok (wd_st w')" "st_conns (wd_st w') = st_conns (wd_st w)"
    "st_grants (wd_st w') = st_grants (wd_st w)" "reg_kept (wd_rg w) (wd_rg w')"
    by (auto simp: tame_def)
qed

lemma tame_accounted: "tame rq w w' \<Longrightarrow> accounted rq' w w'"
proof -
  have "prefix (st_audit s) (st_audit (foldl (\<lambda>s a. AddAudit f now a s) s as))
      \<and> prefix (st_sink s) (st_sink (foldl (\<lambda>s a. AddAudit f now a s) s as))" for s f now as
  proof (induction as arbitrary: s)
    case (Cons a as)
    have "prefix (st_audit s) (st_audit (AddAudit f now a s))" by (auto simp: AddAudit_def Let_def split: option.split)
    with Cons [of "AddAudit f now a s"] show ?case by (auto intro: prefix_order.trans append_prefixD)
  qed simp
  moreover assume "tame rq w w'"
  ultimately show ?thesis using tame_store(2,3) [of rq w w'] by (auto simp: accounted_def tame_def)
qed

section \<open>The running process\<close>

text \<open>\<^verbatim>\<open>NewServer\<close> with the limiters that \<^verbatim>\<open>Router\<close> makes: 20 logins per minute and address, 600 requests per minute and user.\<close>

definition NewServer :: "'st \<Rightarrow> store \<Rightarrow> int \<Rightarrow> string \<Rightarrow> 'st server" where
  "NewServer sessions st pgMaxConns sqliteDir =
     \<lparr>sv_auth = \<lparr>au_sessions = sessions, au_audit = []\<rparr>,
      sv_world = \<lparr>wd_st = st, wd_rg = NewRegistry pgMaxConns sqliteDir, wd_sent = []\<rparr>,
      sv_authLimit = newRateLimiter 20 60, sv_authedLimit = newRateLimiter 600 60,
      sv_metrics = newMetrics, sv_kv = []\<rparr>"

text \<open>
  A step is a request or a round of one of the background loops. \<open>E\<close> are the environments that requests may
  meet (any behaviour of targets, provider, clock and faults); \<open>tick\<close> is what happens to the
  session store by itself: the reaper of the memory store, or outages and expiry of Redis.
\<close>

inductive srv_step ::
    "'st sstore \<Rightarrow> ('e \<Rightarrow> 'st \<Rightarrow> 'st) \<Rightarrow> idp \<Rightarrow> 'v server_env set \<Rightarrow> 'st server \<Rightarrow> 'st server \<Rightarrow> bool"
  for S :: "'st sstore" and tick :: "'e \<Rightarrow> 'st \<Rightarrow> 'st" and p :: idp and E :: "'v server_env set" where
  request: "x \<in> E \<Longrightarrow> ServeHTTP S p x q sv = (out, sv') \<Longrightarrow> srv_step S tick p E sv sv'"
| reap: "srv_step S tick p E sv (sv\<lparr>sv_auth := (sv_auth sv)\<lparr>au_sessions := tick env_event (au_sessions (sv_auth sv))\<rparr>\<rparr>)"
| prune: "srv_step S tick p E sv (sv\<lparr>sv_authLimit := prune_tick now (sv_authLimit sv)\<rparr>)"
| prune_authed: "srv_step S tick p E sv (sv\<lparr>sv_authedLimit := prune_tick now (sv_authedLimit sv)\<rparr>)"
| janitor: "srv_step S tick p E sv
    (sv\<lparr>sv_world := (sv_world sv)\<lparr>wd_rg := janitor_round now order (wd_rg (sv_world sv))\<rparr>\<rparr>)"
| retain: "retain_purge f now days (wd_st (sv_world sv)) (sv_metrics sv) = (st', m') \<Longrightarrow>
    srv_step S tick p E sv (sv\<lparr>sv_world := (sv_world sv)\<lparr>wd_st := st'\<rparr>, sv_metrics := m'\<rparr>)"

inductive_cases srv_stepE: "srv_step S tick p E sv sv'"

definition srv_reach ::
    "'st sstore \<Rightarrow> ('e \<Rightarrow> 'st \<Rightarrow> 'st) \<Rightarrow> 'st \<Rightarrow> idp \<Rightarrow> 'v server_env set \<Rightarrow> 'st server \<Rightarrow> bool" where
  "srv_reach S tick st0 p E sv \<longleftrightarrow>
     (\<exists>st maxc dir. store_ok st \<and> (srv_step S tick p E)\<^sup>*\<^sup>* (NewServer st0 st maxc dir) sv)"

section \<open>What a request does to the process\<close>

lemma audit_logins_tame: "tame rq w (audit_logins rq a a' w) \<and> wd_sent (audit_logins rq a a' w) = wd_sent w"
proof -
  have "tame rq w (foldl (\<lambda>w (action, detail, success). add_audit rq (new_audit detail 0 action detail success) w) w' evs)
      \<and> wd_sent (foldl (\<lambda>w (action, detail, success). add_audit rq (new_audit detail 0 action detail success) w) w' evs) = wd_sent w'"
    if "tame rq w w'" for w' and evs :: "(string \<times> string \<times> bool) list"
    using that by (induction evs arbitrary: w') (auto simp: tame_add_audit split_beta)
  from this [OF tame_refl] show ?thesis unfolding audit_logins_def .
qed

text \<open>The two ways in: no handler runs, or one handler runs in the environment of some user.\<close>

definition handled ::
    "'v server_env \<Rightarrow> http_req \<Rightarrow> web_env \<Rightarrow> 'st server \<Rightarrow> 'st server \<Rightarrow> bool" where
  "handled x q rq sv sv' \<longleftrightarrow>
     (\<exists>out. out = authed_handler x (hq_endpoint q) rq (sv_world sv) \<and> sv_world sv' = fst (snd out) \<and> sv_kv sv' = sv_kv sv @ snd (snd out))"

definition unhandled :: "'v server_env \<Rightarrow> http_req \<Rightarrow> 'st server \<Rightarrow> 'st server \<Rightarrow> bool" where
  "unhandled x q sv sv' \<longleftrightarrow>
     tame (base_env x q) (sv_world sv) (sv_world sv') \<and> wd_sent (sv_world sv') = wd_sent (sv_world sv) \<and> sv_kv sv' = sv_kv sv"

lemma unhandled_same: "sv_world sv' = sv_world sv \<Longrightarrow> sv_kv sv' = sv_kv sv \<Longrightarrow> unhandled x q sv sv'"
  by (simp add: unhandled_def)

lemma auth_step_unhandled:
  "auth_step x q r sv = (ans, ck, sv') \<Longrightarrow> unhandled x q sv sv' \<and> sv_auth sv' = snd (snd r)
     \<and> sv_authLimit sv' = sv_authLimit sv \<and> sv_authedLimit sv' = sv_authedLimit sv"
  using audit_logins_tame [of "base_env x q" "sv_world sv" "sv_auth sv" "snd (snd r)"]
  by (auto simp: auth_step_def unhandled_def split: prod.splits)

lemma authed_cases:
  assumes "authed S x q (authed_handler x (hq_endpoint q)) sv = (ans, ck, sv')"
  shows "(\<exists>u. fst (Middleware S (en_cfg (sx_base x)) (hq_now q) (hq_rnd1 q) (hq_rnd2 q) (hq_auth q) (sv_auth sv)) = Next u
            \<and> handled x q (user_env S x q u (au_sessions (sv_auth sv'))) sv sv')
      \<or> sv_world sv' = sv_world sv \<and> sv_kv sv' = sv_kv sv"
    and "sv_auth sv' = snd (snd (Middleware S (en_cfg (sx_base x)) (hq_now q) (hq_rnd1 q) (hq_rnd2 q) (hq_auth q) (sv_auth sv)))"
    and "sv_authLimit sv' = sv_authLimit sv"
    and "sv_authedLimit sv' = sv_authedLimit sv
      \<or> (\<exists>key. sv_authedLimit sv' = snd (allow (hq_now q) key (sv_authedLimit sv)))"
  using assms
  by (auto simp: authed_def handled_def middlewareBy_def split: prod.splits auth_resp.splits limited.splits if_splits)
     (metis snd_conv)+

definition auth_move :: "'st sstore \<Rightarrow> idp \<Rightarrow> config \<Rightarrow> http_req \<Rightarrow> 'st auth_state \<Rightarrow> 'st auth_state \<Rightarrow> bool" where
  "auth_move S p cfg q a a' \<longleftrightarrow>
     a' \<in> {a, snd (snd (Middleware S cfg (hq_now q) (hq_rnd1 q) (hq_rnd2 q) (hq_auth q) a)),
           snd (snd (Login S cfg p (hq_now q) (hq_rnd1 q) (hq_rnd2 q) (hq_verifier q) a)),
           snd (snd (Callback S cfg p (hq_now q) (hq_rnd1 q) (hq_rnd2 q) (hq_auth q) a)),
           snd (snd (Logout S cfg p (hq_now q) (hq_auth q) a))}"

definition limit_move :: "int \<Rightarrow> rate_limiter \<Rightarrow> rate_limiter \<Rightarrow> bool" where
  "limit_move now rl rl' \<longleftrightarrow> rl' = rl \<or> (\<exists>key. rl' = snd (allow now key rl))"

lemma limit_move_ok: "limit_move now rl rl' \<Longrightarrow> rl_ok rl \<Longrightarrow> rl_ok rl'"
  by (auto simp: limit_move_def allow_ok)

definition routed :: "'st sstore \<Rightarrow> idp \<Rightarrow> 'v server_env \<Rightarrow> http_req \<Rightarrow> 'st server \<Rightarrow> 'st server \<Rightarrow> bool" where
  "routed S p x q sv sv' \<longleftrightarrow>
     (unhandled x q sv sv'
      \<or> (\<exists>u. fst (Middleware S (en_cfg (sx_base x)) (hq_now q) (hq_rnd1 q) (hq_rnd2 q) (hq_auth q) (sv_auth sv)) = Next u
             \<and> sv_auth sv' = snd (snd (Middleware S (en_cfg (sx_base x)) (hq_now q) (hq_rnd1 q) (hq_rnd2 q) (hq_auth q) (sv_auth sv)))
             \<and> handled x q (user_env S x q u (au_sessions (sv_auth sv'))) sv sv'))
     \<and> auth_move S p (en_cfg (sx_base x)) q (sv_auth sv) (sv_auth sv')
     \<and> limit_move (hq_now q) (sv_authLimit sv) (sv_authLimit sv') \<and> limit_move (hq_now q) (sv_authedLimit sv) (sv_authedLimit sv')"

lemma routed_authed:
  "authed S x q (authed_handler x (hq_endpoint q)) sv = (ans, ck, sv') \<Longrightarrow> routed S p x q sv sv'"
  using authed_cases [of S x q sv ans ck sv'] unhandled_same
  unfolding routed_def auth_move_def limit_move_def by blast

lemma routed_same:
  "sv_world sv' = sv_world sv \<Longrightarrow> sv_kv sv' = sv_kv sv \<Longrightarrow> sv_auth sv' = sv_auth sv
    \<Longrightarrow> sv_authLimit sv' = sv_authLimit sv \<Longrightarrow> sv_authedLimit sv' = sv_authedLimit sv \<Longrightarrow> routed S p x q sv sv'"
  by (simp add: routed_def auth_move_def limit_move_def unhandled_same)

lemma routed_auth_step:
  assumes "auth_step x q r sv = (ans, ck, sv')"
    and "auth_move S p (en_cfg (sx_base x)) q (sv_auth sv) (snd (snd r))"
  shows "routed S p x q sv sv'"
  using auth_step_unhandled [OF assms(1)] assms(2) by (simp add: routed_def limit_move_def)

lemma routed_limited:
  assumes "ip_limited q sv h = (ans, ck, sv')"
    and "\<And>rl ans ck sv'. h (sv\<lparr>sv_authLimit := rl\<rparr>) = (ans, ck, sv') \<Longrightarrow> routed S p x q (sv\<lparr>sv_authLimit := rl\<rparr>) sv' \<and> sv_authLimit sv' = rl"
  shows "routed S p x q sv sv'"
proof -
  define rl where "rl = snd (allow (hq_now q) (clientIP (hq_remote q)) (sv_authLimit sv))"
  have lim: "limit_move (hq_now q) (sv_authLimit sv) rl" unfolding limit_move_def rl_def by blast
  have "sv' = sv\<lparr>sv_authLimit := rl\<rparr> \<or> h (sv\<lparr>sv_authLimit := rl\<rparr>) = (ans, ck, sv')"
    using assms(1) by (auto simp: ip_limited_def middlewareBy_def rl_def split: prod.splits limited.splits if_splits)
  then show ?thesis
  proof
    assume "sv' = sv\<lparr>sv_authLimit := rl\<rparr>"
    then show ?thesis using lim by (simp add: routed_def auth_move_def unhandled_same limit_move_def)
  next
    assume "h (sv\<lparr>sv_authLimit := rl\<rparr>) = (ans, ck, sv')"
    from assms(2) [OF this] lim show ?thesis by (auto simp: routed_def unhandled_def handled_def)
  qed
qed

lemma Router_routed:
  assumes "Router S p x q sv = (ans, ck, sv')"
  shows "routed S p x q sv sv'"
proof (cases "hq_endpoint q")
  case AuthLogin
  show ?thesis
    by (rule routed_limited [where h = "\<lambda>sv. auth_step x q (Login S (en_cfg (sx_base x)) p (hq_now q) (hq_rnd1 q) (hq_rnd2 q) (hq_verifier q) (sv_auth sv)) sv"])
       (use assms AuthLogin in \<open>auto simp: Router_def Let_def auth_move_def dest: auth_step_unhandled intro!: routed_auth_step\<close>)
next
  case AuthCallback
  show ?thesis
    by (rule routed_limited [where h = "\<lambda>sv. auth_step x q (Callback S (en_cfg (sx_base x)) p (hq_now q) (hq_rnd1 q) (hq_rnd2 q) (hq_auth q) (sv_auth sv)) sv"])
       (use assms AuthCallback in \<open>auto simp: Router_def Let_def auth_move_def dest: auth_step_unhandled intro!: routed_auth_step\<close>)
next
  case AuthLogout
  then show ?thesis
    using assms by (intro routed_auth_step) (auto simp: Router_def Let_def auth_move_def)
qed (use assms in \<open>auto simp: Router_def Let_def split: prod.splits intro: routed_same routed_authed\<close>)

lemma ServeHTTP_routed:
  assumes "ServeHTTP S p x q sv = (out, sv')"
  shows "routed S p x q sv sv'"
proof -
  obtain ans ck sv1 where r: "Router S p x q sv = (ans, ck, sv1)" by (metis prod_cases3)
  with assms obtain m where "sv' = sv1\<lparr>sv_metrics := m\<rparr>" by (auto simp: ServeHTTP_def Let_def)
  with Router_routed [OF r] show ?thesis by (simp add: routed_def unhandled_def handled_def)
qed

section \<open>The invariant of the process\<close>

definition base_ok :: "'st server \<Rightarrow> bool" where
  "base_ok sv \<longleftrightarrow> store_ok (wd_st (sv_world sv)) \<and> reg_ok (wd_rg (sv_world sv), [])
     \<and> rl_ok (sv_authLimit sv) \<and> rl_ok (sv_authedLimit sv)"

lemma routed_base_ok:
  assumes "routed S p x q sv sv'" and "base_ok sv"
  shows "base_ok sv'"
proof -
  have "store_ok (wd_st (sv_world sv')) \<and> reg_kept (wd_rg (sv_world sv)) (wd_rg (sv_world sv'))"
  proof (cases "unhandled x q sv sv'")
    case True
    then show ?thesis using assms(2) tame_store by (auto simp: unhandled_def base_ok_def)
  next
    case False
    then obtain rq where "handled x q rq sv sv'" using assms(1) unfolding routed_def by blast
    then obtain out where out: "out = authed_handler x (hq_endpoint q) rq (sv_world sv)" "sv_world sv' = fst (snd out)"
      unfolding handled_def by blast
    from authed_handler_effect [of "hq_endpoint q" rq "sv_world sv" x] assms(2) tame_store [of rq "sv_world sv" "fst (snd out)"]
    show ?thesis unfolding out(2) effect_ok_def out(1) [symmetric] base_ok_def managed_def by blast
  qed
  with assms show ?thesis by (auto simp: base_ok_def routed_def reg_kept_def intro: limit_move_ok)
qed

lemma NewServer_base_ok: "store_ok st \<Longrightarrow> base_ok (NewServer st0 st maxc dir)"
  using reg_reach_ok [OF reg_reach.start, of maxc dir] by (simp add: base_ok_def NewServer_def newRateLimiter_ok)

lemma srv_step_base_ok:
  assumes "srv_step S tick p E sv sv'" and "base_ok sv"
  shows "base_ok sv'"
  using assms(1)
proof cases
  case (request x q out)
  then show ?thesis using routed_base_ok [OF ServeHTTP_routed assms(2)] by blast
next
  case (prune now)
  then show ?thesis using assms(2) step_ok [of _ "Tick now"] by (simp add: base_ok_def)
next
  case (prune_authed now)
  then show ?thesis using assms(2) step_ok [of _ "Tick now"] by (simp add: base_ok_def)
next
  case (janitor now order)
  then show ?thesis using assms(2) by (simp add: base_ok_def janitor_ok)
next
  case (retain f now days st' m')
  then have "store_ok st'" using assms(2)
    by (auto simp: base_ok_def retain_purge_def split: prod.splits sum.splits dest: store_ok_purge)
  with retain assms(2) show ?thesis by (simp add: base_ok_def)
qed (use assms(2) in \<open>simp add: base_ok_def\<close>)

context session_store
begin

lemma auth_move_entries:
  assumes "auth_move S p cfg q a a'" and "entries (good_entry p cfg) (au_sessions a)"
  shows "entries (good_entry p cfg) (au_sessions a')"
  using assms(1) middleware_entries [OF assms(2)] login_entries [OF assms(2)] callback_entries [OF assms(2)] logout_entries [OF assms(2)]
  unfolding auth_move_def by (metis assms(2) insert_iff prod.collapse singletonD)

lemma srv_step_entries:
  assumes "srv_step S tick p E sv sv'" and "\<forall>x\<in>E. en_cfg (sx_base x) = cfg"
    and "entries (good_entry p cfg) (au_sessions (sv_auth sv))"
  shows "entries (good_entry p cfg) (au_sessions (sv_auth sv'))"
  using assms(1)
proof cases
  case (request x q out)
  then have "auth_move S p cfg q (sv_auth sv) (sv_auth sv')"
    using ServeHTTP_routed assms(2) unfolding routed_def by fastforce
  then show ?thesis using auth_move_entries assms(3) by blast
qed (use assms(3) entries_env in simp_all)

lemma srv_reach_inv:
  assumes "srv_reach S tick st0 p E sv" and "\<And>k. vacant st0 k" and "\<forall>x\<in>E. en_cfg (sx_base x) = cfg"
  shows "base_ok sv \<and> entries (good_entry p cfg) (au_sessions (sv_auth sv))"
proof -
  from assms(1) obtain st maxc dir where st: "store_ok st"
    and run: "(srv_step S tick p E)\<^sup>*\<^sup>* (NewServer st0 st maxc dir) sv" unfolding srv_reach_def by blast
  from run show ?thesis
  proof (induction rule: rtranclp_induct)
    case base
    show ?case using NewServer_base_ok [OF st] assms(2) by (simp add: NewServer_def entries_def vacant_def)
  next
    case (step sv1 sv2)
    have "entries (good_entry p cfg) (au_sessions (sv_auth sv2))"
      by (rule srv_step_entries [OF step.hyps(2) assms(3)]) (use step.IH in simp)
    then show ?case using srv_step_base_ok [OF step.hyps(2)] step.IH by simp
  qed
qed

lemma handled_user:
  assumes "entries (good_entry p (en_cfg (sx_base x))) (au_sessions (sv_auth sv))" and "\<not> cfg_DevMode (en_cfg (sx_base x))"
    and "routed S p x q sv sv'" and "\<not> unhandled x q sv sv'"
  obtains u where "current S (hq_now q) (au_sessions (sv_auth sv)) (hq_auth q) = Some u" "u_Read u"
    "verified_user p (en_cfg (sx_base x)) u" "handled x q (user_env S x q u (au_sessions (sv_auth sv))) sv sv'"
proof -
  let ?m = "Middleware S (en_cfg (sx_base x)) (hq_now q) (hq_rnd1 q) (hq_rnd2 q) (hq_auth q) (sv_auth sv)"
  from assms(3,4) obtain u where u: "fst ?m = Next u" "sv_auth sv' = snd (snd ?m)"
    "handled x q (user_env S x q u (au_sessions (sv_auth sv'))) sv sv'" unfolding routed_def by blast
  then obtain ck a' where m: "?m = (Next u, ck, a')" by (metis prod.collapse)
  with assms(2) have cur: "current S (hq_now q) (au_sessions (sv_auth sv)) (hq_auth q) = Some u" "u_Read u" "a' = sv_auth sv"
    by (simp_all add: Middleware_Next)
  then obtain c s where "ss_Get S (hq_now q) (au_sessions (sv_auth sv)) c = Some s" "u = (ses_user s)\<lparr>u_CSRF := ses_csrf s\<rparr>"
    unfolding current_Some by blast
  with entries_get [OF assms(1)] have "verified_user p (en_cfg (sx_base x)) u"
    using assms(2) cur(2) by (fastforce simp: good_entry_def no_user_def)
  with that cur m u show thesis by simp
qed

end

lemmas mem_reach_inv = mem.srv_reach_inv [OF _ mem_empty]

lemma verified_caps: "verified_user p cfg u \<Longrightarrow> caps_ok cfg u"
  by (simp add: verified_user_def)

section \<open>A concrete run\<close>

text \<open>An administrator logs in and uses the one Postgres connection of the deployment.\<close>

definition demo_server_env :: "unit server_env" where
  "demo_server_env =
     \<lparr>sx_base = demo_rq\<lparr>en_cfg := demo_cfg\<rparr>,
      sx_net = \<lparr>ne_lookup = (\<lambda>_. Inl ''down''), ne_show = (\<lambda>_. []), ne_nonce = (\<lambda>_. Inl ''down''), ne_f_pw = (\<lambda>_. None)\<rparr>,
      sx_ig = demo_ig,
      sx_redis = \<lparr>rc_scan = (\<lambda>_ _ _. Inr ([], 0)), rc_type = (\<lambda>_. Inr []), rc_ttl = (\<lambda>_. Inr 0), rc_get = (\<lambda>_. Inr []),
                  rc_hgetall = (\<lambda>_. Inr []), rc_lrange = (\<lambda>_ _ _. Inr []), rc_smembers = (\<lambda>_. Inr []), rc_zrange = (\<lambda>_ _ _. Inr [])\<rparr>,
      sx_redis_run = (\<lambda>_. Inl ''down''), sx_unmarshal = (\<lambda>_. None), sx_mongo_parse = (\<lambda>_. Inr []),
      sx_mongo_find = (\<lambda>_ _ _ _ _. Inl ''down''), sx_mongo_indexes = Inl ''down'', sx_mongo_run = (\<lambda>_ _. Inl ''down''),
      sx_stat = (\<lambda>_. None), sx_ping = None, sx_origin = []\<rparr>"

definition demo_http :: "endpoint \<Rightarrow> int \<Rightarrow> http_req" where
  "demo_http e t =
     \<lparr>hq_endpoint = e, hq_method = ''GET'', hq_path = ''/'', hq_pattern = ''/'', hq_id = ''1'', hq_remote = ''h'', hq_auth = demo_req,
      hq_now = t, hq_rnd1 = Some [], hq_rnd2 = Some [], hq_verifier = ''v'', hq_bytes = 0, hq_millis = 0, hq_reqid = []\<rparr>"

definition admin_claims :: claims where
  "admin_claims = demo_claims\<lparr>cl_Roles := [''dbm-admin'']\<rparr>"

definition admin_idp :: idp where
  "admin_idp = demo_idp\<lparr>idp_Verify := \<lambda>_. Some \<lparr>id_Nonce = zeros, id_Claims = Some admin_claims\<rparr>\<rparr>"

definition admin_user :: user where
  "admin_user = (token_user admin_idp demo_cfg admin_claims [])\<lparr>u_CSRF := zeros\<rparr>"

definition demo_store :: store where
  "demo_store = (empty_store ''sqlite'')\<lparr>st_conns := [demo_pg], st_next_conn := 2\<rparr>"

definition demo_start :: "mem_store server" where
  "demo_start = NewServer newMemSessionStore demo_store 4 []"

definition serve_demo :: "endpoint \<Rightarrow> int \<Rightarrow> mem_store server \<Rightarrow> mem_store server" where
  "serve_demo e t sv = snd (ServeHTTP mem_api admin_idp demo_server_env (demo_http e t) sv)"

definition demo_ready :: "mem_store server" where
  "demo_ready = serve_demo AuthCallback 1 (serve_demo AuthLogin 0 demo_start)"

lemma demo_env_simps [simp]:
  "hq_endpoint (demo_http e t) = e" "hq_auth (demo_http e t) = demo_req" "hq_now (demo_http e t) = t"
  "hq_rnd1 (demo_http e t) = Some []" "hq_rnd2 (demo_http e t) = Some []" "hq_verifier (demo_http e t) = ''v''"
  "hq_remote (demo_http e t) = ''h''" "hq_id (demo_http e t) = ''1''" "sx_base demo_server_env = demo_rq\<lparr>en_cfg := demo_cfg\<rparr>"
  by (simp_all add: demo_http_def demo_server_env_def)

lemma serve_demo_keeps:
  "sv_auth (serve_demo e t sv) = sv_auth (snd (snd (Router mem_api admin_idp demo_server_env (demo_http e t) sv)))"
  "sv_world (serve_demo e t sv) = sv_world (snd (snd (Router mem_api admin_idp demo_server_env (demo_http e t) sv)))"
  "sv_authLimit (serve_demo e t sv) = sv_authLimit (snd (snd (Router mem_api admin_idp demo_server_env (demo_http e t) sv)))"
  "sv_authedLimit (serve_demo e t sv) = sv_authedLimit (snd (snd (Router mem_api admin_idp demo_server_env (demo_http e t) sv)))"
  by (simp_all add: serve_demo_def ServeHTTP_def Let_def split: prod.split)

lemma demo_step: "srv_step mem_api tick admin_idp {demo_server_env} sv (serve_demo e t sv)"
  unfolding serve_demo_def
  by (rule srv_step.request [of demo_server_env _ _ _ "demo_http e t" sv "fst (ServeHTTP mem_api admin_idp demo_server_env (demo_http e t) sv)"]) simp_all

lemma demo_reach: "srv_reach mem_api tick newMemSessionStore admin_idp {demo_server_env} demo_ready"
proof -
  have "store_ok demo_store" by (simp add: store_ok_def demo_store_def empty_store_def demo_pg_def)
  moreover have "(srv_step mem_api tick admin_idp {demo_server_env})\<^sup>*\<^sup>* demo_start demo_ready"
    unfolding demo_ready_def by (blast intro: rtranclp.rtrancl_into_rtrancl rtranclp.rtrancl_refl demo_step)
  ultimately show ?thesis unfolding srv_reach_def demo_start_def by blast
qed

lemma demo_tokens:
  assumes "a1 = snd (snd (Login mem_api demo_cfg admin_idp 0 (Some []) (Some []) ''v'' a))"
    and "a2 = snd (snd (Callback mem_api demo_cfg admin_idp 1 (Some []) (Some []) demo_req a1))"
  shows "\<exists>resp ck. Login mem_api demo_cfg admin_idp 0 (Some []) (Some []) ''v'' a = (resp, ck, a1)"
    and "Callback mem_api demo_cfg admin_idp 1 (Some []) (Some []) demo_req a1
       = (Redirect ''/'', [deleted_cookie ''dbm_state'', setCookie zeros demo_cfg], a2)"
    and "Middleware mem_api demo_cfg 2 (Some []) (Some []) demo_req a2 = (Next admin_user, [], a2)"
proof -
  have admin: "u_Read (token_user admin_idp demo_cfg admin_claims [])"
    by (simp add: token_user_def admin_idp_def demo_idp_def admin_claims_def demo_claims_def applyCaps_def apply_role_def no_user_def)
  have idp: "idp_Exchange admin_idp (rq_query demo_req ''code'') ''v'' = Some \<lparr>ot_IDToken = Some ''raw'', ot_AccessToken = []\<rparr>"
    "idp_Verify admin_idp ''raw'' = Some \<lparr>id_Nonce = zeros, id_Claims = Some admin_claims\<rparr>"
    by (simp_all add: admin_idp_def demo_idp_def)
  have flow: "fst (Callback mem_api demo_cfg admin_idp 1 (Some []) (Some []) demo_req a1) = Redirect ''/'' \<and>
     fst (snd (Callback mem_api demo_cfg admin_idp 1 (Some []) (Some []) demo_req a1)) =
       [deleted_cookie ''dbm_state'', setCookie zeros demo_cfg] \<and>
     Middleware mem_api demo_cfg 2 (Some []) (Some []) demo_req a2 =
       (let u = (token_user admin_idp demo_cfg admin_claims [])\<lparr>u_CSRF := zeros\<rparr>
        in (if u_Read u then Next u else Forbidden (forbidden_text demo_cfg), [], a2))"
    using mem.login_flow [OF demo_cfg_dev auth_token_zeros auth_token_zeros auth_token_zeros auth_token_zeros,
        of a1 admin_idp "[]" 0 "''v''" a a2 "[]" 1 demo_req "\<lparr>ot_IDToken = Some ''raw'', ot_AccessToken = []\<rparr>" "''raw''"
           admin_claims demo_req 2 "Some []" "Some []"] assms idp
    by (simp add: auth_after_def demo_request sessionTTL_def)
  show "\<exists>resp ck. Login mem_api demo_cfg admin_idp 0 (Some []) (Some []) ''v'' a = (resp, ck, a1)"
    unfolding assms(1) by (metis prod.collapse)
  show "Callback mem_api demo_cfg admin_idp 1 (Some []) (Some []) demo_req a1
       = (Redirect ''/'', [deleted_cookie ''dbm_state'', setCookie zeros demo_cfg], a2)"
    using flow assms(2) by (simp add: prod_eq_iff)
  show "Middleware mem_api demo_cfg 2 (Some []) (Some []) demo_req a2 = (Next admin_user, [], a2)"
    using flow admin by (simp add: admin_user_def Let_def)
qed

lemma csrf_of_user:
  "current S now st r = Some u \<Longrightarrow> rq_header r ''X-CSRF-Token'' = u_CSRF u \<Longrightarrow> u_CSRF u \<noteq> [] \<Longrightarrow> CheckCSRF S now st r"
  by (auto simp: current_def CheckCSRF_def csrfFor_def Let_def split: option.splits)

lemma demo_limits:
  obtains rl rl' where "middlewareBy 0 (clientIP ''h'') (newRateLimiter 20 60) = (Next_handler, rl)"
    "middlewareBy 1 (clientIP ''h'') rl = (Next_handler, rl')"
  by (simp add: middlewareBy_def allow_def newRateLimiter_def maxRateKeys_def Let_def)

lemma audit_logins_keeps:
  "st_conns (wd_st (audit_logins rq a a' w)) = st_conns (wd_st w)" "wd_rg (audit_logins rq a a' w) = wd_rg w"
proof -
  have "st_conns (wd_st (foldl (\<lambda>w (action, detail, success). add_audit rq (new_audit detail 0 action detail success) w) w evs))
        = st_conns (wd_st w)
      \<and> wd_rg (foldl (\<lambda>w (action, detail, success). add_audit rq (new_audit detail 0 action detail success) w) w evs) = wd_rg w"
    for w and evs :: "(string \<times> string \<times> bool) list"
    by (induction evs arbitrary: w) (auto simp: add_audit_def split_beta)
  then show "st_conns (wd_st (audit_logins rq a a' w)) = st_conns (wd_st w)" "wd_rg (audit_logins rq a a' w) = wd_rg w"
    unfolding audit_logins_def by blast+
qed

lemma demo_session_ready:
  "Middleware mem_api demo_cfg 2 (Some []) (Some []) demo_req (sv_auth demo_ready) = (Next admin_user, [], sv_auth demo_ready)"
  "CheckCSRF mem_api 2 (au_sessions (sv_auth demo_ready)) demo_req"
  "sv_authedLimit demo_ready = newRateLimiter 600 60"
  "st_conns (wd_st (sv_world demo_ready)) = [demo_pg]" "wd_rg (sv_world demo_ready) = NewRegistry 4 []"
proof -
  define a1 where "a1 = snd (snd (Login mem_api demo_cfg admin_idp 0 (Some []) (Some []) ''v'' (sv_auth demo_start)))"
  define a2 where "a2 = snd (snd (Callback mem_api demo_cfg admin_idp 1 (Some []) (Some []) demo_req a1))"
  note tokens = demo_tokens [OF a1_def a2_def]
  obtain resp ck where l: "Login mem_api demo_cfg admin_idp 0 (Some []) (Some []) ''v'' (sv_auth demo_start) = (resp, ck, a1)"
    using tokens(1) by blast
  note cb = tokens(2) and mw = tokens(3)
  obtain rl rl' where rl: "middlewareBy 0 (clientIP ''h'') (newRateLimiter 20 60) = (Next_handler, rl)"
    "middlewareBy 1 (clientIP ''h'') rl = (Next_handler, rl')" using demo_limits by blast
  define sv where "sv = serve_demo AuthLogin 0 demo_start"
  have start: "sv_authLimit demo_start = newRateLimiter 20 60" by (simp add: demo_start_def NewServer_def)
  have sv: "sv_auth sv = a1" "sv_authLimit sv = rl" "sv_authedLimit sv = newRateLimiter 600 60"
    "sv_world sv = audit_logins (base_env demo_server_env (demo_http AuthLogin 0)) (sv_auth demo_start) a1 (sv_world demo_start)"
    by (simp_all add: sv_def serve_demo_keeps Router_def ip_limited_def auth_step_def start rl l)
       (simp add: demo_start_def NewServer_def)
  have ready: "sv_auth demo_ready = a2" "sv_authedLimit demo_ready = newRateLimiter 600 60"
    "sv_world demo_ready = audit_logins (base_env demo_server_env (demo_http AuthCallback 1)) a1 a2 (sv_world sv)"
    unfolding demo_ready_def sv_def [symmetric]
    by (simp_all add: serve_demo_keeps Router_def ip_limited_def auth_step_def sv rl cb)
  show "Middleware mem_api demo_cfg 2 (Some []) (Some []) demo_req (sv_auth demo_ready) = (Next admin_user, [], sv_auth demo_ready)"
    using mw ready by simp
  have cur: "current mem_api 2 (au_sessions a2) demo_req = Some admin_user"
    using mw Middleware_Next [OF demo_cfg_dev] by blast
  show "CheckCSRF mem_api 2 (au_sessions (sv_auth demo_ready)) demo_req"
    unfolding ready(1) by (rule csrf_of_user [OF cur]) (simp_all add: demo_req_def admin_user_def zeros_def)
  show "sv_authedLimit demo_ready = newRateLimiter 600 60" by (rule ready)
  show "st_conns (wd_st (sv_world demo_ready)) = [demo_pg]" "wd_rg (sv_world demo_ready) = NewRegistry 4 []"
    unfolding ready(3) sv(4) by (simp_all add: audit_logins_keeps demo_start_def NewServer_def demo_store_def)
qed

text \<open>The administrator truncates a table.\<close>

definition demo_truncate :: endpoint where
  "demo_truncate = Api (EpSql (Truncate (Some \<lparr>dd_Schema = ''s'', dd_Table = ''t'', dd_Column = [], dd_Name = []\<rparr>)))"

lemma admin_user_simps [simp]: "u_Admin admin_user" "u_Read admin_user" "u_Write admin_user"
  by (simp_all add: admin_user_def token_user_def admin_idp_def demo_idp_def admin_claims_def demo_claims_def applyCaps_def apply_role_def no_user_def)

lemma demo_authed:
  assumes "e \<in> {Api call, Export g f, App p}"
  shows "sv_world (serve_demo e 2 demo_ready)
    = fst (snd (authed_handler demo_server_env e
        (demo_rq\<lparr>en_cfg := demo_cfg, en_now := 2, en_user := admin_user, en_csrf := True\<rparr>) (sv_world demo_ready)))"
  using assms demo_session_ready
  by (auto simp: serve_demo_keeps Router_def authed_def middlewareBy_def allow_def newRateLimiter_def maxRateKeys_def user_env_def base_env_def demo_rq_def  Let_def split: prod.split)

lemma demo_engine: "fst (reg_Engine (en_reg demo_rq) 2 demo_pg (NewRegistry 4 [])) = Inr PostgresE"
  by code_simp

abbreviation admin_rq :: web_env where
  "admin_rq \<equiv> demo_rq\<lparr>en_cfg := demo_cfg, en_now := 2, en_user := admin_user, en_csrf := True\<rparr>"

lemma admin_access: "access demo_cfg f st admin_user c = \<lparr>ca_Read = True, ca_Write = True\<rparr>"
  by (simp add: access_def ResolveConnAccess_def Let_def)

lemma admin_rq_id: "idParam admin_rq = 1"
proof -
  have "Atoi_lax ''1'' = 1" by code_simp
  then show ?thesis by (simp add: idParam_def demo_rq_def)
qed

lemma demo_truncated: "wd_sent (sv_world (serve_demo demo_truncate 2 demo_ready)) \<noteq> wd_sent (sv_world demo_ready)"
proof -
  let ?w = "sv_world demo_ready"
  have conn: "connFor admin_rq ?w = Inr demo_pg"
    unfolding connFor_def admin_rq_id using demo_session_ready(4)
    by (simp add: GetConnection_def req_access_def admin_access demo_rq_def) (simp add: demo_pg_def)
  have "fst (open_engine admin_rq demo_pg ?w) = Inr PostgresE"
    using demo_engine demo_session_ready(5) by (simp add: open_engine_def demo_rq_def split_beta)
  then obtain w1 where eng: "open_engine admin_rq demo_pg ?w = (Inr PostgresE, w1)" by (metis prod.collapse)
  then have w1: "wd_sent w1 = wd_sent ?w" using open_engine_quiet by (auto simp: quiet_step_def)
  have gate: "apiRequireWrite admin_rq True ?w = (Inr (demo_pg, PostgresE), w1)"
    using conn eng by (simp add: apiRequireWrite_def req_access_def admin_access) (simp add: demo_pg_def)
  show ?thesis
    unfolding demo_truncate_def
    by (simp add: demo_authed apiTruncate_def apiDDLMutate_def gate done_or_error_def execDDLAudit_def Let_def split_beta
        w1 split: option.split)
qed

lemma demo_deleted: "st_conns (wd_st (sv_world (serve_demo (Api (EpManage DeleteConn)) 2 demo_ready))) \<noteq> st_conns (wd_st (sv_world demo_ready))"
  using demo_session_ready(4)
  by (simp add: demo_authed apiDeleteConnection_def apiRequireAdmin_def DeleteConnection_def admin_rq_id)
    (simp add: demo_rq_def demo_pg_def add_audit_def)

lemma handled_effect:
  assumes "handled x q rq sv sv'"
  shows "(tame rq (sv_world sv) (sv_world sv')
       \<or> wd_sent (sv_world sv') = wd_sent (sv_world sv) \<and> en_csrf rq \<and> u_Admin (en_user rq))
     \<and> accounted rq (sv_world sv) (sv_world sv')
     \<and> (wd_sent (sv_world sv') = wd_sent (sv_world sv) \<or> exchange (hq_endpoint q) rq (sv_world sv) (sv_world sv'))
     \<and> (sv_kv sv' = sv_kv sv \<or> en_csrf rq \<and> (\<exists>c. connFor rq (sv_world sv) = Inr c))"
proof -
  from assms obtain out where out: "out = authed_handler x (hq_endpoint q) rq (sv_world sv)"
    "sv_world sv' = fst (snd out)" "sv_kv sv' = sv_kv sv @ snd (snd out)" unfolding handled_def by blast
  have "effect_ok (hq_endpoint q) rq (sv_world sv) out" unfolding out(1) by (rule authed_handler_effect)
  then show ?thesis unfolding effect_ok_def out(2,3) using tame_accounted by auto
qed

lemma routed_accounted: "routed S p x q sv sv' \<Longrightarrow> \<exists>rq. accounted rq (sv_world sv) (sv_world sv')"
  unfolding routed_def unhandled_def using handled_effect tame_accounted by metis

text \<open>Only the retention removes audit rows, and only by their age.\<close>

lemma srv_step_trail:
  assumes "srv_step S tick p E sv sv'"
  shows "prefix (st_audit (wd_st (sv_world sv))) (st_audit (wd_st (sv_world sv')))
    \<or> (\<exists>cutoff. st_audit (wd_st (sv_world sv')) = filter (\<lambda>a. cutoff \<le> a_TS a) (st_audit (wd_st (sv_world sv))))"
  using assms
proof cases
  case (request x q out)
  then obtain rq where "accounted rq (sv_world sv) (sv_world sv')" using routed_accounted [OF ServeHTTP_routed] by blast
  then show ?thesis by (simp add: accounted_def)
next
  case (retain f now days st' m')
  then show ?thesis
    by (auto simp: retain_purge_def PurgeAuditOlderThan_def not_less split: option.splits prod.splits sum.splits)
qed simp_all

end
