(* ===== verification/Introspect.thy ===== *)
theory Introspect
  imports WebSql
begin

text \<open>
  The explorer tree: what the catalogue statements of Postgres and MySQL ask for, and that the explorer endpoint
  shows exactly that.
\<close>

section \<open>The explorer tree\<close>

text \<open>
  What the catalogue statements of Postgres and MySQL ask for: the left join of the schemas with their
  relations. A schema without relations has one row with NULL for the relation;
  its kind \<open>blank\<close> is NULL on Postgres and the empty text on MySQL.
\<close>

definition relation_rows :: "string option \<Rightarrow> db_schema \<Rightarrow> (string \<times> string option \<times> string option \<times> int option) list" where
  "relation_rows blank s =
     (if s_Tables s = [] then [(s_Name s, None, blank, Some 0)]
      else map (\<lambda>t. (s_Name s, Some (t_Name t), Some (t_Kind t), Some (t_EstRows t))) (s_Tables s))"

definition left_join :: "string option \<Rightarrow> db_schema list \<Rightarrow> (string \<times> string option \<times> string option \<times> int option) list" where
  "left_join blank ss = concat (map (relation_rows blank) ss)"

definition schema_tree :: "db_schema list \<Rightarrow> bool" where
  "schema_tree ss \<longleftrightarrow> distinct (map s_Name ss) \<and> list_all (\<lambda>s. list_all (\<lambda>t. t_Schema t = s_Name s) (s_Tables s)) ss"

definition schema_rows :: "db_schema \<Rightarrow> (string \<times> db_table option) list" where
  "schema_rows s = (if s_Tables s = [] then [(s_Name s, None)] else map (\<lambda>t. (s_Name s, Some t)) (s_Tables s))"

lemma add_schema_row_new: "n \<notin> s_Name ` set ss \<Longrightarrow>
    add_schema_row ss (n, t) = ss @ [\<lparr>s_Name = n, s_Tables = (case t of None \<Rightarrow> [] | Some x \<Rightarrow> [x])\<rparr>]"
  by (induction ss) auto

lemma add_schema_row_last: "n \<notin> s_Name ` set ss \<Longrightarrow>
    add_schema_row (ss @ [\<lparr>s_Name = n, s_Tables = ts\<rparr>]) (n, Some t) = ss @ [\<lparr>s_Name = n, s_Tables = ts @ [t]\<rparr>]"
  by (induction ss) auto

lemma group_tables: "n \<notin> s_Name ` set ss \<Longrightarrow>
    foldl add_schema_row (ss @ [\<lparr>s_Name = n, s_Tables = ts\<rparr>]) (map (\<lambda>t. (n, Some t)) us) = ss @ [\<lparr>s_Name = n, s_Tables = ts @ us\<rparr>]"
  by (induction us arbitrary: ts) (simp_all add: add_schema_row_last)

lemma group_schema: "s_Name s \<notin> s_Name ` set ss \<Longrightarrow> foldl add_schema_row ss (schema_rows s) = ss @ [s]"
proof (cases "s_Tables s")
  case (Cons t ts)
  assume "s_Name s \<notin> s_Name ` set ss"
  with Cons show ?thesis using group_tables [of "s_Name s" ss "[t]" ts]
    by (simp add: schema_rows_def add_schema_row_new)
qed (simp_all add: schema_rows_def add_schema_row_new)

lemma group_left_join: "distinct (map s_Name (ss @ us)) \<Longrightarrow> foldl add_schema_row ss (concat (map schema_rows us)) = ss @ us"
proof (induction us arbitrary: ss)
  case (Cons u us)
  then have "s_Name u \<notin> s_Name ` set ss" by auto
  with Cons.IH [of "ss @ [u]"] Cons.prems show ?case by (simp add: group_schema)
qed simp

lemma group_schemas_tree:
  "schema_tree ss \<Longrightarrow> group_schemas (concat (map schema_rows ss)) = ss"
  using group_left_join [of "[]" ss] by (simp add: group_schemas_def schema_tree_def)

lemma scan_relations:
  assumes "schema_tree ss"
    and "\<And>n. conv (n, None, blank, Some 0) = (n, None)"
    and "\<And>n t. conv (n, Some (t_Name t), Some (t_Kind t), Some (t_EstRows t)) = (n, Some (t\<lparr>t_Schema := n\<rparr>))"
  shows "map conv (left_join blank ss) = concat (map schema_rows ss)"
proof -
  have "map conv (relation_rows blank s) = schema_rows s" if "list_all (\<lambda>t. t_Schema t = s_Name s) (s_Tables s)" for s
    using that by (auto simp: relation_rows_def schema_rows_def assms(2,3) list_all_iff)
  with assms(1) show ?thesis unfolding schema_tree_def left_join_def
    by (simp add: map_concat comp_def list_all_iff cong: map_cong)
qed

lemma Schemas_left_join:
  assumes "schema_tree ss"
  shows "pg_Schemas (Inr (map Inr (left_join blank ss), None)) = Inr ss"
    and "my_Schemas (Inr (map Inr (left_join blank ss), None)) = Inr ss"
  using assms
  by (simp_all add: pg_Schemas_def my_Schemas_def pg_kind_row_def null_string_def scan_relations group_schemas_tree)

section \<open>Properties\<close>

definition schemas_sql :: "engine \<Rightarrow> stmt" where
  "schemas_sql eng = (if eng = PostgresE then pg_schemas_sql else my_schemas_sql)"

text \<open>
  C33: the explorer shows the database as it is. If the database answers the catalogue statement of a Postgres or MySQL
  connection with the left join of its schemas and relations, then the explorer endpoint answers
  with exactly these schemas, in their order, each with exactly its relations, their kinds and estimates;
  schemas without relations are listed too. The catalogue statement is the only thing it sends to the database.
\<close>

theorem explorer_shows_catalogue:
  assumes "connFor rq w = Inr c" and "Store.Engine c \<noteq> FamilyRedis" and "Store.Engine c \<noteq> FamilyMongo"
    and "open_engine rq c w = (Inr eng, w')" and "eng \<noteq> SQLiteE" and "schema_tree ss"
    and "ct_relations (ig_catalog ig) (schemas_sql eng) = Inr (map Inr (left_join blank ss), None)"
  shows "apiExplorer ig rq w
    = (writeJSON 200 [(''kind'', FStr (Store.Engine c)), (''schemas'', FSchemas ss)],
       log_sent (cn_ID c) [SCatalog (fst (schemas_sql eng)) (snd (schemas_sql eng))] w')"
proof -
  have "eng_Schemas (ig_catalog ig) eng = (Inr ss, [schemas_sql eng])"
    using assms(5,7) Schemas_left_join [OF assms(6), of blank] by (cases eng) (simp_all add: schemas_sql_def Engine_copies)
  with assms(1-4) show ?thesis 
    by (simp add: apiExplorer_def or_zero_def error_field_def log_catalog_def split_beta)
qed

definition demo_schemas :: "db_schema list" where
  "demo_schemas =
     [\<lparr>s_Name = ''app'', s_Tables = [\<lparr>t_Schema = ''app'', t_Name = ''users'', t_Kind = ''table'', t_EstRows = 3\<rparr>,
                                  \<lparr>t_Schema = ''app'', t_Name = ''v'', t_Kind = ''view'', t_EstRows = 0\<rparr>]\<rparr>,
      \<lparr>s_Name = ''public'', s_Tables = []\<rparr>]"

definition demo_tree :: introspection where
  "demo_tree =
     \<lparr>ig_catalog = empty_catalog\<lparr>ct_relations := \<lambda>_. Inr (map Inr (left_join None demo_schemas), None)\<rparr>, ig_mongo_dbs = Inr []\<rparr>"

theorem explorer_shows_catalogue_witness:
  "fst (apiExplorer demo_tree demo_rq demo_world)
     = writeJSON 200 [(''kind'', FStr ''postgres''), (''schemas'', FSchemas demo_schemas)]"
proof -
  have eng: "fst (open_engine demo_rq demo_pg demo_world) = Inr PostgresE" and kind: "Store.Engine demo_pg = ''postgres''"
    by code_simp+
  then obtain w' where "open_engine demo_rq demo_pg demo_world = (Inr PostgresE, w')" by (metis prod.collapse)
  moreover have "schema_tree demo_schemas" by (simp add: schema_tree_def demo_schemas_def)
  moreover have "ct_relations (ig_catalog demo_tree) (schemas_sql PostgresE) = Inr (map Inr (left_join None demo_schemas), None)"
    by (simp add: demo_tree_def)
  ultimately show ?thesis
    using explorer_shows_catalogue [OF demo_connFor, of PostgresE w' demo_schemas demo_tree None] kind by (simp add: family_defs)
qed

end
