(* ===== verification/Spec2Isabelle.thy ===== *)
theory Spec2Isabelle
  imports Server Introspect
begin

text \<open>
  \<^bold>\<open>verix-dbm.\<close> A web application through which the users of an organisation work with its databases: Postgres,
  MySQL and SQLite over SQL, Redis and MongoDB over their own commands. Connections, their sealed
  passwords, access grants and the audit log live in a metadata store; users log in with OpenID Connect.
  This development translates the Go packages under \<^verbatim>\<open>src/\<close> into executable definitions and proves what makes
  them correct. \<^verbatim>\<open>C1\<close> to \<^verbatim>\<open>C40\<close> mark the main properties.

  \<^bold>\<open>Parts and how they interact.\<close> \<^verbatim>\<open>cmd/server/main.go\<close> reads the configuration, opens the key ring and the metadata
  store, discovers the identity provider and starts the server. A request passes the observation
  middleware, the response headers, a rate limiter and the session middleware, and reaches a handler of
  \<^verbatim>\<open>internal/web\<close>. A handler that touches a connection loads it from the store (\<^verbatim>\<open>connFor\<close>), where access control
  is decided, takes a pool from the registry of \<^verbatim>\<open>internal/conn\<close>, which unseals the password with \<^verbatim>\<open>internal/crypto\<close>
  and dials, runs statements through the engine of the connection's family, and appends an audit row.
  Background loops expire sessions, rate limits, idle pools and old audit rows.

  \<^bold>\<open>Theories.\<close>

  \<^item> \<open>Prelude\<close>: what the sources use of \<^verbatim>\<open>strings\<close>, \<^verbatim>\<open>strconv\<close> and \<^verbatim>\<open>fmt\<close>. \<open>Regexp\<close>: the matcher of \<^verbatim>\<open>regexp\<close>, proved equal to the
    declarative meaning of patterns; termination of its star by progress. \<open>Filepath\<close>: \<^verbatim>\<open>path/filepath\<close> and
    \<^verbatim>\<open>store.ResolveSQLitePath\<close>: containment in the allowed directory through symbolic links, and termination.
  \<^item> \<open>DbSql\<close> (\<^verbatim>\<open>internal/dbsql\<close>): records, families, the confirmation screen and what it asks for in terms of words.
    \<open>Dialect\<close>: the locales \<open>quoted_token\<close> and \<open>sql_dialect\<close>, the contract of quoting against a reader of SQL tokens.
    \<open>Driver\<close>: servers as functions of the history, traces, the script and row loops.
    \<open>Postgres\<close>, \<open>MySQL\<close>, \<open>SQLite\<close> (\<^verbatim>\<open>internal/postgres\<close>, \<^verbatim>\<open>mysql\<close>, \<^verbatim>\<open>sqlite\<close>): builders, screens, queries, scripts, catalogue
    conversions; each interprets \<open>sql_dialect\<close>. \<open>Engines\<close>: the interface \<^verbatim>\<open>dbsql.Engine\<close> as dispatch, and the properties
    common to the engines (quoting, guarded read-only queries, all-or-nothing scripts, row cap).
    \<open>Catalog\<close>: the catalogue statements of the engines and the introspection methods that run them, with the databases as the
    record \<open>catalog\<close>; a method returns its result and the statements it sent, all of them catalogue statements.
  \<^item> \<open>Crypto\<close> (\<^verbatim>\<open>internal/crypto\<close>): base64, hex, GCM, key rings; round trip and rotation. \<open>Config\<close> (\<^verbatim>\<open>internal/config\<close>).
  \<^item> \<open>Sessions\<close>, \<open>Auth\<close> (\<^verbatim>\<open>internal/auth\<close>): the interface \<^verbatim>\<open>sessionStore\<close> as the locale \<open>session_store\<close>, interpreted by the
    memory and the Redis store, which both refine a map with expiry; login, callback, logout and middleware
    as operations on a state, proved for every store that meets the contract.
  \<^item> \<open>Store\<close> (\<^verbatim>\<open>internal/store\<close>): tables as lists of rows, the invariant \<open>store_ok\<close> over \<open>store_reach\<close>, connection strings.
    \<open>Clock\<close>: what it uses of \<^verbatim>\<open>time\<close>, the proleptic Gregorian calendar and RFC 3339 texts; the texts order as the times do
    and parse back. \<open>Rows\<close>: the statements, their arguments, the schema and the stored rows with times and flags as
    the database keeps them; they refine \<open>Store\<close> under \<open>load\<close>.
    \<open>Registry\<close> (\<^verbatim>\<open>internal/conn\<close>): pools; the interleaving of lookups, insertions, \<^verbatim>\<open>Forget\<close> and the janitor as the step
    relation \<open>reg_step\<close> with the invariant \<open>reg_ok\<close>. \<open>RedisDb\<close>, \<open>MongoDb\<close>: the two other clients.
  \<^item> \<open>RateLimit\<close>, \<open>Egress\<close>, \<open>Security\<close>, \<open>Redact\<close>: the guards of \<^verbatim>\<open>internal/web\<close>: limiter, address guard, access policy and
    screens, redaction of audit lines.
  \<^item> \<open>WebCore\<close>, \<open>WebSql\<close>, \<open>WebConn\<close>, \<open>WebKv\<close>: every handler, as a function from the environment of the request and the
    world (store, registry, log of what was sent to targets) to the response and the new world. \<open>accounted\<close> says that a
    request only appends to the audit log, and adds exactly one row under the caller's name when it changes metadata.
    The catalogue statements of the introspection handlers are in the log like every other command.
    \<open>Introspect\<close>: the explorer shows the schemas and relations of the catalogue, no more and no less.
  \<^item> \<open>Observ\<close>: metrics, request log, single page application, logger, retention, start-up from opening the store to the
    last signal: what a started process can rely on.
    \<open>Server\<close>: the router and the running process, the step relation \<open>srv_step\<close> and its reachable states \<open>srv_reach\<close>.
  \<^item> This theory: the properties of the whole process, which need all of the above.

  \<^bold>\<open>How state and effects are modelled.\<close> A struct is a record, an operation that changes it returns the new record, an
  error is \<^const>\<open>Inl\<close> of its text, a panic a constructor of the answer. Maps of the sources are functions, or lists of
  rows where order or size matters. Integers are \<^typ>\<open>int\<close>; where a product or a conversion can leave 64
  or 32 bits, the wrap-around is written out (\<open>mul_int64\<close>, the pool limit). Time is an argument in seconds, everywhere (the idle limit of pools and the windows of the limiters included);
  RFC 3339 texts are for years 0 to 9999, and the parser is the strict one of \<^verbatim>\<open>time.Parse\<close>.
  The whole process is proved with the sessions in memory; the session stores and the login protocol for both backends.
  Concurrency is interleaving: of critical sections in \<open>reg_step\<close>, of whole requests and background rounds in \<open>srv_step\<close>.

  \<^bold>\<open>Bounds and fuel.\<close> No definition runs on fuel, except \<open>resolve_rounds\<close>, which counts the rounds of one loop to show
  that they suffice. Loops are structural recursion or have a termination proof.

  \<^bold>\<open>Parameters.\<close> What is not under \<^verbatim>\<open>src/\<close> is an argument, and the theorems hold for all its values unless they name a
  hypothesis: the database servers and drivers, the Redis and MongoDB clients, the identity provider, the
  name resolver, the file system, the AES block cipher, the random source, the clock, the decoders of
  request bodies, the catalogues of target databases, and the faults of the metadata database. The identity of a request's endpoint and its
  path parameters come from the router library.

  \<^bold>\<open>Not modelled.\<close> JSON and CSV encodings as bytes (answers are field lists), what a database server does with the text of a
  statement (for the metadata store \<open>db_exec\<close> is the effect of each statement on the rows), the Prometheus exposition, runtime collectors and histogram buckets, the contents of the single page
  application, sockets and the draining of requests at shutdown, context timeouts and cancellation (a timeout is an error
  of the call), interleavings inside one handler other than those of the registry, letters and white
  space beyond ASCII in case folding and trimming, and the exact texts of errors of the standard library.
  Reads of the Redis and MongoDB browsers are answers of their clients and are not in the log of commands. Whether Redis can be
  reached changes between requests, not within one. Row ids of the metadata store are consecutive; Postgres may skip some.
\<close>

section \<open>Properties\<close>

text \<open>C4: the invariant of the running server. In every state that requests and background rounds lead to, in any
  order and with any behaviour of clients, targets, provider and clock: the metadata store satisfies its
  constraints, no cached pool is closed or shared by two connections, the tables of both rate limiters
  stay within 50000 keys, and every session that a lookup can return is either the record of a login in progress, without a
  user and a CSRF token, or has a CSRF token and a user that the provider vouches for: identity, roles and groups
  are those of verified tokens of one code exchange, and the capabilities exactly those of these roles. In dev mode
  the user may also be the local admin of that mode.\<close>

theorem server_invariant:
  assumes "srv_reach mem_api mem_reap newMemSessionStore p E sv" and "\<forall>x\<in>E. en_cfg (sx_base x) = cfg"
  shows "store_ok (wd_st (sv_world sv)) \<and> reg_ok (wd_rg (sv_world sv), [])
     \<and> length (rl_hits (sv_authLimit sv)) \<le> 50000 \<and> length (rl_hits (sv_authedLimit sv)) \<le> 50000
     \<and> (\<forall>now k s. mem_Get now (au_sessions (sv_auth sv)) k = Some s \<longrightarrow> good_entry p cfg k s)"
proof -
  have "good_entry p cfg k s" if "mem_Get now (au_sessions (sv_auth sv)) k = Some s" for now k s
    using mem.entries_get [of "good_entry p cfg" "au_sessions (sv_auth sv)" now k s] mem_reach_inv [OF assms] that
    by (simp add: mem_api_def)
  then show ?thesis using mem_reach_inv [OF assms] by (auto simp: base_ok_def rl_ok_def maxRateKeys_def)
qed

theorem server_invariant_witness:
  "store_ok (wd_st (sv_world demo_ready)) \<and> (\<exists>s. mem_Get 2 (au_sessions (sv_auth demo_ready)) zeros = Some s \<and> good_entry admin_idp demo_cfg zeros s)"
proof -
  obtain s where s: "mem_Get 2 (au_sessions (sv_auth demo_ready)) zeros = Some s"
    using demo_session_ready(1) demo_request(3) by (auto simp: Middleware_Next current_Some mem_api_def)
  then show ?thesis using server_invariant [OF demo_reach, of demo_cfg] by auto
qed

text \<open>C1: who reaches the targets. Whatever request arrives in whatever reachable state, outside dev mode: if
  it makes the server send SQL to a target database or a console command to a Redis or MongoDB server,
  then it came with the cookie of a live session; the user of that session has read access and the
  capabilities of its roles, the connection named in the request exists and access control lets this
  user read it. SQL goes to that connection only, as one entry, and by a SQL route of the router. An introspection route
  sends catalogue statements only, fixed texts (or \<^verbatim>\<open>SHOW CREATE TABLE\<close> of the quoted name) that need no CSRF token; on every other
  SQL route, unless the statement runs in the engine's read-only mode, the
  request passed the CSRF check, the user may write to that connection and the connection is not marked
  read-only. A console command always needs the CSRF check.\<close>

theorem targets_reached_only_by_authorised_users:
  assumes "srv_reach mem_api mem_reap newMemSessionStore p E sv" and "\<forall>x\<in>E. en_cfg (sx_base x) = cfg"
    and "\<not> cfg_DevMode cfg" and "x \<in> E" and "ServeHTTP mem_api p x q sv = (out, sv')"
    and "wd_sent (sv_world sv') \<noteq> wd_sent (sv_world sv) \<or> sv_kv sv' \<noteq> sv_kv sv"
  shows "\<exists>u c. current mem_api (hq_now q) (au_sessions (sv_auth sv)) (hq_auth q) = Some u \<and> u_Read u \<and> caps_ok cfg u
     \<and> GetConnection (en_f_conn (sx_base x)) (wd_st (sv_world sv)) (Atoi_lax (hq_id q)) = Inr c
     \<and> ca_Read (access cfg (en_f_grant (sx_base x)) (wd_st (sv_world sv)) u c)
     \<and> (sv_kv sv' = sv_kv sv \<or> CheckCSRF mem_api (hq_now q) (au_sessions (sv_auth sv)) (hq_auth q))
     \<and> (wd_sent (sv_world sv') = wd_sent (sv_world sv)
        \<or> (\<exists>r tr. route_of (hq_endpoint q) = Some r \<and> wd_sent (sv_world sv') = wd_sent (sv_world sv) @ [(cn_ID c, tr)]
             \<and> (if introspects r then list_all (catalogue_read (engine_of c)) tr
                else (\<exists>sql schema. tr = snd (eng_Query (engine_of c) (en_target (sx_base x)) sql True schema))
                \<or> CheckCSRF mem_api (hq_now q) (au_sessions (sv_auth sv)) (hq_auth q)
                  \<and> ca_Write (access cfg (en_f_grant (sx_base x)) (wd_st (sv_world sv)) u c) \<and> \<not> cn_ReadOnly c)))"
proof -
  let ?w = "sv_world sv" and ?w' = "sv_world sv'"
  have cfg: "en_cfg (sx_base x) = cfg" using assms(2,4) by blast
  have inv: "mem.entries (good_entry p (en_cfg (sx_base x))) (au_sessions (sv_auth sv))"
    unfolding cfg using mem_reach_inv [OF assms(1,2)] ..
  have "\<not> unhandled x q sv sv'" using assms(6) by (auto simp: unhandled_def)
  then obtain u where u: "current mem_api (hq_now q) (au_sessions (sv_auth sv)) (hq_auth q) = Some u" "u_Read u" "caps_ok cfg u"
    and h: "handled x q (user_env mem_api x q u (au_sessions (sv_auth sv))) sv sv'"
    using mem.handled_user [OF inv _ ServeHTTP_routed [OF assms(5)]] assms(3) cfg verified_caps by metis
  let ?rq = "user_env mem_api x q u (au_sessions (sv_auth sv))"
  note effect = handled_effect [OF h]
  obtain c where c: "connFor ?rq ?w = Inr c" using effect assms(6) unfolding exchange_def by blast
  have kv: "sv_kv sv' = sv_kv sv \<or> en_csrf ?rq" using effect by blast
  have sent: "wd_sent ?w' = wd_sent ?w
      \<or> (\<exists>r tr. route_of (hq_endpoint q) = Some r \<and> wd_sent ?w' = wd_sent ?w @ [(cn_ID c, tr)]
          \<and> (if introspects r then list_all (catalogue_read (engine_of c)) tr else may_write ?rq ?w c \<or> read_only_trace ?rq c tr))"
    using effect c unfolding exchange_def by auto
  have env: "may_write ?rq ?w c \<longleftrightarrow> CheckCSRF mem_api (hq_now q) (au_sessions (sv_auth sv)) (hq_auth q)
       \<and> ca_Write (access cfg (en_f_grant (sx_base x)) (wd_st ?w) u c) \<and> \<not> cn_ReadOnly c"
    "read_only_trace ?rq c tr \<longleftrightarrow> (\<exists>sql schema. tr = snd (eng_Query (engine_of c) (en_target (sx_base x)) sql True schema))"
    "en_csrf ?rq \<longleftrightarrow> CheckCSRF mem_api (hq_now q) (au_sessions (sv_auth sv)) (hq_auth q)"
    "GetConnection (en_f_conn (sx_base x)) (wd_st ?w) (Atoi_lax (hq_id q)) = Inr c"
    "ca_Read (access cfg (en_f_grant (sx_base x)) (wd_st ?w) u c)" for tr
    using c by (simp_all add: connFor_Inr may_write_def read_only_trace_def user_env_def base_env_def req_access_def idParam_def cfg)
  show ?thesis
    using u kv env(4,5) sent unfolding env(1-3) by (intro exI [of _ u] exI [of _ c] conjI) (auto split: if_splits)
qed

theorem targets_reached_only_by_authorised_users_witness:
  "\<exists>u. current mem_api 2 (au_sessions (sv_auth demo_ready)) demo_req = Some u \<and> u_Read u \<and> caps_ok demo_cfg u
     \<and> CheckCSRF mem_api 2 (au_sessions (sv_auth demo_ready)) demo_req"
proof -
  obtain out where "ServeHTTP mem_api admin_idp demo_server_env (demo_http demo_truncate 2) demo_ready
      = (out, serve_demo demo_truncate 2 demo_ready)" unfolding serve_demo_def by (metis prod.collapse)
  from targets_reached_only_by_authorised_users [OF demo_reach _ demo_cfg_dev _ this] demo_truncated demo_session_ready(2)
  show ?thesis by auto
qed

text \<open>C2: who changes the metadata. In every reachable state outside dev mode, a request after which the stored
  connections or the grants differ came with the cookie of a live session of an administrator and
  passed the CSRF check; nothing is sent to a target on the way, and the audit trail gets a row with the
  address of that administrator and the time of the request.\<close>

theorem metadata_changed_only_by_admins:
  assumes "srv_reach mem_api mem_reap newMemSessionStore p E sv" and "\<forall>x\<in>E. en_cfg (sx_base x) = cfg"
    and "\<not> cfg_DevMode cfg" and "x \<in> E" and "ServeHTTP mem_api p x q sv = (out, sv')"
    and "st_conns (wd_st (sv_world sv')) \<noteq> st_conns (wd_st (sv_world sv))
      \<or> st_grants (wd_st (sv_world sv')) \<noteq> st_grants (wd_st (sv_world sv))"
  shows "\<exists>u. current mem_api (hq_now q) (au_sessions (sv_auth sv)) (hq_auth q) = Some u \<and> u_Admin u
     \<and> cfg_OIDCAdminRole cfg \<in> set (u_Roles u) \<and> CheckCSRF mem_api (hq_now q) (au_sessions (sv_auth sv)) (hq_auth q)
     \<and> wd_sent (sv_world sv') = wd_sent (sv_world sv)
     \<and> (\<exists>a. st_sink (wd_st (sv_world sv')) = st_sink (wd_st (sv_world sv)) @ [a] \<and> a_User a = u_Email u \<and> a_TS a = hq_now q)"
proof -
  have cfg: "en_cfg (sx_base x) = cfg" using assms(2,4) by blast
  have inv: "mem.entries (good_entry p (en_cfg (sx_base x))) (au_sessions (sv_auth sv))"
    unfolding cfg using mem_reach_inv [OF assms(1,2)] ..
  have not_tame: "\<not> tame rq (sv_world sv) (sv_world sv')" for rq using assms(6) tame_store(2,3) by metis
  then have "\<not> unhandled x q sv sv'" by (simp add: unhandled_def)
  then obtain u where u: "current mem_api (hq_now q) (au_sessions (sv_auth sv)) (hq_auth q) = Some u" "caps_ok cfg u"
    and h: "handled x q (user_env mem_api x q u (au_sessions (sv_auth sv))) sv sv'"
    using mem.handled_user [OF inv _ ServeHTTP_routed [OF assms(5)]] assms(3) cfg verified_caps by metis
  from handled_effect [OF h] not_tame u assms(6) show ?thesis
    by (auto simp: accounted_def user_env_def base_env_def caps_ok_def)
qed

theorem metadata_changed_only_by_admins_witness:
  "\<exists>u. current mem_api 2 (au_sessions (sv_auth demo_ready)) demo_req = Some u \<and> u_Admin u
     \<and> CheckCSRF mem_api 2 (au_sessions (sv_auth demo_ready)) demo_req"
proof -
  let ?q = "demo_http (Api (EpManage DeleteConn)) 2"
  obtain out where "ServeHTTP mem_api admin_idp demo_server_env ?q demo_ready
      = (out, serve_demo (Api (EpManage DeleteConn)) 2 demo_ready)" unfolding serve_demo_def by (metis prod.collapse)
  from metadata_changed_only_by_admins [OF demo_reach _ demo_cfg_dev _ this] demo_deleted show ?thesis by auto
qed

text \<open>C3: the audit log is append-only. No request, whoever sends it and whatever the targets and the provider answer,
  changes or removes a row of it; of the background loops only the retention does, and it removes rows
  by their age alone.\<close>

theorem audit_log_is_append_only:
  "prefix (st_audit (wd_st (sv_world sv))) (st_audit (wd_st (sv_world (snd (ServeHTTP mem_api p x q sv)))))
   \<and> (srv_step mem_api mem_reap p E sv sv' \<longrightarrow>
        prefix (st_audit (wd_st (sv_world sv))) (st_audit (wd_st (sv_world sv')))
        \<or> (\<exists>cutoff. st_audit (wd_st (sv_world sv')) = filter (\<lambda>a. cutoff \<le> a_TS a) (st_audit (wd_st (sv_world sv)))))"
proof (intro conjI impI)
  obtain out sv1 where serve: "ServeHTTP mem_api p x q sv = (out, sv1)" by (metis prod.collapse)
  then obtain rq where "accounted rq (sv_world sv) (sv_world sv1)" using routed_accounted [OF ServeHTTP_routed] by blast
  then show "prefix (st_audit (wd_st (sv_world sv))) (st_audit (wd_st (sv_world (snd (ServeHTTP mem_api p x q sv)))))"
    by (simp add: serve accounted_def)
qed (rule srv_step_trail)

theorem audit_log_is_append_only_witness:
  "srv_step mem_api mem_reap admin_idp {demo_server_env} demo_ready (serve_demo demo_truncate 2 demo_ready)
   \<and> prefix (st_audit (wd_st (sv_world demo_ready))) (st_audit (wd_st (sv_world (serve_demo demo_truncate 2 demo_ready))))"
  using audit_log_is_append_only [of demo_ready admin_idp demo_server_env "demo_http demo_truncate 2" "{}" demo_ready]
    demo_step [of mem_reap demo_ready demo_truncate 2]
  by (simp add: serve_demo_def)

end
